theory Spec2Isabelle
  imports Complex_Main
begin

section \<open>JavaScript numbers\<close>

text \<open>
  The engine computes with JavaScript numbers. They are modelled as the reals extended
  by the three non-finite values of IEEE arithmetic, so that a division by zero and a
  comparison with \<open>NaN\<close> behave as they do in the program. The operations of this section
  do not round: a finite result is the exact real one, and every zero is \<open>+0\<close>. The
  rounding of binary64 is the subject of a section of its own, and the properties that
  depend on it are stated of the rounded operations.
\<close>

datatype jsnum = Fin real | PInf | NInf | NaN

fun jneg :: "jsnum \<Rightarrow> jsnum" where
  "jneg (Fin a) = Fin (- a)"
| "jneg PInf = NInf"
| "jneg NInf = PInf"
| "jneg NaN = NaN"

fun jadd :: "jsnum \<Rightarrow> jsnum \<Rightarrow> jsnum" where
  "jadd (Fin a) (Fin b) = Fin (a + b)"
| "jadd NaN _ = NaN"
| "jadd _ NaN = NaN"
| "jadd PInf NInf = NaN"
| "jadd NInf PInf = NaN"
| "jadd PInf _ = PInf"
| "jadd _ PInf = PInf"
| "jadd NInf _ = NInf"
| "jadd _ NInf = NInf"

definition jsub :: "jsnum \<Rightarrow> jsnum \<Rightarrow> jsnum" where
  "jsub a b = jadd a (jneg b)"

fun jmul :: "jsnum \<Rightarrow> jsnum \<Rightarrow> jsnum" where
  "jmul (Fin a) (Fin b) = Fin (a * b)"
| "jmul NaN _ = NaN"
| "jmul _ NaN = NaN"
| "jmul (Fin a) PInf = (if a = 0 then NaN else if 0 < a then PInf else NInf)"
| "jmul (Fin a) NInf = (if a = 0 then NaN else if 0 < a then NInf else PInf)"
| "jmul PInf (Fin b) = (if b = 0 then NaN else if 0 < b then PInf else NInf)"
| "jmul NInf (Fin b) = (if b = 0 then NaN else if 0 < b then NInf else PInf)"
| "jmul PInf PInf = PInf"
| "jmul PInf NInf = NInf"
| "jmul NInf PInf = NInf"
| "jmul NInf NInf = PInf"

fun jdiv :: "jsnum \<Rightarrow> jsnum \<Rightarrow> jsnum" where
  "jdiv (Fin a) (Fin b) =
     (if b = 0 then (if a = 0 then NaN else if 0 < a then PInf else NInf)
      else Fin (a / b))"
| "jdiv NaN _ = NaN"
| "jdiv _ NaN = NaN"
| "jdiv (Fin a) PInf = Fin 0"
| "jdiv (Fin a) NInf = Fin 0"
| "jdiv PInf (Fin b) = (if 0 \<le> b then PInf else NInf)"
| "jdiv NInf (Fin b) = (if 0 \<le> b then NInf else PInf)"
| "jdiv PInf PInf = NaN"
| "jdiv PInf NInf = NaN"
| "jdiv NInf PInf = NaN"
| "jdiv NInf NInf = NaN"

text \<open>The remainder operator \<open>%\<close>: the result takes the sign of the dividend.\<close>

definition trunc :: "real \<Rightarrow> int" where
  "trunc q = (if 0 \<le> q then \<lfloor>q\<rfloor> else \<lceil>q\<rceil>)"

fun jrem :: "jsnum \<Rightarrow> jsnum \<Rightarrow> jsnum" where
  "jrem (Fin a) (Fin b) = (if b = 0 then NaN else Fin (a - b * of_int (trunc (a / b))))"
| "jrem NaN _ = NaN"
| "jrem _ NaN = NaN"
| "jrem PInf _ = NaN"
| "jrem NInf _ = NaN"
| "jrem (Fin a) PInf = Fin a"
| "jrem (Fin a) NInf = Fin a"

text \<open>Comparisons: every comparison with \<open>NaN\<close> is false.\<close>

fun jlt :: "jsnum \<Rightarrow> jsnum \<Rightarrow> bool" where
  "jlt (Fin a) (Fin b) = (a < b)"
| "jlt NaN _ = False"
| "jlt _ NaN = False"
| "jlt _ NInf = False"
| "jlt PInf _ = False"
| "jlt NInf _ = True"
| "jlt _ PInf = True"

definition jgt :: "jsnum \<Rightarrow> jsnum \<Rightarrow> bool" where
  "jgt a b = jlt b a"

fun jle :: "jsnum \<Rightarrow> jsnum \<Rightarrow> bool" where
  "jle (Fin a) (Fin b) = (a \<le> b)"
| "jle NaN _ = False"
| "jle _ NaN = False"
| "jle NInf _ = True"
| "jle _ PInf = True"
| "jle _ NInf = False"
| "jle PInf _ = False"

definition jge :: "jsnum \<Rightarrow> jsnum \<Rightarrow> bool" where
  "jge a b = jle b a"

text \<open>Strict equality \<open>===\<close> on numbers: \<open>NaN\<close> equals nothing, itself included.\<close>

definition jseq :: "jsnum \<Rightarrow> jsnum \<Rightarrow> bool" where
  "jseq a b = (a = b \<and> a \<noteq> NaN)"

text \<open>A number is falsy when it is zero or \<open>NaN\<close>; \<open>a || b\<close> yields \<open>b\<close> then.\<close>

definition jor :: "jsnum \<Rightarrow> jsnum \<Rightarrow> jsnum" where
  "jor a b = (if a = Fin 0 \<or> a = NaN then b else a)"

subsection \<open>The functions of \<open>Math\<close>\<close>

fun jsqrt :: "jsnum \<Rightarrow> jsnum" where
  "jsqrt (Fin a) = (if a < 0 then NaN else Fin (sqrt a))"
| "jsqrt PInf = PInf"
| "jsqrt NInf = NaN"
| "jsqrt NaN = NaN"

fun jabs :: "jsnum \<Rightarrow> jsnum" where
  "jabs (Fin a) = Fin \<bar>a\<bar>"
| "jabs PInf = PInf"
| "jabs NInf = PInf"
| "jabs NaN = NaN"

fun jfloor :: "jsnum \<Rightarrow> jsnum" where
  "jfloor (Fin a) = Fin (of_int \<lfloor>a\<rfloor>)"
| "jfloor PInf = PInf"
| "jfloor NInf = NInf"
| "jfloor NaN = NaN"

fun jcos :: "jsnum \<Rightarrow> jsnum" where
  "jcos (Fin a) = Fin (cos a)"
| "jcos _ = NaN"

fun jsin :: "jsnum \<Rightarrow> jsnum" where
  "jsin (Fin a) = Fin (sin a)"
| "jsin _ = NaN"

fun jexp :: "jsnum \<Rightarrow> jsnum" where
  "jexp (Fin a) = Fin (exp a)"
| "jexp PInf = PInf"
| "jexp NInf = Fin 0"
| "jexp NaN = NaN"

text \<open>
  \<open>Math.atan2(y, x)\<close>: the angle of the point \<open>(x, y)\<close> in \<open>(-\<pi>, \<pi>]\<close>, and \<open>0\<close>
  at the origin.
\<close>

definition atan2 :: "real \<Rightarrow> real \<Rightarrow> real" where
  "atan2 y x =
     (if 0 < x then arctan (y / x)
      else if x < 0 then (if 0 \<le> y then arctan (y / x) + pi else arctan (y / x) - pi)
      else if 0 < y then pi / 2
      else if y < 0 then - (pi / 2)
      else 0)"

fun jatan2 :: "jsnum \<Rightarrow> jsnum \<Rightarrow> jsnum" where
  "jatan2 (Fin y) (Fin x) = Fin (atan2 y x)"
| "jatan2 NaN _ = NaN"
| "jatan2 _ NaN = NaN"
| "jatan2 (Fin y) PInf = Fin 0"
| "jatan2 (Fin y) NInf = (if 0 \<le> y then Fin pi else Fin (- pi))"
| "jatan2 PInf (Fin x) = Fin (pi / 2)"
| "jatan2 NInf (Fin x) = Fin (- (pi / 2))"
| "jatan2 PInf PInf = Fin (pi / 4)"
| "jatan2 PInf NInf = Fin (3 * pi / 4)"
| "jatan2 NInf PInf = Fin (- (pi / 4))"
| "jatan2 NInf NInf = Fin (- (3 * pi / 4))"

section \<open>The simulation state\<close>

datatype surface_type = Drum | VaneLeading | VaneTrailing

record surface =
  stype :: surface_type
  sid :: string
  sindex :: nat
  scolor :: string

text \<open>
  The fields of \<open>DryerPhysics\<close>; those of \<open>this.ball\<close> and \<open>this.debugInfo\<close> carry
  the object's name as a prefix. The registered listeners are represented by the log
  \<open>emitted\<close> of the calls they receive, and the host's timer queue by \<open>timers\<close> (the
  pending \<open>setTimeout\<close> callbacks of \<open>triggerCollision\<close>, each with its due time and the
  surface id it closes over) and \<open>clock\<close> (the host's time in milliseconds).
\<close>

record physics =
  rpm :: jsnum
  drumRadius :: jsnum
  vaneCount :: jsnum
  vaneHeight :: jsnum
  ball_x :: jsnum
  ball_y :: jsnum
  ball_vx :: jsnum
  ball_vy :: jsnum
  ball_radius :: jsnum
  ball_mass :: jsnum
  ball_restitution :: jsnum
  ball_dragCoeff :: jsnum
  gravity :: jsnum
  earthGravity :: jsnum
  moonGravity :: jsnum
  airDensity :: jsnum
  lintTrapEnabled :: bool
  lintTrapThreshold :: jsnum
  moonGravityEnabled :: bool
  useQuadraticDrag :: bool
  drumAngle :: jsnum
  drumAngularVelocity :: jsnum
  segmentIndexOffset :: jsnum
  enableCoriolis :: bool
  enableCentrifugal :: bool
  enableAirDrag :: bool
  coriolisSignFlip :: jsnum
  surfaces :: "surface list"
  lastCollisionSurface :: "string option"
  debug_centrifugalMagnitude :: jsnum
  debug_coriolisMagnitude :: jsnum
  debug_dragMagnitude :: jsnum
  debug_totalVelocity :: jsnum
  emitted :: "(surface \<times> jsnum) list"
  timers :: "(real \<times> string) list"
  clock :: real

subsection \<open>Surface ids\<close>

text \<open>
  The decimal digits of a loop index, as a template literal prints them (an integer
  below \<open>10\<^sup>2\<^sup>1\<close> is printed in full).
\<close>

definition digit_char :: "nat \<Rightarrow> char" where
  "digit_char d = char_of (48 + d)"

fun numToString :: "nat \<Rightarrow> string" where
  "numToString n =
     (if n < 10 then [digit_char n] else numToString (n div 10) @ [digit_char (n mod 10)])"

declare numToString.simps [simp del]

definition colors :: "string list" where
  "colors =
     [''#ff6b6b'', ''#4ecdc4'', ''#ffe66d'', ''#a8e6cf'',
      ''#ff8b94'', ''#c7ceea'', ''#ffd3b6'', ''#ffaaa5'',
      ''#dcedc1'', ''#a8d8ea'', ''#ffccf9'', ''#b4f8c8'']"

definition getSurfaceColor :: "nat \<Rightarrow> string" where
  "getSurfaceColor i = colors ! (i mod length colors)"

definition drumSurface :: "nat \<Rightarrow> surface" where
  "drumSurface i =
     \<lparr>stype = Drum, sid = ''drum_'' @ numToString i, sindex = i,
      scolor = getSurfaceColor (i * 2)\<rparr>"

definition leadSurface :: "nat \<Rightarrow> surface" where
  "leadSurface i =
     \<lparr>stype = VaneLeading, sid = ''vane_'' @ numToString i @ ''_lead'', sindex = i,
      scolor = getSurfaceColor (i * 2 + 1)\<rparr>"

definition trailSurface :: "nat \<Rightarrow> surface" where
  "trailSurface i =
     \<lparr>stype = VaneTrailing, sid = ''vane_'' @ numToString i @ ''_trail'', sindex = i,
      scolor = getSurfaceColor (i * 2 + 1)\<rparr>"

text \<open>
  The number of rounds of \<open>for (let i = 0; i < n; i++)\<close>; with \<open>n = Infinity\<close> the loop
  never ends, which is \<open>None\<close>.
\<close>

fun loopCount :: "jsnum \<Rightarrow> nat option" where
  "loopCount (Fin v) = Some (nat \<lceil>v\<rceil>)"
| "loopCount PInf = None"
| "loopCount NInf = Some 0"
| "loopCount NaN = Some 0"

definition pushSurfaces :: "nat \<Rightarrow> surface list \<Rightarrow> surface list" where
  "pushSurfaces i acc = acc @ [drumSurface i, leadSurface i, trailSurface i]"

definition updateSurfaces :: "physics \<Rightarrow> physics option" where
  "updateSurfaces s =
     (case loopCount (vaneCount s) of
        None \<Rightarrow> None
      | Some n \<Rightarrow> Some (s\<lparr>surfaces := fold pushSurfaces [0..<n] []\<rparr>))"

subsection \<open>Configuration\<close>

definition setParameters :: "jsnum \<Rightarrow> jsnum \<Rightarrow> jsnum \<Rightarrow> jsnum \<Rightarrow> physics \<Rightarrow> physics option" where
  "setParameters rpm' drumSizeCm vaneCount' vaneHeightPercent s =
     updateSurfaces
       (s\<lparr>rpm := rpm',
          drumRadius := jdiv drumSizeCm (Fin 100),
          vaneCount := jfloor vaneCount',
          vaneHeight := jdiv vaneHeightPercent (Fin 100),
          drumAngularVelocity := jdiv (jmul (jmul rpm' (Fin 2)) (Fin pi)) (Fin 60)\<rparr>)"

definition setBallProperties ::
    "jsnum option \<Rightarrow> jsnum option \<Rightarrow> jsnum option \<Rightarrow> jsnum option \<Rightarrow> physics \<Rightarrow> physics" where
  "setBallProperties radius mass restitution dragCoeff s =
     (let s1 = (case radius of None \<Rightarrow> s | Some v \<Rightarrow> s\<lparr>ball_radius := v\<rparr>);
          s2 = (case mass of None \<Rightarrow> s1 | Some v \<Rightarrow> s1\<lparr>ball_mass := v\<rparr>);
          s3 = (case restitution of None \<Rightarrow> s2 | Some v \<Rightarrow> s2\<lparr>ball_restitution := v\<rparr>)
      in (case dragCoeff of None \<Rightarrow> s3 | Some v \<Rightarrow> s3\<lparr>ball_dragCoeff := v\<rparr>))"

definition setTennisBall :: "physics \<Rightarrow> physics" where
  "setTennisBall =
     setBallProperties (Some (Fin 0.035)) (Some (Fin 0.058)) (Some (Fin 0.75)) (Some (Fin 0.55))"

definition setBalloonBall :: "physics \<Rightarrow> physics" where
  "setBalloonBall =
     setBallProperties (Some (Fin 0.075)) (Some (Fin 0.001)) (Some (Fin 0.10)) (Some (Fin 0.47))"

definition setLintTrap :: "bool \<Rightarrow> physics \<Rightarrow> physics" where
  "setLintTrap enabled s = s\<lparr>lintTrapEnabled := enabled\<rparr>"

definition setMoonGravity :: "bool \<Rightarrow> physics \<Rightarrow> physics" where
  "setMoonGravity enabled s =
     s\<lparr>moonGravityEnabled := enabled,
       gravity := (if enabled then moonGravity s else earthGravity s)\<rparr>"

definition reset :: "physics \<Rightarrow> physics" where
  "reset s =
     s\<lparr>ball_x := jmul (drumRadius s) (Fin 0.3), ball_y := Fin 0,
       ball_vx := Fin 0, ball_vy := Fin 0, drumAngle := Fin 0\<rparr>"

text \<open>The constructor: the field initialisers, then \<open>reset()\<close> and \<open>updateSurfaces()\<close>.\<close>

definition initialFields :: physics where
  "initialFields =
     \<lparr>rpm = Fin 20, drumRadius = Fin 0.80, vaneCount = Fin 5, vaneHeight = Fin 0.30,
      ball_x = Fin 0, ball_y = Fin 0, ball_vx = Fin 0, ball_vy = Fin 0,
      ball_radius = Fin 0.035, ball_mass = Fin 0.058, ball_restitution = Fin 0.75,
      ball_dragCoeff = Fin 0.55,
      gravity = Fin 9.81, earthGravity = Fin 9.81, moonGravity = Fin 1.635,
      airDensity = Fin 1.225,
      lintTrapEnabled = False, lintTrapThreshold = Fin 0.15, moonGravityEnabled = False,
      useQuadraticDrag = False,
      drumAngle = Fin 0, drumAngularVelocity = Fin 0, segmentIndexOffset = Fin 0,
      enableCoriolis = True, enableCentrifugal = True, enableAirDrag = True,
      coriolisSignFlip = Fin 1,
      surfaces = [], lastCollisionSurface = None,
      debug_centrifugalMagnitude = Fin 0, debug_coriolisMagnitude = Fin 0,
      debug_dragMagnitude = Fin 0, debug_totalVelocity = Fin 0,
      emitted = [], timers = [], clock = 0\<rparr>"

definition new_DryerPhysics :: "physics option" where
  "new_DryerPhysics = updateSurfaces (reset initialFields)"

section \<open>Collision events\<close>

definition triggerCollision :: "surface \<Rightarrow> jsnum \<Rightarrow> physics \<Rightarrow> physics" where
  "triggerCollision sf velocity s =
     (if lintTrapEnabled s \<and> jlt velocity (lintTrapThreshold s) then s
      else if lastCollisionSurface s = Some (sid sf) then s
      else s\<lparr>lastCollisionSurface := Some (sid sf),
             timers := timers s @ [(clock s + 50, sid sf)],
             emitted := emitted s @ [(sf, velocity)]\<rparr>)"

text \<open>The body of the callback that \<open>triggerCollision\<close> hands to \<open>setTimeout\<close>.\<close>

definition timerCallback :: "string \<Rightarrow> physics \<Rightarrow> physics" where
  "timerCallback i s =
     (if lastCollisionSurface s = Some i then s\<lparr>lastCollisionSurface := None\<rparr> else s)"

text \<open>
  The host between two calls of the engine: time advances to \<open>t\<close> and the callbacks due
  by then run, in the order they were queued.
\<close>

definition advanceClock :: "real \<Rightarrow> physics \<Rightarrow> physics" where
  "advanceClock t s =
     (fold (\<lambda>e. timerCallback (snd e)) (filter (\<lambda>e. fst e \<le> t) (timers s)) s)
       \<lparr>timers := filter (\<lambda>e. \<not> fst e \<le> t) (timers s), clock := t\<rparr>"

section \<open>Collision resolution\<close>

text \<open>
  The drum-segment index that \<open>handleCollisions\<close> derives from a ball position
  \<open>(x, y)\<close>: the angle \<open>atan2(y, x)\<close>, normalised, binned and shifted by the offset.
\<close>

definition segmentIndexAt :: "jsnum \<Rightarrow> jsnum \<Rightarrow> physics \<Rightarrow> jsnum" where
  "segmentIndexAt y x s =
     (let ballAngle = jatan2 y x;
          anglePerSegment = jdiv (jmul (Fin 2) (Fin pi)) (vaneCount s);
          normalizedAngle =
            (if jlt ballAngle (Fin 0) then jadd ballAngle (jmul (Fin 2) (Fin pi))
             else ballAngle);
          segmentIndex0 = jrem (jfloor (jdiv normalizedAngle anglePerSegment)) (vaneCount s);
          segmentIndex1 = jrem (jadd segmentIndex0 (segmentIndexOffset s)) (vaneCount s)
      in if jlt segmentIndex1 (Fin 0) then jadd segmentIndex1 (vaneCount s)
         else segmentIndex1)"

text \<open>
  The wall block of \<open>handleCollisions\<close>: the distance of the ball from the axis, the
  wall test, and the resolution. The angle is read from \<open>this.ball\<close> after the two
  statements that move the ball back.
\<close>

definition ballDist :: "physics \<Rightarrow> jsnum" where
  "ballDist s = jsqrt (jadd (jmul (ball_x s) (ball_x s)) (jmul (ball_y s) (ball_y s)))"

definition wallTest :: "physics \<Rightarrow> bool" where
  "wallTest s = jgt (jadd (ballDist s) (ball_radius s)) (drumRadius s)"

definition handleWall :: "physics \<Rightarrow> physics" where
  "handleWall s =
     (if wallTest s then
        (let penetration = jsub (jadd (ballDist s) (ball_radius s)) (drumRadius s);
             nx = jdiv (jneg (ball_x s)) (ballDist s);
             ny = jdiv (jneg (ball_y s)) (ballDist s);
             s1 = s\<lparr>ball_x := jadd (ball_x s) (jmul nx penetration),
                    ball_y := jadd (ball_y s) (jmul ny penetration)\<rparr>;
             vn = jadd (jmul (ball_vx s1) nx) (jmul (ball_vy s1) ny)
         in if jlt vn (Fin 0) then
              (let segmentIndex = segmentIndexAt (ball_y s1) (ball_x s1) s1;
                   s2 = s1\<lparr>ball_vx := jsub (ball_vx s1)
                              (jmul (jmul (jadd (Fin 1) (ball_restitution s1)) vn) nx),
                           ball_vy := jsub (ball_vy s1)
                              (jmul (jmul (jadd (Fin 1) (ball_restitution s1)) vn) ny)\<rparr>
               in case find (\<lambda>sf. stype sf = Drum \<and> jseq (Fin (real (sindex sf))) segmentIndex)
                         (surfaces s2) of
                    Some sf \<Rightarrow> triggerCollision sf (jabs vn) s2
                  | None \<Rightarrow> s2)
            else s1)
      else s)"

text \<open>
  One round of the loop of \<open>checkVaneCollisions\<close>, for the vane \<open>i\<close>, in four parts:
  the vane's frame (its inner end, the vector from there to the ball, its direction and
  length), the projection parameter \<open>t\<close>, the vector from the closest point to the ball
  with its length, and the resolution.
\<close>

definition vaneFrame ::
    "jsnum \<Rightarrow> nat \<Rightarrow> physics \<Rightarrow> jsnum \<times> jsnum \<times> jsnum \<times> jsnum \<times> jsnum \<times> jsnum \<times> jsnum" where
  "vaneFrame vaneInnerRadius i s =
     (let vaneAngle = jmul (jmul (jdiv (Fin (real i)) (vaneCount s)) (Fin 2)) (Fin pi);
          vx1 = jmul vaneInnerRadius (jcos vaneAngle);
          vy1 = jmul vaneInnerRadius (jsin vaneAngle);
          vx2 = jmul (drumRadius s) (jcos vaneAngle);
          vy2 = jmul (drumRadius s) (jsin vaneAngle);
          dx = jsub (ball_x s) vx1;
          dy = jsub (ball_y s) vy1;
          vdx = jsub vx2 vx1;
          vdy = jsub vy2 vy1;
          vaneLength = jsqrt (jadd (jmul vdx vdx) (jmul vdy vdy))
      in (vx1, vy1, dx, dy, vdx, vdy, vaneLength))"

definition vaneProjection :: "jsnum \<Rightarrow> nat \<Rightarrow> physics \<Rightarrow> jsnum" where
  "vaneProjection vaneInnerRadius i s =
     (case vaneFrame vaneInnerRadius i s of
        (vx1, vy1, dx, dy, vdx, vdy, vaneLength) \<Rightarrow>
          jdiv (jadd (jmul dx vdx) (jmul dy vdy)) (jmul vaneLength vaneLength))"

definition vaneOffset :: "jsnum \<Rightarrow> nat \<Rightarrow> physics \<Rightarrow> jsnum \<times> jsnum \<times> jsnum" where
  "vaneOffset vaneInnerRadius i s =
     (case vaneFrame vaneInnerRadius i s of
        (vx1, vy1, dx, dy, vdx, vdy, vaneLength) \<Rightarrow>
          (let t = vaneProjection vaneInnerRadius i s;
               closestX = jadd vx1 (jmul t vdx);
               closestY = jadd vy1 (jmul t vdy);
               distX = jsub (ball_x s) closestX;
               distY = jsub (ball_y s) closestY;
               dist = jsqrt (jadd (jmul distX distX) (jmul distY distY))
           in (distX, distY, dist)))"

definition checkVane :: "jsnum \<Rightarrow> nat \<Rightarrow> physics \<Rightarrow> physics" where
  "checkVane vaneInnerRadius i s =
     (case vaneFrame vaneInnerRadius i s of
        (vx1, vy1, dx, dy, vdx, vdy, vaneLength) \<Rightarrow>
          (let t = vaneProjection vaneInnerRadius i s
           in if jge t (Fin 0) \<and> jle t (Fin 1) then
                (case vaneOffset vaneInnerRadius i s of
                   (distX, distY, distB) \<Rightarrow>
                     if jlt distB (ball_radius s) then
                       (let penetration = jsub (ball_radius s) distB;
                            nx = jdiv distX distB;
                            ny = jdiv distY distB;
                            s1 = s\<lparr>ball_x := jadd (ball_x s) (jmul nx penetration),
                                   ball_y := jadd (ball_y s) (jmul ny penetration)\<rparr>;
                            vn = jadd (jmul (ball_vx s1) nx) (jmul (ball_vy s1) ny)
                        in if jlt vn (Fin 0) then
                             (let s2 = s1\<lparr>ball_vx := jsub (ball_vx s1)
                                         (jmul (jmul (jadd (Fin 1) (ball_restitution s1)) vn) nx),
                                       ball_vy := jsub (ball_vy s1)
                                         (jmul (jmul (jadd (Fin 1) (ball_restitution s1)) vn) ny)\<rparr>;
                                  perpX = jdiv (jneg vdy) vaneLength;
                                  perpY = jdiv vdx vaneLength;
                                  side = (if jgt (jadd (jmul dx perpX) (jmul dy perpY)) (Fin 0)
                                          then VaneLeading else VaneTrailing)
                              in case find (\<lambda>sf. stype sf = side \<and> sindex sf = i)
                                        (surfaces s2) of
                                   Some sf \<Rightarrow> triggerCollision sf (jabs vn) s2
                                 | None \<Rightarrow> s2)
                           else s1)
                     else s)
              else s))"

definition checkVaneCollisions :: "physics \<Rightarrow> physics option" where
  "checkVaneCollisions s =
     (let vaneInnerRadius = jmul (drumRadius s) (jsub (Fin 1) (vaneHeight s))
      in case loopCount (vaneCount s) of
           None \<Rightarrow> None
         | Some n \<Rightarrow> Some (fold (checkVane vaneInnerRadius) [0..<n] s))"

definition handleCollisions :: "physics \<Rightarrow> physics option" where
  "handleCollisions s = checkVaneCollisions (handleWall s)"

section \<open>The integrator\<close>

text \<open>Each force of \<open>step\<close>: its acceleration and the state with the debug field written.\<close>

definition centrifugalAccel :: "physics \<Rightarrow> jsnum \<times> jsnum \<times> physics" where
  "centrifugalAccel s =
     (if enableCentrifugal s then
        (let distFromCenter =
               jsqrt (jadd (jmul (ball_x s) (ball_x s)) (jmul (ball_y s) (ball_y s)))
         in if jgt distFromCenter (Fin 0.0001) then
              (let centrifugalMagnitude =
                     jmul (jmul (drumAngularVelocity s) (drumAngularVelocity s)) distFromCenter
               in (jmul (jdiv (ball_x s) distFromCenter) centrifugalMagnitude,
                   jmul (jdiv (ball_y s) distFromCenter) centrifugalMagnitude,
                   s\<lparr>debug_centrifugalMagnitude := centrifugalMagnitude\<rparr>))
            else (Fin 0, Fin 0, s))
      else (Fin 0, Fin 0, s))"

definition coriolisAccel :: "physics \<Rightarrow> jsnum \<times> jsnum \<times> physics" where
  "coriolisAccel s =
     (if enableCoriolis s then
        (let sign = jor (coriolisSignFlip s) (Fin 1);
             coriolisX = jmul (jmul (jmul sign (Fin 2)) (drumAngularVelocity s)) (ball_vy s);
             coriolisY = jmul (jmul (jmul sign (Fin (- 2))) (drumAngularVelocity s)) (ball_vx s);
             coriolisMag = jsqrt (jadd (jmul coriolisX coriolisX) (jmul coriolisY coriolisY))
         in (coriolisX, coriolisY, s\<lparr>debug_coriolisMagnitude := coriolisMag\<rparr>))
      else (Fin 0, Fin 0, s))"

definition ball_area :: "physics \<Rightarrow> jsnum" where
  "ball_area s = jmul (jmul (Fin pi) (ball_radius s)) (ball_radius s)"

definition dragAccel :: "jsnum \<Rightarrow> physics \<Rightarrow> jsnum \<times> jsnum \<times> physics" where
  "dragAccel dt s =
     (if enableAirDrag s then
        (let speed = jsqrt (jadd (jmul (ball_vx s) (ball_vx s)) (jmul (ball_vy s) (ball_vy s)))
         in if jgt speed (Fin 0.001) then
              (if useQuadraticDrag s then
                 (let dragForceMagnitude =
                        jmul (jmul (jmul (jmul (jmul (Fin 0.5) (airDensity s)) speed) speed)
                                (ball_dragCoeff s)) (ball_area s);
                      dragAccelMagnitude = jdiv dragForceMagnitude (ball_mass s)
                  in (jmul (jneg (jdiv (ball_vx s) speed)) dragAccelMagnitude,
                      jmul (jneg (jdiv (ball_vy s) speed)) dragAccelMagnitude,
                      s\<lparr>debug_dragMagnitude := dragAccelMagnitude\<rparr>))
               else
                 (let dragCoeff = Fin 0.1;
                      dampingFactor = jexp (jmul (jneg dragCoeff) dt)
                  in (Fin 0, Fin 0,
                      s\<lparr>ball_vx := jmul (ball_vx s) dampingFactor,
                        ball_vy := jmul (ball_vy s) dampingFactor,
                        debug_dragMagnitude := jmul dragCoeff speed\<rparr>)))
            else (Fin 0, Fin 0, s))
      else (Fin 0, Fin 0, s))"

definition step :: "jsnum \<Rightarrow> physics \<Rightarrow> physics option" where
  "step dt s0 =
     (let s1 = s0\<lparr>drumAngle := jadd (drumAngle s0) (jmul (drumAngularVelocity s0) dt)\<rparr>;
          cosA = jcos (drumAngle s1);
          sinA = jsin (drumAngle s1);
          gravityX = jmul (jneg (gravity s1)) sinA;
          gravityY = jmul (jneg (gravity s1)) cosA;
          (centrifugalX, centrifugalY, s2) = centrifugalAccel s1;
          (coriolisX, coriolisY, s3) = coriolisAccel s2;
          (dragX, dragY, s4) = dragAccel dt s3;
          totalAccelX0 = jadd (jadd gravityX centrifugalX) coriolisX;
          totalAccelY0 = jadd (jadd gravityY centrifugalY) coriolisY;
          totalAccelX = (if useQuadraticDrag s4 then jadd totalAccelX0 dragX else totalAccelX0);
          totalAccelY = (if useQuadraticDrag s4 then jadd totalAccelY0 dragY else totalAccelY0);
          s5 = s4\<lparr>ball_vx := jadd (ball_vx s4) (jmul totalAccelX dt),
                  ball_vy := jadd (ball_vy s4) (jmul totalAccelY dt)\<rparr>;
          s6 = s5\<lparr>debug_totalVelocity :=
                    jsqrt (jadd (jmul (ball_vx s5) (ball_vx s5)) (jmul (ball_vy s5) (ball_vy s5)))\<rparr>;
          s7 = s6\<lparr>ball_x := jadd (ball_x s6) (jmul (ball_vx s6) dt),
                  ball_y := jadd (ball_y s6) (jmul (ball_vy s6) dt)\<rparr>
      in handleCollisions s7)"

section \<open>The specification's vane test\<close>

text \<open>
  The distance that the specification tests against the ball radius: from the ball to the
  closest point of the finite segment, the projection parameter being clamped to
  \<open>[0, 1]\<close>. The frame and the parameter are those of \<open>checkVaneCollisions\<close>.
\<close>

definition clampedVaneDistance :: "jsnum \<Rightarrow> nat \<Rightarrow> physics \<Rightarrow> jsnum" where
  "clampedVaneDistance vaneInnerRadius i s =
     (case vaneFrame vaneInnerRadius i s of
        (vx1, vy1, dx, dy, vdx, vdy, vaneLength) \<Rightarrow>
          (let t = vaneProjection vaneInnerRadius i s;
               tc = (if jlt t (Fin 0) then Fin 0 else if jgt t (Fin 1) then Fin 1 else t);
               closestX = jadd vx1 (jmul tc vdx);
               closestY = jadd vy1 (jmul tc vdy);
               distX = jsub (ball_x s) closestX;
               distY = jsub (ball_y s) closestY
           in jsqrt (jadd (jmul distX distX) (jmul distY distY))))"

section \<open>Example states\<close>

text \<open>
  A ball beside the only vane, moving towards it, in a drum of the default size.
\<close>

definition vaneImpactExample :: physics where
  "vaneImpactExample =
     initialFields\<lparr>vaneCount := Fin 1, ball_x := Fin 0.7, ball_y := Fin 0.01,
       ball_vy := Fin (- 1)\<rparr>"

text \<open>A ball at rest just inside the wall, beside the outer end of the vane.\<close>

definition vaneTipExample :: physics where
  "vaneTipExample =
     initialFields\<lparr>vaneCount := Fin 1, ball_x := Fin 0.7648, ball_y := Fin 0.01\<rparr>"

text \<open>A ball at rest just inside the inner end of the vane, within a ball radius of it.\<close>

definition vaneEndExample :: physics where
  "vaneEndExample =
     initialFields\<lparr>vaneCount := Fin 1, ball_x := Fin 0.55, ball_y := Fin 0.01\<rparr>"

text \<open>
  A ball larger than the drum (radius \<open>0.9\<close> in the drum of radius \<open>0.8\<close>, two vanes),
  above the axis and moving up.
\<close>

definition oversizedBallExample :: physics where
  "oversizedBallExample =
     initialFields\<lparr>vaneCount := Fin 2,
       surfaces := [drumSurface 0, leadSurface 0, trailSurface 0,
                    drumSurface 1, leadSurface 1, trailSurface 1],
       ball_radius := Fin 0.9, ball_x := Fin 0, ball_y := Fin 0.1, ball_vy := Fin 1\<rparr>"

text \<open>
  A ball at rest with its centre on the only vane: drum radius \<open>0.5\<close>, vane height
  \<open>0.5\<close>, so the vane runs from \<open>(0.25, 0)\<close> to \<open>(0.5, 0)\<close>.
\<close>

definition vaneContactExample :: physics where
  "vaneContactExample =
     initialFields\<lparr>drumRadius := Fin 0.5, vaneCount := Fin 1, vaneHeight := Fin 0.5,
       ball_x := Fin 0.375, ball_y := Fin 0\<rparr>"

section \<open>Binary64 rounding\<close>

text \<open>
  The program's numbers are binary64: every one of \<open>+\<close>, \<open>-\<close>, \<open>*\<close>, \<open>/\<close> and
  \<open>Math.sqrt\<close> returns the binary64 value nearest to the exact result, a tie going to the
  value with the even significand. \<open>fl\<close> is that rounding: the significand has 53 bits,
  the exponent of a normal number lies between \<open>-1022\<close> and \<open>1023\<close>, below that the
  spacing stays \<open>2\<^sup>-\<^sup>1\<^sup>0\<^sup>7\<^sup>4\<close>, and a result that rounds to \<open>2\<^sup>1\<^sup>0\<^sup>2\<^sup>4\<close> or beyond is infinite.
  The sign of zero is not modelled.
\<close>

definition rhe :: "real \<Rightarrow> int" where
  "rhe y =
     (let f = \<lfloor>y\<rfloor>; d = y - of_int f
      in if d < 1 / 2 then f else if 1 / 2 < d then f + 1 else if even f then f else f + 1)"

definition fl :: "real \<Rightarrow> jsnum" where
  "fl x =
     (if x = 0 then Fin 0
      else (let e = max \<lfloor>log 2 \<bar>x\<bar>\<rfloor> (- 1022);
                q = 2 powr (of_int e - 52);
                r = of_int (rhe (x / q)) * q
            in if 2 powr 1024 \<le> \<bar>r\<bar> then (if 0 < x then PInf else NInf) else Fin r))"

definition rnd :: "jsnum \<Rightarrow> jsnum" where
  "rnd a = (case a of Fin x \<Rightarrow> fl x | _ \<Rightarrow> a)"

definition radd :: "jsnum \<Rightarrow> jsnum \<Rightarrow> jsnum" where
  "radd a b = rnd (jadd a b)"

definition rsub :: "jsnum \<Rightarrow> jsnum \<Rightarrow> jsnum" where
  "rsub a b = rnd (jsub a b)"

definition rmul :: "jsnum \<Rightarrow> jsnum \<Rightarrow> jsnum" where
  "rmul a b = rnd (jmul a b)"

definition rdiv :: "jsnum \<Rightarrow> jsnum \<Rightarrow> jsnum" where
  "rdiv a b = rnd (jdiv a b)"

definition rsqrt :: "jsnum \<Rightarrow> jsnum" where
  "rsqrt a = rnd (jsqrt a)"

text \<open>The unit roundoff and the smallest positive normal number.\<close>

definition u64 :: real where
  "u64 = 1 / 2 ^ 53"

definition tiny64 :: real where
  "tiny64 = 1 / 2 ^ 1022"

section \<open>Collision resolution in binary64\<close>

text \<open>
  The two blocks of \<open>handleCollisions\<close> once more, every arithmetic operation rounded as
  the program rounds it. \<open>%\<close>, \<open>Math.floor\<close>, \<open>Math.abs\<close> and the unary minus are exact.
  \<open>Math.atan2\<close>, \<open>Math.cos\<close> and \<open>Math.sin\<close> need not round correctly and differ
  between engines, so the three are parameters; \<open>Math.PI\<close> is the binary64 value
  nearest to \<open>\<pi>\<close>.
\<close>

record jsMath =
  m_atan2 :: "jsnum \<Rightarrow> jsnum \<Rightarrow> jsnum"
  m_cos :: "jsnum \<Rightarrow> jsnum"
  m_sin :: "jsnum \<Rightarrow> jsnum"

definition math_pi :: jsnum where
  "math_pi = fl pi"

definition segmentIndexAt64 :: "jsMath \<Rightarrow> jsnum \<Rightarrow> jsnum \<Rightarrow> physics \<Rightarrow> jsnum" where
  "segmentIndexAt64 M y x s =
     (let ballAngle = m_atan2 M y x;
          anglePerSegment = rdiv (rmul (Fin 2) math_pi) (vaneCount s);
          normalizedAngle =
            (if jlt ballAngle (Fin 0) then radd ballAngle (rmul (Fin 2) math_pi)
             else ballAngle);
          segmentIndex0 = jrem (jfloor (rdiv normalizedAngle anglePerSegment)) (vaneCount s);
          segmentIndex1 = jrem (radd segmentIndex0 (segmentIndexOffset s)) (vaneCount s)
      in if jlt segmentIndex1 (Fin 0) then radd segmentIndex1 (vaneCount s)
         else segmentIndex1)"

text \<open>
  What the wall block and the vane loop share: moving the ball along a normal \<open>n\<close> by
  the penetration, the normal velocity \<open>vn = vx * nx + vy * ny\<close>, and the reflection
  \<open>v -= (1 + restitution) * vn * n\<close>.
\<close>

definition moveBall64 :: "jsnum \<times> jsnum \<Rightarrow> jsnum \<Rightarrow> physics \<Rightarrow> physics" where
  "moveBall64 n penetration s =
     s\<lparr>ball_x := radd (ball_x s) (rmul (fst n) penetration),
       ball_y := radd (ball_y s) (rmul (snd n) penetration)\<rparr>"

definition normalVelocity64 :: "jsnum \<times> jsnum \<Rightarrow> physics \<Rightarrow> jsnum" where
  "normalVelocity64 n s = radd (rmul (ball_vx s) (fst n)) (rmul (ball_vy s) (snd n))"

definition reflect64 :: "jsnum \<times> jsnum \<Rightarrow> jsnum \<Rightarrow> physics \<Rightarrow> physics" where
  "reflect64 n vn s =
     s\<lparr>ball_vx := rsub (ball_vx s) (rmul (rmul (radd (Fin 1) (ball_restitution s)) vn) (fst n)),
       ball_vy := rsub (ball_vy s) (rmul (rmul (radd (Fin 1) (ball_restitution s)) vn) (snd n))\<rparr>"

text \<open>The wall block.\<close>

definition ballDist64 :: "physics \<Rightarrow> jsnum" where
  "ballDist64 s = rsqrt (radd (rmul (ball_x s) (ball_x s)) (rmul (ball_y s) (ball_y s)))"

definition wallTest64 :: "physics \<Rightarrow> bool" where
  "wallTest64 s = jgt (radd (ballDist64 s) (ball_radius s)) (drumRadius s)"

definition wallNormal64 :: "physics \<Rightarrow> jsnum \<times> jsnum" where
  "wallNormal64 s =
     (rdiv (jneg (ball_x s)) (ballDist64 s), rdiv (jneg (ball_y s)) (ballDist64 s))"

definition handleWall64 :: "jsMath \<Rightarrow> physics \<Rightarrow> physics" where
  "handleWall64 M s =
     (if wallTest64 s then
        (let penetration = rsub (radd (ballDist64 s) (ball_radius s)) (drumRadius s);
             n = wallNormal64 s;
             s1 = moveBall64 n penetration s;
             vn = normalVelocity64 n s1
         in if jlt vn (Fin 0) then
              (let segmentIndex = segmentIndexAt64 M (ball_y s1) (ball_x s1) s1;
                   s2 = reflect64 n vn s1
               in case find (\<lambda>sf. stype sf = Drum \<and> jseq (Fin (real (sindex sf))) segmentIndex)
                         (surfaces s2) of
                    Some sf \<Rightarrow> triggerCollision sf (jabs vn) s2
                  | None \<Rightarrow> s2)
            else s1)
      else s)"

text \<open>One round of the vane loop.\<close>

definition vaneFrame64 ::
    "jsMath \<Rightarrow> jsnum \<Rightarrow> nat \<Rightarrow> physics \<Rightarrow>
       jsnum \<times> jsnum \<times> jsnum \<times> jsnum \<times> jsnum \<times> jsnum \<times> jsnum" where
  "vaneFrame64 M vaneInnerRadius i s =
     (let vaneAngle = rmul (rmul (rdiv (Fin (real i)) (vaneCount s)) (Fin 2)) math_pi;
          vx1 = rmul vaneInnerRadius (m_cos M vaneAngle);
          vy1 = rmul vaneInnerRadius (m_sin M vaneAngle);
          vx2 = rmul (drumRadius s) (m_cos M vaneAngle);
          vy2 = rmul (drumRadius s) (m_sin M vaneAngle);
          dx = rsub (ball_x s) vx1;
          dy = rsub (ball_y s) vy1;
          vdx = rsub vx2 vx1;
          vdy = rsub vy2 vy1;
          vaneLength = rsqrt (radd (rmul vdx vdx) (rmul vdy vdy))
      in (vx1, vy1, dx, dy, vdx, vdy, vaneLength))"

definition vaneProjection64 :: "jsMath \<Rightarrow> jsnum \<Rightarrow> nat \<Rightarrow> physics \<Rightarrow> jsnum" where
  "vaneProjection64 M vaneInnerRadius i s =
     (case vaneFrame64 M vaneInnerRadius i s of
        (vx1, vy1, dx, dy, vdx, vdy, vaneLength) \<Rightarrow>
          rdiv (radd (rmul dx vdx) (rmul dy vdy)) (rmul vaneLength vaneLength))"

definition vaneOffset64 ::
    "jsMath \<Rightarrow> jsnum \<Rightarrow> nat \<Rightarrow> physics \<Rightarrow> jsnum \<times> jsnum \<times> jsnum" where
  "vaneOffset64 M vaneInnerRadius i s =
     (case vaneFrame64 M vaneInnerRadius i s of
        (vx1, vy1, dx, dy, vdx, vdy, vaneLength) \<Rightarrow>
          (let t = vaneProjection64 M vaneInnerRadius i s;
               closestX = radd vx1 (rmul t vdx);
               closestY = radd vy1 (rmul t vdy);
               distX = rsub (ball_x s) closestX;
               distY = rsub (ball_y s) closestY;
               dist = rsqrt (radd (rmul distX distX) (rmul distY distY))
           in (distX, distY, dist)))"

text \<open>The two guards of a round, and the normal \<open>(distX / dist, distY / dist)\<close>.\<close>

definition vaneHit64 :: "jsMath \<Rightarrow> jsnum \<Rightarrow> nat \<Rightarrow> physics \<Rightarrow> bool" where
  "vaneHit64 M vaneInnerRadius i s =
     (let t = vaneProjection64 M vaneInnerRadius i s
      in jge t (Fin 0) \<and> jle t (Fin 1) \<and>
         (case vaneOffset64 M vaneInnerRadius i s of
            (distX, distY, distB) \<Rightarrow> jlt distB (ball_radius s)))"

definition vaneNormal64 :: "jsMath \<Rightarrow> jsnum \<Rightarrow> nat \<Rightarrow> physics \<Rightarrow> jsnum \<times> jsnum" where
  "vaneNormal64 M vaneInnerRadius i s =
     (case vaneOffset64 M vaneInnerRadius i s of
        (distX, distY, distB) \<Rightarrow> (rdiv distX distB, rdiv distY distB))"

definition checkVane64 :: "jsMath \<Rightarrow> jsnum \<Rightarrow> nat \<Rightarrow> physics \<Rightarrow> physics" where
  "checkVane64 M vaneInnerRadius i s =
     (case vaneFrame64 M vaneInnerRadius i s of
        (vx1, vy1, dx, dy, vdx, vdy, vaneLength) \<Rightarrow>
          if vaneHit64 M vaneInnerRadius i s then
            (case vaneOffset64 M vaneInnerRadius i s of
               (distX, distY, distB) \<Rightarrow>
                 (let penetration = rsub (ball_radius s) distB;
                      n = vaneNormal64 M vaneInnerRadius i s;
                      s1 = moveBall64 n penetration s;
                      vn = normalVelocity64 n s1
                  in if jlt vn (Fin 0) then
                       (let s2 = reflect64 n vn s1;
                            perpX = rdiv (jneg vdy) vaneLength;
                            perpY = rdiv vdx vaneLength;
                            side = (if jgt (radd (rmul dx perpX) (rmul dy perpY)) (Fin 0)
                                    then VaneLeading else VaneTrailing)
                        in case find (\<lambda>sf. stype sf = side \<and> sindex sf = i) (surfaces s2) of
                             Some sf \<Rightarrow> triggerCollision sf (jabs vn) s2
                           | None \<Rightarrow> s2)
                     else s1))
          else s)"

definition checkVaneCollisions64 :: "jsMath \<Rightarrow> physics \<Rightarrow> physics option" where
  "checkVaneCollisions64 M s =
     (let vaneInnerRadius = rmul (drumRadius s) (rsub (Fin 1) (vaneHeight s))
      in case loopCount (vaneCount s) of
           None \<Rightarrow> None
         | Some n \<Rightarrow> Some (fold (checkVane64 M vaneInnerRadius) [0..<n] s))"

definition handleCollisions64 :: "jsMath \<Rightarrow> physics \<Rightarrow> physics option" where
  "handleCollisions64 M s = checkVaneCollisions64 M (handleWall64 M s)"

text \<open>A \<open>Math\<close> whose functions round correctly, for the examples.\<close>

definition roundedMath :: jsMath where
  "roundedMath =
     \<lparr>m_atan2 = (\<lambda>y x. rnd (jatan2 y x)), m_cos = (\<lambda>a. rnd (jcos a)),
      m_sin = (\<lambda>a. rnd (jsin a))\<rparr>"

section \<open>Example states in binary64\<close>

text \<open>
  One vane and its three surfaces, the default sizes as the program holds them (the
  binary64 values nearest to \<open>0.8\<close>, \<open>0.3\<close> and \<open>0.035\<close>), the ball at \<open>(0.6, 0.8)\<close>,
  outside the drum, with the
  velocity \<open>(1, 1)\<close> and restitution \<open>0\<close>; the same with the ball on the axis; and the
  same with restitution \<open>0.75\<close>.
\<close>

definition roundingExample :: physics where
  "roundingExample =
     initialFields\<lparr>vaneCount := Fin 1, drumRadius := fl 0.8, vaneHeight := fl 0.3,
       surfaces := [drumSurface 0, leadSurface 0, trailSurface 0],
       ball_radius := fl 0.035, ball_restitution := Fin 0,
       ball_x := fl 0.6, ball_y := fl 0.8, ball_vx := Fin 1, ball_vy := Fin 1\<rparr>"

definition onAxisExample :: physics where
  "onAxisExample = roundingExample\<lparr>ball_x := Fin 0, ball_y := Fin 0\<rparr>"



section \<open>Verified properties\<close>

subsection \<open>Frame lemmas\<close>

lemma triggerCollision_frame [simp]:
  "ball_x (triggerCollision sf v s) = ball_x s"
  "ball_y (triggerCollision sf v s) = ball_y s"
  "ball_vx (triggerCollision sf v s) = ball_vx s"
  "ball_vy (triggerCollision sf v s) = ball_vy s"
  "ball_radius (triggerCollision sf v s) = ball_radius s"
  "ball_restitution (triggerCollision sf v s) = ball_restitution s"
  "drumRadius (triggerCollision sf v s) = drumRadius s"
  "vaneCount (triggerCollision sf v s) = vaneCount s"
  "vaneHeight (triggerCollision sf v s) = vaneHeight s"
  "surfaces (triggerCollision sf v s) = surfaces s"
  "segmentIndexOffset (triggerCollision sf v s) = segmentIndexOffset s"
  by (simp_all add: triggerCollision_def)

lemma handleWall_frame [simp]:
  "drumRadius (handleWall s) = drumRadius s"
  "vaneCount (handleWall s) = vaneCount s"
  "vaneHeight (handleWall s) = vaneHeight s"
  "ball_radius (handleWall s) = ball_radius s"
  "segmentIndexOffset (handleWall s) = segmentIndexOffset s"
  by (simp_all add: handleWall_def Let_def split: option.split)

subsection \<open>The lint trap\<close>

text \<open>
  C7 (as amended). With the lint trap enabled, an impact whose speed is below the
  threshold leaves the whole state as it is: no event, the debounce slot unchanged, no
  timer. The same impact with the lint trap disabled emits one event, unless the debounce
  slot already holds the id of the surface; then it emits none.
\<close>

theorem lint_trap_filter:
  assumes "lintTrapEnabled s" and "jlt v (lintTrapThreshold s)"
  shows "triggerCollision sf v s = s \<and>
         emitted (triggerCollision sf v (s\<lparr>lintTrapEnabled := False\<rparr>)) =
           (if lastCollisionSurface s = Some (sid sf) then emitted s else emitted s @ [(sf, v)])"
  using assms by (simp add: triggerCollision_def)

theorem lint_trap_filter_witness:
  "lintTrapEnabled (initialFields\<lparr>lintTrapEnabled := True\<rparr>) \<and>
   jlt (Fin 0.1) (lintTrapThreshold (initialFields\<lparr>lintTrapEnabled := True\<rparr>)) \<and>
   triggerCollision (drumSurface 0) (Fin 0.1) (initialFields\<lparr>lintTrapEnabled := True\<rparr>) =
     initialFields\<lparr>lintTrapEnabled := True\<rparr> \<and>
   emitted (triggerCollision (drumSurface 0) (Fin 0.1)
       (initialFields\<lparr>lintTrapEnabled := True, lintTrapEnabled := False\<rparr>)) =
     [(drumSurface 0, Fin 0.1)]"
proof -
  have a: "lintTrapEnabled (initialFields\<lparr>lintTrapEnabled := True\<rparr>)" by simp
  have b: "jlt (Fin 0.1) (lintTrapThreshold (initialFields\<lparr>lintTrapEnabled := True\<rparr>))"
    by (simp add: initialFields_def)
  have c: "lastCollisionSurface (initialFields\<lparr>lintTrapEnabled := True\<rparr>) \<noteq>
      Some (sid (drumSurface 0))"
    by (simp add: initialFields_def)
  have d: "emitted (initialFields\<lparr>lintTrapEnabled := True\<rparr>) = []"
    by (simp add: initialFields_def)
  from lint_trap_filter [OF a b, of "drumSurface 0"] a b c d show ?thesis by simp
qed

text \<open>
  As the specification words it, the property fails where the debounce slot holds the
  surface: a second impact on \<open>drum_0\<close>, with the lint trap disabled, emits nothing.
\<close>

theorem lint_trap_disabled_debounced:
  "\<not> lintTrapEnabled (triggerCollision (drumSurface 0) (Fin 1) initialFields) \<and>
   emitted (triggerCollision (drumSurface 0) (Fin 0.1)
      (triggerCollision (drumSurface 0) (Fin 1) initialFields)) =
   emitted (triggerCollision (drumSurface 0) (Fin 1) initialFields)"
  by (simp add: triggerCollision_def initialFields_def)

subsection \<open>Square roots and angles\<close>

lemma sqrt_eqI: "0 \<le> y \<Longrightarrow> y * y = x \<Longrightarrow> sqrt x = (y::real)"
  by (rule real_sqrt_unique) (simp_all add: power2_eq_square)

lemma sqrt_36_625: "sqrt (36 / 625) = (6 / 25 :: real)"
  by (rule sqrt_eqI) simp_all

lemma sqrt_1_10000: "sqrt (1 / 10000) = (1 / 100 :: real)"
  by (rule sqrt_eqI) simp_all

lemma atan2_scale: "0 < k \<Longrightarrow> atan2 (y * k) (x * k) = atan2 y x"
  by (simp add: atan2_def zero_less_mult_iff mult_less_0_iff zero_le_mult_iff)

lemma scaled_norm:
  fixes px py k :: real
  assumes "0 \<le> k"
  shows "sqrt (px * k * (px * k) + py * k * (py * k)) = k * sqrt (px * px + py * py)"
proof -
  have "px * k * (px * k) + py * k * (py * k) = (k * k) * (px * px + py * py)"
    by (simp add: algebra_simps)
  then show ?thesis using assms by (simp add: real_sqrt_mult)
qed




subsection \<open>The wall block on finite states\<close>

lemma wall_position:
  assumes "ball_x s = Fin px" "ball_y s = Fin py" "ball_radius s = Fin r" "drumRadius s = Fin R"
    and "R < sqrt (px * px + py * py) + r" and "0 < sqrt (px * px + py * py)"
  shows "ball_x (handleWall s) = Fin (px * ((R - r) / sqrt (px * px + py * py)))"
    and "ball_y (handleWall s) = Fin (py * ((R - r) / sqrt (px * px + py * py)))"
proof -
  define d where "d = sqrt (px * px + py * py)"
  have nn: "\<not> px * px + py * py < 0" by (simp add: not_less)
  have dpos: "0 < d" using assms(6) by (simp only: d_def)
  have d0: "d \<noteq> 0" using dpos by simp
  have ex: "px + - px / d * (d + r - R) = px * ((R - r) / d)"
    using d0 by (simp add: field_simps)
  have ey: "py + - py / d * (d + r - R) = py * ((R - r) / d)"
    using d0 by (simp add: field_simps)
  show "ball_x (handleWall s) = Fin (px * ((R - r) / sqrt (px * px + py * py)))"
    using assms nn d0 ex
    by (simp add: handleWall_def wallTest_def ballDist_def Let_def jgt_def jsub_def
        d_def [symmetric] split: option.split)
  show "ball_y (handleWall s) = Fin (py * ((R - r) / sqrt (px * px + py * py)))"
    using assms nn d0 ey
    by (simp add: handleWall_def wallTest_def ballDist_def Let_def jgt_def jsub_def
        d_def [symmetric] split: option.split)
qed

lemma wall_idle:
  assumes "ball_x s = Fin px" "ball_y s = Fin py" "ball_radius s = Fin r" "drumRadius s = Fin R"
    and "\<not> R < sqrt (px * px + py * py) + r"
  shows "handleWall s = s"
proof -
  have nn: "\<not> px * px + py * py < 0" by (simp add: not_less)
  show ?thesis using assms nn
    by (simp add: handleWall_def wallTest_def ballDist_def Let_def jgt_def)
qed

lemma fold_idle: "(\<forall>i<n. f i s = s) \<Longrightarrow> fold f [0..<n] s = s"
  by (induction n) simp_all

subsection \<open>Example states evaluated\<close>

lemma vaneImpactExample_fields:
  "ball_x vaneImpactExample = Fin (7 / 10)" "ball_y vaneImpactExample = Fin (1 / 100)"
  "ball_vx vaneImpactExample = Fin 0" "ball_vy vaneImpactExample = Fin (- 1)"
  "ball_radius vaneImpactExample = Fin (7 / 200)"
  "ball_restitution vaneImpactExample = Fin (3 / 4)"
  "drumRadius vaneImpactExample = Fin (4 / 5)" "vaneCount vaneImpactExample = Fin 1"
  "vaneHeight vaneImpactExample = Fin (3 / 10)"
  by (simp_all add: vaneImpactExample_def initialFields_def)

lemma vaneImpactExample_frame:
  "vaneFrame (Fin (14 / 25)) 0 vaneImpactExample =
     (Fin (14 / 25), Fin 0, Fin (7 / 50), Fin (1 / 100), Fin (6 / 25), Fin 0, Fin (6 / 25))"
  by (simp add: vaneFrame_def Let_def jsub_def vaneImpactExample_fields sqrt_36_625)

lemma vaneImpactExample_projection:
  "vaneProjection (Fin (14 / 25)) 0 vaneImpactExample = Fin (7 / 12)"
  by (simp add: vaneProjection_def vaneImpactExample_frame)

lemma vaneImpactExample_offset:
  "vaneOffset (Fin (14 / 25)) 0 vaneImpactExample = (Fin 0, Fin (1 / 100), Fin (1 / 100))"
  by (simp add: vaneOffset_def vaneImpactExample_frame vaneImpactExample_projection Let_def
      jsub_def vaneImpactExample_fields sqrt_1_10000)

subsection \<open>The geometry of one vane\<close>

lemma jsqrt_sum_squares: "jsqrt (Fin (a * a + b * b)) = Fin (sqrt (a * a + b * b))"
  by (simp add: not_less)

lemma vaneFrame_finite:
  assumes "ball_x s = Fin px" and "ball_y s = Fin py" and "drumRadius s = Fin R"
    and "vaneCount s = Fin n" and "n \<noteq> 0" and "th = real i / n * 2 * pi"
  shows "vaneFrame (Fin ri) i s =
     (Fin (ri * cos th), Fin (ri * sin th), Fin (px - ri * cos th), Fin (py - ri * sin th),
      Fin (R * cos th - ri * cos th), Fin (R * sin th - ri * sin th),
      Fin (sqrt ((R * cos th - ri * cos th) * (R * cos th - ri * cos th) +
                 (R * sin th - ri * sin th) * (R * sin th - ri * sin th))))"
  unfolding vaneFrame_def Let_def jsub_def assms(1-4,6)
  using assms(5)
  by (simp only: jdiv.simps jmul.simps jcos.simps jsin.simps jneg.simps jadd.simps
      jsqrt_sum_squares if_False add_uminus_conv_diff)

lemma jsub_Fin [simp]: "jsub (Fin a) (Fin b) = Fin (a - b)"
  by (simp add: jsub_def)

lemma vane_length_closed:
  fixes R ri c s :: real
  assumes "c * c + s * s = 1" and "ri < R"
  shows "sqrt ((R * c - ri * c) * (R * c - ri * c) + (R * s - ri * s) * (R * s - ri * s)) = R - ri"
proof -
  have "(R * c - ri * c) * (R * c - ri * c) + (R * s - ri * s) * (R * s - ri * s)
      = (R - ri) * (R - ri) * (c * c + s * s)"
    by (simp add: algebra_simps)
  also have "\<dots> = (R - ri) * (R - ri)" by (simp only: assms(1) mult_1_right)
  finally show ?thesis using assms(2) by simp
qed

lemma vane_projection_closed:
  fixes R ri c s px py :: real
  assumes "c * c + s * s = 1" and "ri < R"
  shows "((px - ri * c) * (R * c - ri * c) + (py - ri * s) * (R * s - ri * s)) /
         ((R - ri) * (R - ri)) = (px * c + py * s - ri) / (R - ri)"
proof -
  have "(px - ri * c) * (R * c - ri * c) + (py - ri * s) * (R * s - ri * s)
      = (R - ri) * (px * c + py * s - ri * (c * c + s * s))"
    by (simp add: algebra_simps)
  also have "\<dots> = (R - ri) * (px * c + py * s - ri)" by (simp only: assms(1) mult_1_right)
  finally show ?thesis using assms(2) by simp
qed

lemma vane_offset_closed:
  fixes R ri c s px py a b :: real
  assumes "c * c + s * s = 1" and "ri < R" and "a = px * c + py * s" and "b = py * c - px * s"
  shows "px - (ri * c + (a - ri) / (R - ri) * (R * c - ri * c)) = - (b * s)"
    and "py - (ri * s + (a - ri) / (R - ri) * (R * s - ri * s)) = b * c"
proof -
  have k: "(a - ri) / (R - ri) * (R * c - ri * c) = (a - ri) * c"
    "(a - ri) / (R - ri) * (R * s - ri * s) = (a - ri) * s"
    using assms(2) by (simp_all add: field_simps)
  have "px - a * c = px * (c * c + s * s) - a * c" by (simp only: assms(1) mult_1_right)
  also have "\<dots> = - (b * s)" by (simp add: assms(3,4) algebra_simps)
  finally have x: "px - a * c = - (b * s)" .
  have "py - a * s = py * (c * c + s * s) - a * s" by (simp only: assms(1) mult_1_right)
  also have "\<dots> = b * c" by (simp add: assms(3,4) algebra_simps)
  finally have y: "py - a * s = b * c" .
  have "px - (ri * c + (a - ri) / (R - ri) * (R * c - ri * c)) = px - (ri * c + (a - ri) * c)"
    by (simp only: k)
  also have "\<dots> = px - a * c" by (simp add: algebra_simps)
  finally show "px - (ri * c + (a - ri) / (R - ri) * (R * c - ri * c)) = - (b * s)"
    by (simp only: x)
  have "py - (ri * s + (a - ri) / (R - ri) * (R * s - ri * s)) = py - (ri * s + (a - ri) * s)"
    by (simp only: k)
  also have "\<dots> = py - a * s" by (simp add: algebra_simps)
  finally show "py - (ri * s + (a - ri) / (R - ri) * (R * s - ri * s)) = b * c"
    by (simp only: y)
qed

lemma across_norm:
  fixes b c s :: real
  assumes "c * c + s * s = 1"
  shows "sqrt (- (b * s) * - (b * s) + b * c * (b * c)) = \<bar>b\<bar>"
proof -
  have "- (b * s) * - (b * s) + b * c * (b * c) = b * b * (c * c + s * s)"
    by (simp add: algebra_simps)
  also have "\<dots> = b * b" by (simp only: assms mult_1_right)
  finally show ?thesis by simp
qed

lemma vaneProjection_finite:
  assumes "ball_x s = Fin px" and "ball_y s = Fin py" and "drumRadius s = Fin R"
    and "vaneCount s = Fin n" and "n \<noteq> 0" and "th = real i / n * 2 * pi"
    and "ri < R" and "a = px * cos th + py * sin th"
  shows "vaneFrame (Fin ri) i s =
     (Fin (ri * cos th), Fin (ri * sin th), Fin (px - ri * cos th), Fin (py - ri * sin th),
      Fin (R * cos th - ri * cos th), Fin (R * sin th - ri * sin th), Fin (R - ri))"
    and "vaneProjection (Fin ri) i s = Fin ((a - ri) / (R - ri))"
proof -
  have trig: "cos th * cos th + sin th * sin th = 1" by (rule sin_cos_squared_add3)
  show F: "vaneFrame (Fin ri) i s =
     (Fin (ri * cos th), Fin (ri * sin th), Fin (px - ri * cos th), Fin (py - ri * sin th),
      Fin (R * cos th - ri * cos th), Fin (R * sin th - ri * sin th), Fin (R - ri))"
    using vaneFrame_finite [OF assms(1-6), of ri]
    by (simp only: vane_length_closed [OF trig assms(7)])
  have nz: "((R - ri) * (R - ri) = 0) = False" using assms(7) by simp
  show "vaneProjection (Fin ri) i s = Fin ((a - ri) / (R - ri))"
    unfolding vaneProjection_def F
    by (simp only: prod.case jmul.simps jadd.simps jdiv.simps nz if_False
        vane_projection_closed [OF trig assms(7)] assms(8))
qed

lemma vaneOffset_finite:
  assumes "ball_x s = Fin px" and "ball_y s = Fin py" and "drumRadius s = Fin R"
    and "vaneCount s = Fin n" and "n \<noteq> 0" and "th = real i / n * 2 * pi"
    and "ri < R" and "a = px * cos th + py * sin th" and "b = py * cos th - px * sin th"
  shows "vaneOffset (Fin ri) i s = (Fin (- (b * sin th)), Fin (b * cos th), Fin \<bar>b\<bar>)"
proof -
  have trig: "cos th * cos th + sin th * sin th = 1" by (rule sin_cos_squared_add3)
  note F = vaneProjection_finite(1) [OF assms(1-8)]
  note P = vaneProjection_finite(2) [OF assms(1-8)]
  show ?thesis
    unfolding vaneOffset_def F P Let_def assms(1,2)
    by (simp only: prod.case jmul.simps jadd.simps jsub_Fin
        vane_offset_closed [OF trig assms(7,8,9)] jsqrt_sum_squares across_norm [OF trig])
qed

lemma checkVane_miss:
  assumes "vaneProjection vir i s = Fin t" and "vaneOffset vir i s = (dX, dY, Fin dd)"
    and "ball_radius s = Fin r" and "\<not> (0 \<le> t \<and> t \<le> 1 \<and> dd < r)"
  shows "checkVane vir i s = s"
proof -
  obtain vx1 vy1 dx dy vdx vdy vaneLength
    where f: "vaneFrame vir i s = (vx1, vy1, dx, dy, vdx, vdy, vaneLength)"
    by (cases "vaneFrame vir i s") auto
  from assms f show ?thesis by (auto simp add: checkVane_def Let_def jge_def)
qed

lemma checkVane_hit:
  assumes "vaneProjection vir i s = Fin t" and "0 \<le> t" and "t \<le> 1"
    and "vaneOffset vir i s = (dX, dY, Fin dd)" and "ball_radius s = Fin r" and "dd < r"
  shows "ball_x (checkVane vir i s) = jadd (ball_x s) (jmul (jdiv dX (Fin dd)) (Fin (r - dd)))"
    and "ball_y (checkVane vir i s) = jadd (ball_y s) (jmul (jdiv dY (Fin dd)) (Fin (r - dd)))"
proof -
  obtain vx1 vy1 dx dy vdx vdy vaneLength
    where f: "vaneFrame vir i s = (vx1, vy1, dx, dy, vdx, vdy, vaneLength)"
    by (cases "vaneFrame vir i s") auto
  from assms f
  show "ball_x (checkVane vir i s) = jadd (ball_x s) (jmul (jdiv dX (Fin dd)) (Fin (r - dd)))"
    by (simp add: checkVane_def Let_def jge_def split: option.split)
  from assms f
  show "ball_y (checkVane vir i s) = jadd (ball_y s) (jmul (jdiv dY (Fin dd)) (Fin (r - dd)))"
    by (simp add: checkVane_def Let_def jge_def split: option.split)
qed

lemma push_moves:
  fixes b c s r px :: real
  assumes "c * c + s * s = 1" and "\<bar>b\<bar> < r"
  shows "jadd (Fin px) (jmul (jdiv (Fin (- (b * s))) (Fin \<bar>b\<bar>)) (Fin (r - \<bar>b\<bar>))) \<noteq> Fin px \<or>
         jadd (Fin py) (jmul (jdiv (Fin (b * c)) (Fin \<bar>b\<bar>)) (Fin (r - \<bar>b\<bar>))) \<noteq> Fin py"
proof (cases "b = 0")
  case True
  then show ?thesis by simp
next
  case False
  have cs: "c \<noteq> 0 \<or> s \<noteq> 0" using assms(1) by auto
  have "r - \<bar>b\<bar> \<noteq> 0" using assms(2) by simp
  with False cs show ?thesis by auto
qed

subsection \<open>Vane collision detection\<close>

text \<open>
  C3 (as amended). For the vane \<open>i\<close> at angle \<open>\<theta>\<close>, from radius \<open>ri\<close> to the drum radius
  \<open>R\<close>, and a ball at \<open>(px, py)\<close>: the projection parameter is
  \<open>t = (a - ri) / (R - ri)\<close>, where \<open>a\<close> is the coordinate of the ball along the vane,
  and it is not clamped; the distance to the projected point is \<open>\<bar>b\<bar>\<close>, where \<open>b\<close> is
  the coordinate of the ball across the vane. The ball is moved exactly when
  \<open>ri \<le> a \<le> R\<close> (that is \<open>0 \<le> t \<le> 1\<close>) and \<open>\<bar>b\<bar> < ballRadius\<close>. In every other case
  the round leaves the state as it is: a ball whose projection falls beyond an end of
  the vane never collides, however near that end it is.
\<close>

theorem vane_collision_unclamped:
  assumes "ball_x s = Fin px" and "ball_y s = Fin py"
    and "ball_radius s = Fin r" and "drumRadius s = Fin R"
    and "vaneCount s = Fin n" and "n \<noteq> 0" and "ri < R"
    and "th = real i / n * 2 * pi"
    and "a = px * cos th + py * sin th" and "b = py * cos th - px * sin th"
  shows "vaneProjection (Fin ri) i s = Fin ((a - ri) / (R - ri)) \<and>
         vaneOffset (Fin ri) i s = (Fin (- (b * sin th)), Fin (b * cos th), Fin \<bar>b\<bar>) \<and>
         (if ri \<le> a \<and> a \<le> R \<and> \<bar>b\<bar> < r
          then ball_x (checkVane (Fin ri) i s) \<noteq> ball_x s \<or>
               ball_y (checkVane (Fin ri) i s) \<noteq> ball_y s
          else checkVane (Fin ri) i s = s)"
proof -
  have trig: "cos th * cos th + sin th * sin th = 1" by (rule sin_cos_squared_add3)
  note P = vaneProjection_finite(2) [OF assms(1,2,4,5,6,8,7,9)]
  note Q = vaneOffset_finite [OF assms(1,2,4,5,6,8,7,9,10)]
  have t: "(0 \<le> (a - ri) / (R - ri) \<and> (a - ri) / (R - ri) \<le> 1) = (ri \<le> a \<and> a \<le> R)"
    using assms(7) by (simp add: field_simps)
  have "if ri \<le> a \<and> a \<le> R \<and> \<bar>b\<bar> < r
        then ball_x (checkVane (Fin ri) i s) \<noteq> ball_x s \<or>
             ball_y (checkVane (Fin ri) i s) \<noteq> ball_y s
        else checkVane (Fin ri) i s = s"
  proof (cases "ri \<le> a \<and> a \<le> R \<and> \<bar>b\<bar> < r")
    case True
    then have h: "0 \<le> (a - ri) / (R - ri)" "(a - ri) / (R - ri) \<le> 1" "\<bar>b\<bar> < r"
      using t by blast+
    from checkVane_hit [OF P h(1,2) Q assms(3) h(3)] push_moves [OF trig h(3), of px py]
    have "ball_x (checkVane (Fin ri) i s) \<noteq> ball_x s \<or>
          ball_y (checkVane (Fin ri) i s) \<noteq> ball_y s"
      by (simp only: assms(1,2))
    with True show ?thesis by simp
  next
    case False
    then have "\<not> (0 \<le> (a - ri) / (R - ri) \<and> (a - ri) / (R - ri) \<le> 1 \<and> \<bar>b\<bar> < r)"
      using t by blast
    from checkVane_miss [OF P Q assms(3) this] False show ?thesis by simp
  qed
  with P Q show ?thesis by simp
qed

lemma vaneEndExample_fields:
  "ball_x vaneEndExample = Fin (11 / 20)" "ball_y vaneEndExample = Fin (1 / 100)"
  "ball_radius vaneEndExample = Fin (7 / 200)" "drumRadius vaneEndExample = Fin (4 / 5)"
  "vaneCount vaneEndExample = Fin 1" "vaneHeight vaneEndExample = Fin (3 / 10)"
  by (simp_all add: vaneEndExample_def initialFields_def)

theorem vane_collision_unclamped_witness:
  "vaneProjection (Fin (14 / 25)) 0 vaneImpactExample = Fin (7 / 12) \<and>
   (14 / 25 :: real) \<le> 7 / 10 \<and> (7 / 10 :: real) \<le> 4 / 5 \<and> \<bar>1 / 100 :: real\<bar> < 7 / 200 \<and>
   (ball_x (checkVane (Fin (14 / 25)) 0 vaneImpactExample),
    ball_y (checkVane (Fin (14 / 25)) 0 vaneImpactExample)) \<noteq>
     (ball_x vaneImpactExample, ball_y vaneImpactExample) \<and>
   vaneProjection (Fin (14 / 25)) 0 vaneEndExample = Fin (- (1 / 24)) \<and>
   checkVane (Fin (14 / 25)) 0 vaneEndExample = vaneEndExample"
proof -
  have n: "(1 :: real) \<noteq> 0" "(14 / 25 :: real) < 4 / 5" "(0 :: real) = real 0 / 1 * 2 * pi"
    by simp_all
  have h: "(7 / 10 :: real) = 7 / 10 * cos 0 + 1 / 100 * sin 0"
    "(1 / 100 :: real) = 1 / 100 * cos 0 - 7 / 10 * sin 0"
    by simp_all
  have m: "(11 / 20 :: real) = 11 / 20 * cos 0 + 1 / 100 * sin 0"
    "(1 / 100 :: real) = 1 / 100 * cos 0 - 11 / 20 * sin 0"
    by simp_all
  from vane_collision_unclamped [OF vaneImpactExample_fields(1,2,5,7,8) n h]
  have hit: "vaneProjection (Fin (14 / 25)) 0 vaneImpactExample = Fin (7 / 12) \<and>
    (ball_x (checkVane (Fin (14 / 25)) 0 vaneImpactExample) \<noteq> ball_x vaneImpactExample \<or>
     ball_y (checkVane (Fin (14 / 25)) 0 vaneImpactExample) \<noteq> ball_y vaneImpactExample)"
    by simp
  from vane_collision_unclamped [OF vaneEndExample_fields(1,2,3,4,5) n m]
  have miss: "vaneProjection (Fin (14 / 25)) 0 vaneEndExample = Fin (- (1 / 24)) \<and>
    checkVane (Fin (14 / 25)) 0 vaneEndExample = vaneEndExample"
    by simp
  from hit miss show ?thesis by auto
qed

text \<open>
  As the specification words it, the property fails at the inner end of a vane. The ball
  at \<open>(0.55, 0.01)\<close> projects to \<open>t = -1/24\<close>; the closest point of the segment is its inner end, at a
  distance below the ball radius, yet \<open>handleCollisions\<close> returns the state unchanged.
\<close>

theorem endpoint_overlap_not_resolved:
  "vaneProjection (Fin 0.56) 0 vaneEndExample = Fin (- (1 / 24)) \<and>
   jlt (clampedVaneDistance (Fin 0.56) 0 vaneEndExample) (ball_radius vaneEndExample) \<and>
   handleCollisions vaneEndExample = Some vaneEndExample"
proof -
  have n: "(1 :: real) \<noteq> 0" "(0 :: real) = real 0 / 1 * 2 * pi" "(14 / 25 :: real) < 4 / 5"
    "(11 / 20 :: real) = 11 / 20 * cos 0 + 1 / 100 * sin 0"
    by simp_all
  note F = vaneProjection_finite(1) [OF vaneEndExample_fields(1,2,4,5) n]
  note P = vaneProjection_finite(2) [OF vaneEndExample_fields(1,2,4,5) n]
  have p: "vaneProjection (Fin (14 / 25)) 0 vaneEndExample = Fin (- (1 / 24))"
    using P by simp
  have "sqrt (1 / 5000) < (7 / 200 :: real)"
    by (rule real_less_lsqrt) (simp_all add: power2_eq_square)
  then have c: "jlt (clampedVaneDistance (Fin (14 / 25)) 0 vaneEndExample)
      (ball_radius vaneEndExample)"
    using F by (simp add: clampedVaneDistance_def p Let_def vaneEndExample_fields)
  have "sqrt (11 / 20 * (11 / 20) + 1 / 100 * (1 / 100)) \<le> (153 / 200 :: real)"
    by (rule real_le_lsqrt) (simp_all add: power2_eq_square)
  then have "\<not> (4 / 5 :: real) < sqrt (11 / 20 * (11 / 20) + 1 / 100 * (1 / 100)) + 7 / 200"
    by linarith
  with vaneEndExample_fields(1-4) have w: "handleWall vaneEndExample = vaneEndExample"
    by (rule wall_idle)
  have v: "checkVane (Fin (14 / 25)) 0 vaneEndExample = vaneEndExample"
    using F by (simp add: checkVane_def p jge_def)
  have h: "handleCollisions vaneEndExample = Some vaneEndExample"
    by (simp add: handleCollisions_def checkVaneCollisions_def w vaneEndExample_fields v)
  from p c h show ?thesis by simp
qed

subsection \<open>Surface ids\<close>

lemma digit_char_inj:
  assumes "a < 10" and "b < 10" and "digit_char a = digit_char b"
  shows "a = b"
proof -
  from assms(3) have "of_char (digit_char a) = (of_char (digit_char b) :: nat)" by simp
  then have "(48 + a) mod 256 = (48 + b) mod 256" by (simp add: digit_char_def)
  with assms(1,2) show ?thesis by simp
qed

lemma numToString_nonempty: "numToString n \<noteq> []"
  by (subst numToString.simps) simp

lemma numToString_inj: "numToString m = numToString n \<Longrightarrow> m = n"
proof (induction m arbitrary: n rule: numToString.induct)
  case (1 m)
  show ?case
  proof (cases "m < 10")
    case True
    then have m: "numToString m = [digit_char m]" by (subst numToString.simps) simp
    show ?thesis
    proof (cases "n < 10")
      case True
      then have "numToString n = [digit_char n]" by (subst numToString.simps) simp
      with m "1.prems" \<open>m < 10\<close> True show ?thesis by (simp add: digit_char_inj)
    next
      case False
      then have "numToString n = numToString (n div 10) @ [digit_char (n mod 10)]"
        by (subst numToString.simps) simp
      with m "1.prems" numToString_nonempty [of "n div 10"] show ?thesis by simp
    qed
  next
    case False
    then have m: "numToString m = numToString (m div 10) @ [digit_char (m mod 10)]"
      by (subst numToString.simps) simp
    show ?thesis
    proof (cases "n < 10")
      case True
      then have "numToString n = [digit_char n]" by (subst numToString.simps) simp
      with m "1.prems" numToString_nonempty [of "m div 10"] show ?thesis by simp
    next
      case nf: False
      then have "numToString n = numToString (n div 10) @ [digit_char (n mod 10)]"
        by (subst numToString.simps) simp
      with m "1.prems" have e: "numToString (m div 10) = numToString (n div 10)"
        and d: "digit_char (m mod 10) = digit_char (n mod 10)" by simp_all
      from "1.IH" [OF False e] have q: "m div 10 = n div 10" .
      from d have r: "m mod 10 = n mod 10" by (simp add: digit_char_inj)
      from q r show ?thesis by (metis div_mult_mod_eq)
    qed
  qed
qed

lemma surface_ids_differ:
  "sid (drumSurface i) \<noteq> sid (leadSurface j)"
  "sid (drumSurface i) \<noteq> sid (trailSurface j)"
  "sid (leadSurface i) \<noteq> sid (trailSurface j)"
proof -
  show "sid (drumSurface i) \<noteq> sid (leadSurface j)"
    by (simp add: drumSurface_def leadSurface_def)
  show "sid (drumSurface i) \<noteq> sid (trailSurface j)"
    by (simp add: drumSurface_def trailSurface_def)
  have "last (numToString i @ ''_lead'') \<noteq> last (numToString j @ ''_trail'')" by simp
  then have "numToString i @ ''_lead'' \<noteq> numToString j @ ''_trail''" by metis
  then show "sid (leadSurface i) \<noteq> sid (trailSurface j)"
    by (simp add: leadSurface_def trailSurface_def)
qed

lemma surface_ids_inj:
  "sid (drumSurface i) = sid (drumSurface j) \<longleftrightarrow> i = j"
  "sid (leadSurface i) = sid (leadSurface j) \<longleftrightarrow> i = j"
  "sid (trailSurface i) = sid (trailSurface j) \<longleftrightarrow> i = j"
  by (auto simp add: drumSurface_def leadSurface_def trailSurface_def dest: numToString_inj)

lemma fold_pushSurfaces:
  "fold pushSurfaces [0..<k] [] =
     concat (map (\<lambda>i. [drumSurface i, leadSurface i, trailSurface i]) [0..<k])"
  by (induction k) (simp_all add: pushSurfaces_def)

lemma surface_id_set:
  "set (map sid (concat (map (\<lambda>i. [drumSurface i, leadSurface i, trailSurface i]) [0..<k]))) =
     (\<Union>i\<in>{..<k}. {sid (drumSurface i), sid (leadSurface i), sid (trailSurface i)})"
  by (induction k) (auto simp add: less_Suc_eq)

lemma surface_ids_distinct:
  "distinct (map sid (concat (map (\<lambda>i. [drumSurface i, leadSurface i, trailSurface i]) [0..<k])))"
proof (induction k)
  case 0
  show ?case by simp
next
  case (Suc k)
  have new: "distinct [sid (drumSurface k), sid (leadSurface k), sid (trailSurface k)]"
    using surface_ids_differ [of k k] by simp
  have apart: "set (map sid (concat (map (\<lambda>i. [drumSurface i, leadSurface i, trailSurface i])
        [0..<k]))) \<inter> {sid (drumSurface k), sid (leadSurface k), sid (trailSurface k)} = {}"
    unfolding surface_id_set
    using surface_ids_differ surface_ids_differ [symmetric]
    by (auto simp add: surface_ids_inj)
  from Suc new apart show ?case by simp
qed

lemma updateSurfaces_nat:
  assumes "vaneCount s = Fin (real k)"
  shows "updateSurfaces s =
     Some (s\<lparr>surfaces := concat (map (\<lambda>i. [drumSurface i, leadSurface i, trailSurface i])
       [0..<k])\<rparr>)"
  using assms by (simp add: updateSurfaces_def fold_pushSurfaces)

lemma length_triples: "length (concat (map (\<lambda>i. [f i, g i, h i]) [0..<k])) = 3 * k"
  by (induction k) simp_all

subsection \<open>Surface regeneration\<close>

lemma nth_triples:
  "i < k \<Longrightarrow>
     concat (map (\<lambda>i. [f i, g i, h i]) [0..<k]) ! (3 * i) = f i \<and>
     concat (map (\<lambda>i. [f i, g i, h i]) [0..<k]) ! (3 * i + 1) = g i \<and>
     concat (map (\<lambda>i. [f i, g i, h i]) [0..<k]) ! (3 * i + 2) = h i"
proof (induction k)
  case 0
  then show ?case by simp
next
  case (Suc k)
  show ?case
  proof (cases "i < k")
    case True
    then have "3 * i + 2 < 3 * k" by simp
    with Suc.IH [OF True] show ?thesis
      by (simp add: nth_append length_triples)
  next
    case False
    with Suc.prems have "i = k" by simp
    then show ?thesis by (simp add: nth_append length_triples)
  qed
qed

lemma regenerated_surfaces:
  assumes "updateSurfaces u = Some s'" and "vaneCount u = Fin (real k)"
  shows "length (surfaces s') = 3 * k \<and>
      jseq (Fin (real (length (surfaces s')))) (jmul (Fin 3) (vaneCount s')) \<and>
      (\<forall>i<k.
         surfaces s' ! (3 * i) =
           \<lparr>stype = Drum, sid = ''drum_'' @ numToString i, sindex = i,
            scolor = colors ! ((2 * i) mod 12)\<rparr> \<and>
         surfaces s' ! (3 * i + 1) =
           \<lparr>stype = VaneLeading, sid = ''vane_'' @ numToString i @ ''_lead'', sindex = i,
            scolor = colors ! ((2 * i + 1) mod 12)\<rparr> \<and>
         surfaces s' ! (3 * i + 2) =
           \<lparr>stype = VaneTrailing, sid = ''vane_'' @ numToString i @ ''_trail'', sindex = i,
            scolor = colors ! ((2 * i + 1) mod 12)\<rparr>) \<and>
      distinct (map sid (surfaces s'))"
proof -
  have len: "length colors = 12" by (simp add: colors_def)
  from assms have s': "s' = u\<lparr>surfaces :=
      concat (map (\<lambda>i. [drumSurface i, leadSurface i, trailSurface i]) [0..<k])\<rparr>"
    by (simp add: updateSurfaces_nat [OF assms(2)])
  have n: "\<forall>i<k.
         surfaces s' ! (3 * i) = drumSurface i \<and>
         surfaces s' ! (3 * i + 1) = leadSurface i \<and>
         surfaces s' ! (3 * i + 2) = trailSurface i"
    using nth_triples [of _ k drumSurface leadSurface trailSurface] by (simp add: s')
  have d: "drumSurface i = \<lparr>stype = Drum, sid = ''drum_'' @ numToString i, sindex = i,
            scolor = colors ! ((2 * i) mod 12)\<rparr>" for i
    by (simp add: drumSurface_def getSurfaceColor_def len mult.commute)
  have l: "leadSurface i = \<lparr>stype = VaneLeading, sid = ''vane_'' @ numToString i @ ''_lead'',
            sindex = i, scolor = colors ! ((2 * i + 1) mod 12)\<rparr>" for i
    by (simp add: leadSurface_def getSurfaceColor_def len mult.commute)
  have t: "trailSurface i = \<lparr>stype = VaneTrailing, sid = ''vane_'' @ numToString i @ ''_trail'',
            sindex = i, scolor = colors ! ((2 * i + 1) mod 12)\<rparr>" for i
    by (simp add: trailSurface_def getSurfaceColor_def len mult.commute)
  have a: "length (surfaces s') = 3 * k" by (simp add: s' length_triples)
  have b: "jseq (Fin (real (length (surfaces s')))) (jmul (Fin 3) (vaneCount s'))"
    by (simp add: a) (simp add: s' assms(2) jseq_def)
  have c: "distinct (map sid (surfaces s'))" by (simp add: s' surface_ids_distinct)
  from n show ?thesis unfolding d l t using a b c by blast
qed

text \<open>
  C9 (as amended). \<open>updateSurfaces\<close> on a state whose vane count is the natural number
  \<open>k\<close>, and \<open>setParameters\<close> with a vane count \<open>v \<ge> 0\<close> (then \<open>k = \<lfloor>v\<rfloor>\<close>), leave
  \<open>3 * k = 3 * vaneCount\<close> surfaces, \<open>3 * k\<close> being within the length \<open>2\<^sup>3\<^sup>2 - 1\<close> that an
  array can have: for each index \<open>i\<close> below \<open>k\<close>, at the positions \<open>3 * i\<close>, \<open>3 * i + 1\<close>
  and \<open>3 * i + 2\<close>, the drum segment \<open>drum_i\<close>, the leading face \<open>vane_i_lead\<close> and the
  trailing face \<open>vane_i_trail\<close>, each with the index \<open>i\<close> and its colour; the ids are
  pairwise distinct. With a vane count that is negative or \<open>NaN\<close>, \<open>setParameters\<close>
  leaves no surface, which is not \<open>3 * vaneCount\<close>.
\<close>

theorem surfaces_regenerated:
  assumes "vaneCount s = Fin (real k)" and "3 * k < 2 ^ 32"
    and "0 \<le> v" and "3 * nat \<lfloor>v\<rfloor> < 2 ^ 32"
    and "\<not> jge w (Fin 0)"
  shows "(\<exists>s'. updateSurfaces s = Some s' \<and>
            length (surfaces s') = 3 * k \<and>
            jseq (Fin (real (length (surfaces s')))) (jmul (Fin 3) (vaneCount s')) \<and>
            (\<forall>i<k.
               surfaces s' ! (3 * i) =
                 \<lparr>stype = Drum, sid = ''drum_'' @ numToString i, sindex = i,
                  scolor = colors ! ((2 * i) mod 12)\<rparr> \<and>
               surfaces s' ! (3 * i + 1) =
                 \<lparr>stype = VaneLeading, sid = ''vane_'' @ numToString i @ ''_lead'', sindex = i,
                  scolor = colors ! ((2 * i + 1) mod 12)\<rparr> \<and>
               surfaces s' ! (3 * i + 2) =
                 \<lparr>stype = VaneTrailing, sid = ''vane_'' @ numToString i @ ''_trail'', sindex = i,
                  scolor = colors ! ((2 * i + 1) mod 12)\<rparr>) \<and>
            distinct (map sid (surfaces s'))) \<and>
         (\<exists>s'. setParameters rpm' drumSizeCm (Fin v) vaneHeightPercent t = Some s' \<and>
            vaneCount s' = Fin (real (nat \<lfloor>v\<rfloor>)) \<and>
            length (surfaces s') = 3 * nat \<lfloor>v\<rfloor> \<and>
            jseq (Fin (real (length (surfaces s')))) (jmul (Fin 3) (vaneCount s')) \<and>
            (\<forall>i<nat \<lfloor>v\<rfloor>.
               surfaces s' ! (3 * i) =
                 \<lparr>stype = Drum, sid = ''drum_'' @ numToString i, sindex = i,
                  scolor = colors ! ((2 * i) mod 12)\<rparr> \<and>
               surfaces s' ! (3 * i + 1) =
                 \<lparr>stype = VaneLeading, sid = ''vane_'' @ numToString i @ ''_lead'', sindex = i,
                  scolor = colors ! ((2 * i + 1) mod 12)\<rparr> \<and>
               surfaces s' ! (3 * i + 2) =
                 \<lparr>stype = VaneTrailing, sid = ''vane_'' @ numToString i @ ''_trail'', sindex = i,
                  scolor = colors ! ((2 * i + 1) mod 12)\<rparr>) \<and>
            distinct (map sid (surfaces s'))) \<and>
         (\<exists>s'. setParameters rpm' drumSizeCm w vaneHeightPercent t = Some s' \<and>
            surfaces s' = [] \<and>
            \<not> jseq (Fin (real (length (surfaces s')))) (jmul (Fin 3) (vaneCount s')))"
proof -
  obtain s1 where s1: "updateSurfaces s = Some s1"
    by (simp add: updateSurfaces_nat [OF assms(1)])
  note a = regenerated_surfaces [OF s1 assms(1)]
  define u where "u = t\<lparr>rpm := rpm', drumRadius := jdiv drumSizeCm (Fin 100),
      vaneCount := jfloor (Fin v), vaneHeight := jdiv vaneHeightPercent (Fin 100),
      drumAngularVelocity := jdiv (jmul (jmul rpm' (Fin 2)) (Fin pi)) (Fin 60)\<rparr>"
  have fl: "real_of_int \<lfloor>v\<rfloor> = real (nat \<lfloor>v\<rfloor>)" using assms(3) by simp
  have vc: "vaneCount u = Fin (real (nat \<lfloor>v\<rfloor>))" by (simp add: u_def fl)
  have sp: "setParameters rpm' drumSizeCm (Fin v) vaneHeightPercent t = updateSurfaces u"
    by (simp add: setParameters_def u_def)
  obtain s2 where s2: "updateSurfaces u = Some s2"
    by (simp add: updateSurfaces_nat [OF vc])
  have vc2: "vaneCount s2 = Fin (real (nat \<lfloor>v\<rfloor>))"
    using s2 vc by (auto simp add: updateSurfaces_nat [OF vc])
  note b = regenerated_surfaces [OF s2 vc]
  have lc: "loopCount (jfloor w) = Some 0"
  proof (cases w)
    case (Fin a)
    with assms(5) have "a < 0" by (simp add: jge_def)
    then have "\<lfloor>a\<rfloor> \<le> 0" by linarith
    then have "nat \<lceil>real_of_int \<lfloor>a\<rfloor>\<rceil> = 0" by (simp only: ceiling_of_int)
    then show ?thesis by (simp only: Fin jfloor.simps loopCount.simps)
  qed (use assms(5) in \<open>simp_all add: jge_def\<close>)
  have ne: "jmul (Fin 3) (jfloor w) \<noteq> Fin 0"
  proof (cases w)
    case (Fin a)
    with assms(5) have "a < 0" by (simp add: jge_def)
    then have "\<lfloor>a\<rfloor> < 0" by linarith
    then have "real_of_int \<lfloor>a\<rfloor> < 0" by (simp only: of_int_less_0_iff)
    then have "3 * real_of_int \<lfloor>a\<rfloor> \<noteq> 0" by linarith
    then show ?thesis by (simp only: Fin jfloor.simps jmul.simps jsnum.inject) simp
  qed simp_all
  have c: "\<exists>s'. setParameters rpm' drumSizeCm w vaneHeightPercent t = Some s' \<and>
            surfaces s' = [] \<and>
            \<not> jseq (Fin (real (length (surfaces s')))) (jmul (Fin 3) (vaneCount s'))"
    using ne by (auto simp add: setParameters_def updateSurfaces_def lc jseq_def)
  have s2': "setParameters rpm' drumSizeCm (Fin v) vaneHeightPercent t = Some s2"
    using sp s2 by simp
  show ?thesis
  proof (rule conjI [OF _ conjI [OF _ c]], goal_cases)
    case 1
    show ?case by (rule exI [of _ s1]) (rule conjI [OF s1 a])
  next
    case 2
    show ?case by (rule exI [of _ s2]) (rule conjI [OF s2' conjI [OF vc2 b]])
  qed
qed

theorem surfaces_regenerated_witness:
  "vaneCount (reset initialFields) = Fin (real 5) \<and> 3 * (5 :: nat) < 2 ^ 32 \<and>
   (0 :: real) \<le> 4 \<and> 3 * nat \<lfloor>4 :: real\<rfloor> < 2 ^ 32 \<and> \<not> jge (Fin (- 3)) (Fin 0) \<and>
   (\<exists>s'. new_DryerPhysics = Some s' \<and> length (surfaces s') = 15 \<and>
      surfaces s' ! 3 = \<lparr>stype = Drum, sid = ''drum_1'', sindex = 1, scolor = ''#ffe66d''\<rparr> \<and>
      surfaces s' ! 4 =
        \<lparr>stype = VaneLeading, sid = ''vane_1_lead'', sindex = 1, scolor = ''#a8e6cf''\<rparr> \<and>
      surfaces s' ! 5 =
        \<lparr>stype = VaneTrailing, sid = ''vane_1_trail'', sindex = 1, scolor = ''#a8e6cf''\<rparr> \<and>
      distinct (map sid (surfaces s'))) \<and>
   (\<exists>s'. setParameters (Fin 18) (Fin 60) (Fin 4) (Fin 30) initialFields = Some s' \<and>
      vaneCount s' = Fin 4 \<and> length (surfaces s') = 12 \<and>
      surfaces s' ! 11 =
        \<lparr>stype = VaneTrailing, sid = ''vane_3_trail'', sindex = 3, scolor = ''#ffaaa5''\<rparr> \<and>
      distinct (map sid (surfaces s'))) \<and>
   (\<exists>s'. setParameters (Fin 18) (Fin 60) (Fin (- 3)) (Fin 30) initialFields = Some s' \<and>
      surfaces s' = [])"
proof -
  have a: "vaneCount (reset initialFields) = Fin (real 5)"
    by (simp add: reset_def initialFields_def)
  have b: "3 * (5 :: nat) < 2 ^ 32" by simp
  have c: "(0 :: real) \<le> 4" by simp
  have d: "3 * nat \<lfloor>4 :: real\<rfloor> < 2 ^ 32" by simp
  have e: "\<not> jge (Fin (- 3)) (Fin 0)" by (simp add: jge_def)
  have n1: "numToString (Suc 0) = ''1''" by code_simp
  have n3: "numToString 3 = ''3''" by code_simp
  note t = surfaces_regenerated [OF a b c d e, of "Fin 18" "Fin 60" "Fin 30" initialFields]
  from t obtain s1 where s1: "updateSurfaces (reset initialFields) = Some s1"
      "length (surfaces s1) = 3 * 5"
      "\<forall>i<5.
               surfaces s1 ! (3 * i) =
                 \<lparr>stype = Drum, sid = ''drum_'' @ numToString i, sindex = i,
                  scolor = colors ! ((2 * i) mod 12)\<rparr> \<and>
               surfaces s1 ! (3 * i + 1) =
                 \<lparr>stype = VaneLeading, sid = ''vane_'' @ numToString i @ ''_lead'', sindex = i,
                  scolor = colors ! ((2 * i + 1) mod 12)\<rparr> \<and>
               surfaces s1 ! (3 * i + 2) =
                 \<lparr>stype = VaneTrailing, sid = ''vane_'' @ numToString i @ ''_trail'', sindex = i,
                  scolor = colors ! ((2 * i + 1) mod 12)\<rparr>"
      "distinct (map sid (surfaces s1))"
    by blast
  from s1(3) have i1: "surfaces s1 ! (3 * 1) =
                 \<lparr>stype = Drum, sid = ''drum_'' @ numToString 1, sindex = 1,
                  scolor = colors ! ((2 * 1) mod 12)\<rparr> \<and>
               surfaces s1 ! (3 * 1 + 1) =
                 \<lparr>stype = VaneLeading, sid = ''vane_'' @ numToString 1 @ ''_lead'', sindex = 1,
                  scolor = colors ! ((2 * 1 + 1) mod 12)\<rparr> \<and>
               surfaces s1 ! (3 * 1 + 2) =
                 \<lparr>stype = VaneTrailing, sid = ''vane_'' @ numToString 1 @ ''_trail'', sindex = 1,
                  scolor = colors ! ((2 * 1 + 1) mod 12)\<rparr>"
    by (rule allE [where x = 1]) simp
  have p1: "\<exists>s'. new_DryerPhysics = Some s' \<and> length (surfaces s') = 15 \<and>
      surfaces s' ! 3 = \<lparr>stype = Drum, sid = ''drum_1'', sindex = 1, scolor = ''#ffe66d''\<rparr> \<and>
      surfaces s' ! 4 =
        \<lparr>stype = VaneLeading, sid = ''vane_1_lead'', sindex = 1, scolor = ''#a8e6cf''\<rparr> \<and>
      surfaces s' ! 5 =
        \<lparr>stype = VaneTrailing, sid = ''vane_1_trail'', sindex = 1, scolor = ''#a8e6cf''\<rparr> \<and>
      distinct (map sid (surfaces s'))"
    using s1(1,2,4) i1 by (simp add: new_DryerPhysics_def n1 colors_def)
  from t obtain s2 where s2:
      "setParameters (Fin 18) (Fin 60) (Fin 4) (Fin 30) initialFields = Some s2"
      "vaneCount s2 = Fin (real (nat \<lfloor>4 :: real\<rfloor>))"
      "length (surfaces s2) = 3 * nat \<lfloor>4 :: real\<rfloor>"
      "\<forall>i<nat \<lfloor>4 :: real\<rfloor>.
               surfaces s2 ! (3 * i) =
                 \<lparr>stype = Drum, sid = ''drum_'' @ numToString i, sindex = i,
                  scolor = colors ! ((2 * i) mod 12)\<rparr> \<and>
               surfaces s2 ! (3 * i + 1) =
                 \<lparr>stype = VaneLeading, sid = ''vane_'' @ numToString i @ ''_lead'', sindex = i,
                  scolor = colors ! ((2 * i + 1) mod 12)\<rparr> \<and>
               surfaces s2 ! (3 * i + 2) =
                 \<lparr>stype = VaneTrailing, sid = ''vane_'' @ numToString i @ ''_trail'', sindex = i,
                  scolor = colors ! ((2 * i + 1) mod 12)\<rparr>"
      "distinct (map sid (surfaces s2))"
    by blast
  from s2(4) have i3: "surfaces s2 ! (3 * 3 + 2) =
                 \<lparr>stype = VaneTrailing, sid = ''vane_'' @ numToString 3 @ ''_trail'', sindex = 3,
                  scolor = colors ! ((2 * 3 + 1) mod 12)\<rparr>"
    by (simp only: nat_numeral floor_numeral)
  have p2: "\<exists>s'. setParameters (Fin 18) (Fin 60) (Fin 4) (Fin 30) initialFields = Some s' \<and>
      vaneCount s' = Fin 4 \<and> length (surfaces s') = 12 \<and>
      surfaces s' ! 11 =
        \<lparr>stype = VaneTrailing, sid = ''vane_3_trail'', sindex = 3, scolor = ''#ffaaa5''\<rparr> \<and>
      distinct (map sid (surfaces s'))"
    using s2(1,2,3,5) i3 by (simp add: n3 colors_def)
  from t have p3: "\<exists>s'. setParameters (Fin 18) (Fin 60) (Fin (- 3)) (Fin 30) initialFields =
      Some s' \<and> surfaces s' = []"
    by blast
  from a b c d e p1 p2 p3 show ?thesis by blast
qed

text \<open>
  As the specification words it, the property fails for a negative vane count:
  \<open>setParameters(20, 80, -3, 30)\<close> on a new engine stores the vane count \<open>-3\<close> and
  leaves the surface list empty, which is not \<open>3 * vaneCount = -9\<close> elements.
\<close>

theorem negative_vane_count_no_surfaces:
  "map_option vaneCount (Option.bind new_DryerPhysics
      (setParameters (Fin 20) (Fin 80) (Fin (- 3)) (Fin 30))) = Some (Fin (- 3)) \<and>
   map_option surfaces (Option.bind new_DryerPhysics
      (setParameters (Fin 20) (Fin 80) (Fin (- 3)) (Fin 30))) = Some [] \<and>
   \<not> jseq (Fin (real (length ([] :: surface list)))) (jmul (Fin 3) (Fin (- 3)))"
  by (simp add: new_DryerPhysics_def updateSurfaces_def setParameters_def reset_def
      initialFields_def jseq_def)

subsection \<open>Wall-impact segment classification\<close>

lemma segmentIndexAt_scale:
  "0 < k \<Longrightarrow> segmentIndexAt (Fin (y * k)) (Fin (x * k)) s = segmentIndexAt (Fin y) (Fin x) s"
  by (simp add: segmentIndexAt_def atan2_scale)

lemma segmentIndexAt_frame [simp]:
  "segmentIndexAt y x (s\<lparr>ball_x := a\<rparr>) = segmentIndexAt y x s"
  "segmentIndexAt y x (s\<lparr>ball_y := a\<rparr>) = segmentIndexAt y x s"
  "segmentIndexAt y x (s\<lparr>ball_vx := a\<rparr>) = segmentIndexAt y x s"
  "segmentIndexAt y x (s\<lparr>ball_vy := a\<rparr>) = segmentIndexAt y x s"
  by (simp_all add: segmentIndexAt_def Let_def)

lemma triggerCollision_emitted:
  "emitted (triggerCollision sf v s) = emitted s \<or>
   emitted (triggerCollision sf v s) = emitted s @ [(sf, v)]"
  by (simp add: triggerCollision_def)

text \<open>
  Every drum event names the segment of the position that the wall block returns, that
  is of the corrected position.
\<close>

lemma drum_event_names_corrected_position:
  "emitted (handleWall s) = emitted s \<or>
   (\<exists>sf v. emitted (handleWall s) = emitted s @ [(sf, v)] \<and> stype sf = Drum \<and>
      jseq (Fin (real (sindex sf)))
        (segmentIndexAt (ball_y (handleWall s)) (ball_x (handleWall s)) s))"
proof (cases "wallTest s")
  case False
  then show ?thesis by (simp add: handleWall_def)
next
  case True
  define nx where "nx = jdiv (jneg (ball_x s)) (ballDist s)"
  define ny where "ny = jdiv (jneg (ball_y s)) (ballDist s)"
  define pen where "pen = jsub (jadd (ballDist s) (ball_radius s)) (drumRadius s)"
  define s1 where "s1 = s\<lparr>ball_x := jadd (ball_x s) (jmul nx pen),
      ball_y := jadd (ball_y s) (jmul ny pen)\<rparr>"
  define vn where "vn = jadd (jmul (ball_vx s1) nx) (jmul (ball_vy s1) ny)"
  define s2 where "s2 = s1\<lparr>ball_vx := jsub (ball_vx s1)
        (jmul (jmul (jadd (Fin 1) (ball_restitution s1)) vn) nx),
      ball_vy := jsub (ball_vy s1)
        (jmul (jmul (jadd (Fin 1) (ball_restitution s1)) vn) ny)\<rparr>"
  have h: "handleWall s =
      (if jlt vn (Fin 0) then
         (case find (\<lambda>sf. stype sf = Drum \<and>
             jseq (Fin (real (sindex sf))) (segmentIndexAt (ball_y s1) (ball_x s1) s1))
             (surfaces s2) of
            Some sf \<Rightarrow> triggerCollision sf (jabs vn) s2
          | None \<Rightarrow> s2)
       else s1)"
    using True
    unfolding handleWall_def Let_def nx_def ny_def pen_def s1_def vn_def s2_def
    by (simp only: if_True)
  have e: "emitted s1 = emitted s" "emitted s2 = emitted s" by (simp_all add: s1_def s2_def)
  have p: "ball_x s2 = ball_x s1" "ball_y s2 = ball_y s1" by (simp_all add: s2_def)
  have g: "segmentIndexAt y x s1 = segmentIndexAt y x s" for y x by (simp add: s1_def)
  show ?thesis
  proof (cases "jlt vn (Fin 0)")
    case False
    then show ?thesis by (simp add: h e)
  next
    case neg: True
    show ?thesis
    proof (cases "find (\<lambda>sf. stype sf = Drum \<and>
             jseq (Fin (real (sindex sf))) (segmentIndexAt (ball_y s1) (ball_x s1) s1))
             (surfaces s2)")
      case None
      with neg show ?thesis by (simp add: h e)
    next
      case (Some sf)
      then have q: "stype sf = Drum"
        "jseq (Fin (real (sindex sf))) (segmentIndexAt (ball_y s1) (ball_x s1) s)"
        by (auto simp add: find_Some_iff g)
      have w: "handleWall s = triggerCollision sf (jabs vn) s2"
        using neg Some by (simp add: h)
      from triggerCollision_emitted [of sf "jabs vn" s2] q show ?thesis
        by (auto simp add: w e p)
    qed
  qed
qed

text \<open>
  When the ball is smaller than the drum the correction keeps the angle, so the segment
  of the corrected position is the segment of the position before the correction.
\<close>

lemma drum_event_segment_when_ball_fits:
  assumes "ball_x s = Fin px" and "ball_y s = Fin py"
    and "ball_radius s = Fin r" and "drumRadius s = Fin R"
    and "d = sqrt (px * px + py * py)"
    and "R < d + r" and "0 < d" and "r < R"
  shows "emitted (handleWall s) = emitted s \<or>
   (\<exists>sf v. emitted (handleWall s) = emitted s @ [(sf, v)] \<and> stype sf = Drum \<and>
      jseq (Fin (real (sindex sf))) (segmentIndexAt (ball_y s) (ball_x s) s))"
proof -
  have k: "0 < (R - r) / d" using assms(7,8) by simp
  have x: "ball_x (handleWall s) = Fin (px * ((R - r) / d))"
    using wall_position(1) [OF assms(1-4)] assms(5-7) by simp
  have y: "ball_y (handleWall s) = Fin (py * ((R - r) / d))"
    using wall_position(2) [OF assms(1-4)] assms(5-7) by simp
  have "segmentIndexAt (ball_y (handleWall s)) (ball_x (handleWall s)) s =
      segmentIndexAt (ball_y s) (ball_x s) s"
    by (simp only: x y assms(1,2) segmentIndexAt_scale [OF k])
  with drum_event_names_corrected_position [of s] show ?thesis by simp
qed

lemma sqrt_1_100: "sqrt (1 / 100) = (1 / 10 :: real)"
  by (rule sqrt_eqI) simp_all

lemma oversizedBallExample_fields:
  "ball_x oversizedBallExample = Fin 0" "ball_y oversizedBallExample = Fin (1 / 10)"
  "ball_vx oversizedBallExample = Fin 0" "ball_vy oversizedBallExample = Fin 1"
  "ball_radius oversizedBallExample = Fin (9 / 10)"
  "ball_restitution oversizedBallExample = Fin (3 / 4)"
  "drumRadius oversizedBallExample = Fin (4 / 5)" "vaneCount oversizedBallExample = Fin 2"
  "vaneHeight oversizedBallExample = Fin (3 / 10)"
  "segmentIndexOffset oversizedBallExample = Fin 0"
  "lintTrapEnabled oversizedBallExample = False"
  "lastCollisionSurface oversizedBallExample = None"
  "emitted oversizedBallExample = []"
  "surfaces oversizedBallExample = [drumSurface 0, leadSurface 0, trailSurface 0,
                    drumSurface 1, leadSurface 1, trailSurface 1]"
  by (simp_all add: oversizedBallExample_def initialFields_def)

lemma oversizedBallExample_before:
  "segmentIndexAt (ball_y oversizedBallExample) (ball_x oversizedBallExample)
     oversizedBallExample = Fin 0"
  by (simp add: segmentIndexAt_def Let_def oversizedBallExample_fields atan2_def trunc_def)

lemma oversizedBallExample_after:
  "segmentIndexAt (Fin (- (1 / 10))) (Fin 0) oversizedBallExample = Fin 1"
  by (simp add: segmentIndexAt_def Let_def oversizedBallExample_fields atan2_def trunc_def)

lemma surface_selectors [simp]:
  "stype (drumSurface i) = Drum" "sindex (drumSurface i) = i"
  "stype (leadSurface i) = VaneLeading" "sindex (leadSurface i) = i"
  "stype (trailSurface i) = VaneTrailing" "sindex (trailSurface i) = i"
  by (simp_all add: drumSurface_def leadSurface_def trailSurface_def)

lemma oversizedBallExample_wall:
  "handleWall oversizedBallExample =
     triggerCollision (drumSurface 1) (Fin 1)
       (oversizedBallExample\<lparr>ball_x := Fin 0, ball_y := Fin (- (1 / 10)),
          ball_vx := Fin 0, ball_vy := Fin (- (3 / 4))\<rparr>)"
  by (simp add: handleWall_def wallTest_def ballDist_def Let_def jgt_def
      oversizedBallExample_fields sqrt_1_100 oversizedBallExample_after jseq_def)

lemma oversizedBallExample_vanes:
  "checkVane (Fin (14 / 25)) 0 (handleWall oversizedBallExample) = handleWall oversizedBallExample"
  "checkVane (Fin (14 / 25)) (Suc 0) (handleWall oversizedBallExample) =
     handleWall oversizedBallExample"
proof -
  have f0: "vaneFrame (Fin (14 / 25)) 0 (handleWall oversizedBallExample) =
      (Fin (14 / 25), Fin 0, Fin (- (14 / 25)), Fin (- (1 / 10)), Fin (6 / 25), Fin 0,
       Fin (6 / 25))"
    by (simp add: vaneFrame_def Let_def oversizedBallExample_wall oversizedBallExample_fields
        sqrt_36_625)
  have p0: "vaneProjection (Fin (14 / 25)) 0 (handleWall oversizedBallExample) = Fin (- (7 / 3))"
    by (simp add: vaneProjection_def f0)
  show "checkVane (Fin (14 / 25)) 0 (handleWall oversizedBallExample) =
      handleWall oversizedBallExample"
    by (simp add: checkVane_def f0 p0 jge_def)
  have f1: "vaneFrame (Fin (14 / 25)) (Suc 0) (handleWall oversizedBallExample) =
      (Fin (- (14 / 25)), Fin 0, Fin (14 / 25), Fin (- (1 / 10)), Fin (- (6 / 25)), Fin 0,
       Fin (6 / 25))"
    by (simp add: vaneFrame_def Let_def oversizedBallExample_wall oversizedBallExample_fields
        sqrt_36_625)
  have p1: "vaneProjection (Fin (14 / 25)) (Suc 0) (handleWall oversizedBallExample) =
      Fin (- (7 / 3))"
    by (simp add: vaneProjection_def f1)
  show "checkVane (Fin (14 / 25)) (Suc 0) (handleWall oversizedBallExample) =
      handleWall oversizedBallExample"
    by (simp add: checkVane_def f1 p1 jge_def)
qed

text \<open>
  C2 at a failing input. The ball of radius \<open>0.9\<close> at \<open>(0, 0.1)\<close>, moving up in the drum
  of radius \<open>0.8\<close> with two vanes, is at angle \<open>\<pi>/2\<close>, in segment \<open>0\<close>. The correction
  moves it to \<open>(0, -0.1)\<close>, and the event that \<open>handleCollisions\<close> emits names
  segment \<open>1\<close>: the angle is read after the correction.
\<close>

theorem segment_read_after_correction:
  "segmentIndexAt (ball_y oversizedBallExample) (ball_x oversizedBallExample)
     oversizedBallExample = Fin 0 \<and>
   map_option emitted (handleCollisions oversizedBallExample) = Some [(drumSurface 1, Fin 1)] \<and>
   map_option ball_y (handleCollisions oversizedBallExample) = Some (Fin (- 0.1))"
proof -
  have n: "loopCount (vaneCount (handleWall oversizedBallExample)) = Some 2"
    by (simp add: oversizedBallExample_fields)
  have h: "handleCollisions oversizedBallExample = Some (handleWall oversizedBallExample)"
    by (simp add: handleCollisions_def checkVaneCollisions_def n oversizedBallExample_fields
        oversizedBallExample_vanes numeral_2_eq_2)
  have e: "emitted (handleWall oversizedBallExample) = [(drumSurface 1, Fin 1)]"
    by (simp add: oversizedBallExample_wall triggerCollision_def oversizedBallExample_fields)
  have y: "ball_y (handleWall oversizedBallExample) = Fin (- (1 / 10))"
    by (simp add: oversizedBallExample_wall)
  from oversizedBallExample_before h e y show ?thesis by simp
qed

subsection \<open>Degenerate geometry\<close>

text \<open>
  With the ball on the axis the guard of the centrifugal block holds the division back:
  the centrifugal acceleration of that step is zero.
\<close>

lemma centrifugal_guard_at_centre:
  assumes "ball_x s = Fin 0" and "ball_y s = Fin 0"
  shows "centrifugalAccel s = (Fin 0, Fin 0, s)"
  using assms by (simp add: centrifugalAccel_def Let_def jgt_def)

lemma sqrt_9_64: "sqrt (9 / 64) = (3 / 8 :: real)"
  by (rule sqrt_eqI) simp_all

lemma sqrt_1_16: "sqrt (1 / 16) = (1 / 4 :: real)"
  by (rule sqrt_eqI) simp_all

lemma vaneContactExample_fields:
  "ball_x vaneContactExample = Fin (3 / 8)" "ball_y vaneContactExample = Fin 0"
  "ball_vx vaneContactExample = Fin 0" "ball_vy vaneContactExample = Fin 0"
  "ball_radius vaneContactExample = Fin (7 / 200)" "drumRadius vaneContactExample = Fin (1 / 2)"
  "vaneCount vaneContactExample = Fin 1" "vaneHeight vaneContactExample = Fin (1 / 2)"
  by (simp_all add: vaneContactExample_def initialFields_def)

lemma vaneContactExample_wall: "handleWall vaneContactExample = vaneContactExample"
  by (rule wall_idle [OF vaneContactExample_fields(1,2,5,6)]) (simp add: sqrt_9_64)

lemma vaneContactExample_vane:
  "vaneProjection (Fin (1 / 4)) 0 vaneContactExample = Fin (1 / 2)"
  "vaneOffset (Fin (1 / 4)) 0 vaneContactExample = (Fin 0, Fin 0, Fin 0)"
  "checkVane (Fin (1 / 4)) 0 vaneContactExample =
     vaneContactExample\<lparr>ball_x := NaN, ball_y := NaN\<rparr>"
proof -
  have f: "vaneFrame (Fin (1 / 4)) 0 vaneContactExample =
      (Fin (1 / 4), Fin 0, Fin (1 / 8), Fin 0, Fin (1 / 4), Fin 0, Fin (1 / 4))"
    by (simp add: vaneFrame_def Let_def vaneContactExample_fields sqrt_1_16)
  show p: "vaneProjection (Fin (1 / 4)) 0 vaneContactExample = Fin (1 / 2)"
    by (simp add: vaneProjection_def f)
  show q: "vaneOffset (Fin (1 / 4)) 0 vaneContactExample = (Fin 0, Fin 0, Fin 0)"
    by (simp add: vaneOffset_def f p Let_def vaneContactExample_fields)
  show "checkVane (Fin (1 / 4)) 0 vaneContactExample =
      vaneContactExample\<lparr>ball_x := NaN, ball_y := NaN\<rparr>"
    by (simp add: checkVane_def f p q jge_def Let_def vaneContactExample_fields)
qed

lemma vaneContactExample_collisions:
  "handleCollisions vaneContactExample = Some (vaneContactExample\<lparr>ball_x := NaN, ball_y := NaN\<rparr>)"
  by (simp add: handleCollisions_def checkVaneCollisions_def vaneContactExample_wall
      vaneContactExample_fields vaneContactExample_vane)

text \<open>
  C8 at a failing input. The centre of the ball lies on the vane, at \<open>(0.375, 0)\<close>:
  \<open>t = 1/2\<close>, the distance to the closest point is \<open>0\<close>, and the normal \<open>0 / 0\<close> is
  \<open>NaN\<close>. \<open>handleCollisions\<close>, and \<open>step\<close> with a time step of \<open>0\<close>, return the ball at
  \<open>(NaN, NaN)\<close>.
\<close>

theorem vane_contact_yields_nan:
  "vaneProjection (Fin 0.25) 0 vaneContactExample = Fin 0.5 \<and>
   vaneOffset (Fin 0.25) 0 vaneContactExample = (Fin 0, Fin 0, Fin 0) \<and>
   map_option ball_x (handleCollisions vaneContactExample) = Some NaN \<and>
   map_option ball_y (handleCollisions vaneContactExample) = Some NaN \<and>
   map_option ball_x (step (Fin 0) vaneContactExample) = Some NaN \<and>
   map_option ball_y (step (Fin 0) vaneContactExample) = Some NaN"
proof -
  have s: "step (Fin 0) vaneContactExample = handleCollisions vaneContactExample"
    by (simp add: step_def Let_def centrifugalAccel_def coriolisAccel_def dragAccel_def
        jgt_def jor_def vaneContactExample_def initialFields_def sqrt_9_64)
  from s vaneContactExample_vane(1,2) vaneContactExample_collisions show ?thesis by simp
qed

subsection \<open>Debounce\<close>

text \<open>
  From a state with no pending timer for the surface, the debounce does what is asked of
  it: a second impact on the surface less than 50 ms after an emitted one is dropped, and
  one at 50 ms or later is emitted.
\<close>

lemma timers_keep_slot:
  assumes "\<forall>e\<in>set ts. snd e \<noteq> i" and "lastCollisionSurface s = Some i"
  shows "fold (\<lambda>e. timerCallback (snd e)) ts s = s"
  using assms by (induction ts arbitrary: s) (auto simp add: timerCallback_def)

lemma debounce_without_stale_timer:
  assumes "\<not> (lintTrapEnabled s \<and> jlt v (lintTrapThreshold s))"
    and "\<not> (lintTrapEnabled s \<and> jlt v' (lintTrapThreshold s))"
    and "lastCollisionSurface s \<noteq> Some (sid sf)"
    and "\<forall>e\<in>set (timers s). snd e \<noteq> sid sf"
  shows "emitted (triggerCollision sf v' (advanceClock t (triggerCollision sf v s))) =
           (if t < clock s + 50 then emitted s @ [(sf, v)]
            else emitted s @ [(sf, v), (sf, v')])"
proof -
  let ?s1 = "s\<lparr>lastCollisionSurface := Some (sid sf),
      timers := timers s @ [(clock s + 50, sid sf)], emitted := emitted s @ [(sf, v)]\<rparr>"
  have first: "triggerCollision sf v s = ?s1"
    using assms(1,3) by (auto simp add: triggerCollision_def)
  have old: "\<forall>e\<in>set (filter (\<lambda>e. fst e \<le> t) (timers s)). snd e \<noteq> sid sf"
    using assms(4) by simp
  have keep: "fold (\<lambda>e. timerCallback (snd e)) (filter (\<lambda>e. fst e \<le> t) (timers s)) ?s1 = ?s1"
    using old by (rule timers_keep_slot) simp
  show ?thesis
  proof (cases "t < clock s + 50")
    case True
    then have "advanceClock t ?s1 =
        ?s1\<lparr>timers := filter (\<lambda>e. \<not> fst e \<le> t) (timers ?s1), clock := t\<rparr>"
      using keep by (simp add: advanceClock_def)
    then show ?thesis
      unfolding first using True assms(2) by (simp add: triggerCollision_def)
  next
    case False
    then have "advanceClock t ?s1 =
        ?s1\<lparr>lastCollisionSurface := None,
           timers := filter (\<lambda>e. \<not> fst e \<le> t) (timers ?s1), clock := t\<rparr>"
      using keep by (simp add: advanceClock_def timerCallback_def)
    then show ?thesis
      unfolding first using False assms(2) by (simp add: triggerCollision_def)
  qed
qed

text \<open>
  C5 at a failing input. From the initial state, impacts on \<open>drum_0\<close> at 0 ms and 35 ms
  give one event, and impacts at 0 ms and 50 ms give two. But after impacts on \<open>drum_0\<close>
  at 0 ms, on \<open>drum_1\<close> at 10 ms and on \<open>drum_0\<close> at 20 ms, the timer of the first impact
  is still pending; it runs at 50 ms, finds \<open>drum_0\<close> in the slot and clears it, and the
  impact on \<open>drum_0\<close> at 55 ms, 35 ms after the last event for \<open>drum_0\<close>, emits again.
\<close>

theorem stale_timer_reopens_debounce:
  "emitted (triggerCollision (drumSurface 0) (Fin 1)
     (advanceClock 35 (triggerCollision (drumSurface 0) (Fin 1) initialFields))) =
     [(drumSurface 0, Fin 1)] \<and>
   emitted (triggerCollision (drumSurface 0) (Fin 1)
     (advanceClock 50 (triggerCollision (drumSurface 0) (Fin 1) initialFields))) =
     [(drumSurface 0, Fin 1), (drumSurface 0, Fin 1)] \<and>
   emitted (triggerCollision (drumSurface 0) (Fin 1)
     (advanceClock 20 (triggerCollision (drumSurface 1) (Fin 1)
       (advanceClock 10 (triggerCollision (drumSurface 0) (Fin 1) initialFields))))) =
     [(drumSurface 0, Fin 1), (drumSurface 1, Fin 1), (drumSurface 0, Fin 1)] \<and>
   emitted (triggerCollision (drumSurface 0) (Fin 1)
     (advanceClock 55 (triggerCollision (drumSurface 0) (Fin 1)
       (advanceClock 20 (triggerCollision (drumSurface 1) (Fin 1)
         (advanceClock 10 (triggerCollision (drumSurface 0) (Fin 1) initialFields))))))) =
     [(drumSurface 0, Fin 1), (drumSurface 1, Fin 1), (drumSurface 0, Fin 1),
      (drumSurface 0, Fin 1)]"
  by (simp add: triggerCollision_def advanceClock_def timerCallback_def initialFields_def
      surface_ids_inj)

subsection \<open>Configuration updates\<close>

lemma handleWall_no_surfaces:
  assumes "surfaces t = []"
  shows "emitted (handleWall t) = emitted t"
  using assms by (simp add: handleWall_def Let_def)

lemma loopCount_not_positive:
  assumes "\<not> jgt n (Fin 0)" and "n \<noteq> PInf"
  shows "loopCount n = Some 0"
  using assms by (cases n) (simp_all add: jgt_def)

text \<open>
  C4 (as amended). \<open>setParameters\<close> validates nothing. Unless the vane count is
  \<open>+Infinity\<close>, for which the loop of \<open>updateSurfaces\<close> never ends, it returns a state
  that holds the rpm as given, \<open>drumSizeCm / 100\<close>, the floor of the vane count,
  \<open>vaneHeightPercent / 100\<close> and the angular velocity \<open>rpm * 2 * \<pi> / 60\<close>: it neither
  rejects an input nor clamps it. The regenerated surface list is empty exactly when the
  vane count is below \<open>1\<close> or \<open>NaN\<close>; and in a state \<open>t\<close> whose vane count is not
  positive and that has no surfaces, \<open>handleCollisions\<close> tests no vane and emits no
  event.
\<close>

theorem setParameters_unvalidated:
  assumes "vc \<noteq> PInf" and "\<not> jgt (vaneCount t) (Fin 0)" and "vaneCount t \<noteq> PInf"
    and "surfaces t = []"
  shows "(\<exists>s'. setParameters r d vc h s = Some s' \<and> rpm s' = r \<and>
            drumRadius s' = jdiv d (Fin 100) \<and> vaneCount s' = jfloor vc \<and>
            vaneHeight s' = jdiv h (Fin 100) \<and>
            drumAngularVelocity s' = jdiv (jmul (jmul r (Fin 2)) (Fin pi)) (Fin 60) \<and>
            (if jge vc (Fin 1) then surfaces s' \<noteq> [] else surfaces s' = [])) \<and>
         handleCollisions t = Some (handleWall t) \<and> emitted (handleWall t) = emitted t"
proof -
  have a: "\<exists>s'. setParameters r d vc h s = Some s' \<and> rpm s' = r \<and>
      drumRadius s' = jdiv d (Fin 100) \<and> vaneCount s' = jfloor vc \<and>
      vaneHeight s' = jdiv h (Fin 100) \<and>
      drumAngularVelocity s' = jdiv (jmul (jmul r (Fin 2)) (Fin pi)) (Fin 60) \<and>
      (if jge vc (Fin 1) then surfaces s' \<noteq> [] else surfaces s' = [])"
  proof (cases vc)
    case (Fin v)
    show ?thesis
    proof (cases "1 \<le> v")
      case True
      then have "0 < nat \<lfloor>v\<rfloor>" by linarith
      then obtain k where k: "nat \<lfloor>v\<rfloor> = Suc k" by (cases "nat \<lfloor>v\<rfloor>") auto
      from True Fin k show ?thesis
        by (simp add: setParameters_def updateSurfaces_def jge_def pushSurfaces_def)
    next
      case False
      then have "nat \<lfloor>v\<rfloor> = 0" by linarith
      with False Fin show ?thesis
        by (simp add: setParameters_def updateSurfaces_def jge_def)
    qed
  next
    case PInf
    with assms(1) show ?thesis by simp
  next
    case NInf
    then show ?thesis by (simp add: setParameters_def updateSurfaces_def jge_def)
  next
    case NaN
    then show ?thesis by (simp add: setParameters_def updateSurfaces_def jge_def)
  qed
  have n: "loopCount (vaneCount t) = Some 0"
    using assms(2,3) by (rule loopCount_not_positive)
  have b: "handleCollisions t = Some (handleWall t)"
    by (simp add: handleCollisions_def checkVaneCollisions_def n)
  from a b handleWall_no_surfaces [OF assms(4)] show ?thesis by blast
qed

theorem setParameters_unvalidated_witness:
  "\<not> jgt (vaneCount (initialFields\<lparr>vaneCount := Fin (- 3)\<rparr>)) (Fin 0) \<and>
   surfaces (initialFields\<lparr>vaneCount := Fin (- 3)\<rparr>) = [] \<and>
   (\<exists>s'. setParameters NaN (Fin (- 80)) (Fin (- 3)) NaN initialFields = Some s' \<and>
      rpm s' = NaN \<and> drumRadius s' = Fin (- 0.8) \<and> vaneCount s' = Fin (- 3) \<and>
      vaneHeight s' = NaN \<and> drumAngularVelocity s' = NaN \<and> surfaces s' = []) \<and>
   handleCollisions (initialFields\<lparr>vaneCount := Fin (- 3)\<rparr>) =
     Some (handleWall (initialFields\<lparr>vaneCount := Fin (- 3)\<rparr>))"
proof -
  let ?t = "initialFields\<lparr>vaneCount := Fin (- 3)\<rparr>"
  have a: "Fin (- 3) \<noteq> PInf" by simp
  have b: "\<not> jgt (vaneCount ?t) (Fin 0)" "vaneCount ?t \<noteq> PInf" "surfaces ?t = []"
    by (simp_all add: jgt_def initialFields_def)
  from setParameters_unvalidated [OF a b, of NaN "Fin (- 80)" NaN initialFields]
  have "(\<exists>s'. setParameters NaN (Fin (- 80)) (Fin (- 3)) NaN initialFields = Some s' \<and>
      rpm s' = NaN \<and> drumRadius s' = Fin (- 0.8) \<and> vaneCount s' = Fin (- 3) \<and>
      vaneHeight s' = NaN \<and> drumAngularVelocity s' = NaN \<and> surfaces s' = []) \<and>
    handleCollisions ?t = Some (handleWall ?t)"
    by (auto simp add: jge_def)
  with b show ?thesis by blast
qed

text \<open>
  As the specification words it, the property fails: a \<open>NaN\<close> rpm, a vane count of
  \<open>0\<close> and a negative drum size are all stored, and after the \<open>NaN\<close> rpm the next \<open>step\<close> leaves the velocity
  and the position of the ball \<open>NaN\<close>.
\<close>

theorem invalid_configuration_accepted:
  "map_option rpm (Option.bind new_DryerPhysics
      (setParameters NaN (Fin 80) (Fin 1) (Fin 30))) = Some NaN \<and>
   map_option ball_vx (Option.bind (Option.bind new_DryerPhysics
      (setParameters NaN (Fin 80) (Fin 1) (Fin 30))) (step (Fin (1 / 240)))) = Some NaN \<and>
   map_option ball_x (Option.bind (Option.bind new_DryerPhysics
      (setParameters NaN (Fin 80) (Fin 1) (Fin 30))) (step (Fin (1 / 240)))) = Some NaN \<and>
   map_option vaneCount (Option.bind new_DryerPhysics
      (setParameters (Fin 20) (Fin 80) (Fin 0) (Fin 30))) = Some (Fin 0) \<and>
   map_option drumRadius (Option.bind new_DryerPhysics
      (setParameters (Fin 20) (Fin (- 80)) (Fin 4) (Fin 30))) = Some (Fin (- 0.8))"
proof -
  have c: "new_DryerPhysics = Some (reset initialFields
      \<lparr>surfaces := fold pushSurfaces [0..<5] []\<rparr>)"
    by (simp add: new_DryerPhysics_def updateSurfaces_def reset_def initialFields_def)
  define s where "s = reset initialFields
      \<lparr>surfaces := fold pushSurfaces [0..<5] [], rpm := NaN, drumRadius := Fin (4 / 5),
        vaneCount := Fin 1, vaneHeight := Fin (3 / 10), drumAngularVelocity := NaN,
        surfaces := fold pushSurfaces [0..<1] []\<rparr>"
  have p: "Option.bind new_DryerPhysics (setParameters NaN (Fin 80) (Fin 1) (Fin 30)) = Some s"
    by (simp add: c setParameters_def updateSurfaces_def s_def)
  have f: "rpm s = NaN" "drumAngularVelocity s = NaN" "drumAngle s = Fin 0"
    "gravity s = Fin (981 / 100)" "ball_x s = Fin (6 / 25)" "ball_y s = Fin 0"
    "ball_vx s = Fin 0" "ball_vy s = Fin 0" "enableCentrifugal s" "enableCoriolis s"
    "enableAirDrag s" "\<not> useQuadraticDrag s" "coriolisSignFlip s = Fin 1"
    "vaneCount s = Fin 1" "drumRadius s = Fin (4 / 5)" "vaneHeight s = Fin (3 / 10)"
    "ball_radius s = Fin (7 / 200)"
    by (simp_all add: s_def reset_def initialFields_def)
  have q: "\<exists>s'. step (Fin (1 / 240)) s = Some s' \<and> ball_vx s' = NaN \<and> ball_x s' = NaN"
    by (simp add: step_def Let_def centrifugalAccel_def coriolisAccel_def dragAccel_def
        jgt_def jor_def f handleCollisions_def checkVaneCollisions_def handleWall_def
        wallTest_def ballDist_def checkVane_def vaneProjection_def vaneFrame_def jge_def
        jsub_def sqrt_36_625)
  have v: "map_option vaneCount (Option.bind new_DryerPhysics
      (setParameters (Fin 20) (Fin 80) (Fin 0) (Fin 30))) = Some (Fin 0)"
    by (simp add: c setParameters_def updateSurfaces_def)
  have d: "map_option drumRadius (Option.bind new_DryerPhysics
      (setParameters (Fin 20) (Fin (- 80)) (Fin 4) (Fin 30))) = Some (Fin (- 0.8))"
    by (simp add: c setParameters_def updateSurfaces_def)
  from p f(1) q v d show ?thesis by auto
qed

subsection \<open>Binary64 rounding\<close>

lemma rhe_error: "\<bar>of_int (rhe y) - y\<bar> \<le> 1 / 2"
proof -
  have "of_int \<lfloor>y\<rfloor> \<le> y" "y < of_int \<lfloor>y\<rfloor> + 1" by linarith+
  then show ?thesis by (auto simp add: rhe_def Let_def)
qed

lemma floor_log2_bounds:
  assumes "x \<noteq> 0"
  shows "2 powr of_int \<lfloor>log 2 \<bar>x\<bar>\<rfloor> \<le> \<bar>x\<bar>" and "\<bar>x\<bar> < 2 powr (of_int \<lfloor>log 2 \<bar>x\<bar>\<rfloor> + 1)"
proof -
  have p: "0 < \<bar>x\<bar>" using assms by simp
  have "of_int \<lfloor>log 2 \<bar>x\<bar>\<rfloor> \<le> log 2 \<bar>x\<bar>" by linarith
  then have "2 powr of_int \<lfloor>log 2 \<bar>x\<bar>\<rfloor> \<le> 2 powr log 2 \<bar>x\<bar>" by (simp only: powr_le_cancel_iff) 
  then show "2 powr of_int \<lfloor>log 2 \<bar>x\<bar>\<rfloor> \<le> \<bar>x\<bar>" using p by simp
  have "log 2 \<bar>x\<bar> < of_int \<lfloor>log 2 \<bar>x\<bar>\<rfloor> + 1" by linarith
  then have "2 powr log 2 \<bar>x\<bar> < 2 powr (of_int \<lfloor>log 2 \<bar>x\<bar>\<rfloor> + 1)" by simp
  then show "\<bar>x\<bar> < 2 powr (of_int \<lfloor>log 2 \<bar>x\<bar>\<rfloor> + 1)" using p by simp
qed

lemma fl_error:
  assumes "\<bar>x\<bar> \<le> 2 ^ 1023"
  shows "\<exists>z. fl x = Fin z \<and> \<bar>z - x\<bar> \<le> u64 * (\<bar>x\<bar> + tiny64)"
proof (cases "x = 0")
  case True
  then show ?thesis by (simp add: fl_def u64_def tiny64_def)
next
  case False
  define e0 where "e0 = \<lfloor>log 2 \<bar>x\<bar>\<rfloor>"
  define e where "e = max e0 (- 1022)"
  define q :: real where "q = 2 powr (of_int e - 52)"
  define r where "r = of_int (rhe (x / q)) * q"
  have lo: "2 powr of_int e0 \<le> \<bar>x\<bar>" and hi: "\<bar>x\<bar> < 2 powr (of_int e0 + 1)"
    using floor_log2_bounds [OF False] by (simp_all add: e0_def)
  have qpos: "0 < q" by (simp add: q_def)
  have "\<bar>r - x\<bar> = q * \<bar>of_int (rhe (x / q)) - x / q\<bar>"
    using qpos by (simp add: r_def abs_mult [symmetric] field_simps)
  also have "\<dots> \<le> q * (1 / 2)"
    using rhe_error [of "x / q"] qpos by (intro mult_left_mono) simp_all
  finally have err: "\<bar>r - x\<bar> \<le> q / 2" by simp
  have e0le: "e0 \<le> 1023"
  proof (rule ccontr)
    assume "\<not> e0 \<le> 1023"
    then have "(1024 :: real) \<le> of_int e0" by simp
    then have "(2 :: real) powr 1024 \<le> 2 powr of_int e0" by (simp only: powr_le_cancel_iff)
    with lo assms show False by simp
  qed
  have q2: "q / 2 = 2 powr (of_int e - 53)"
    by (simp add: q_def powr_diff)
  have qle: "q / 2 \<le> 2 ^ 970"
  proof -
    have "of_int e - 53 \<le> (970 :: real)" using e0le by (simp add: e_def)
    then have "(2 :: real) powr (of_int e - 53) \<le> 2 powr 970" by (simp only: powr_le_cancel_iff)
    then show ?thesis by (simp add: q2)
  qed
  have bound: "q / 2 \<le> u64 * (\<bar>x\<bar> + tiny64)"
  proof (cases "- 1022 \<le> e0")
    case True
    then have "e = e0" by (simp add: e_def)
    then have "q / 2 = 2 powr of_int e0 * u64"
      by (simp add: q2 powr_diff u64_def)
    also have "\<dots> \<le> \<bar>x\<bar> * u64" using lo by (intro mult_right_mono) (simp_all add: u64_def)
    also have "\<dots> \<le> u64 * (\<bar>x\<bar> + tiny64)" by (simp add: u64_def tiny64_def field_simps)
    finally show ?thesis .
  next
    case False
    then have "e = - 1022" by (simp add: e_def)
    then have "q / 2 = u64 * tiny64"
      by (simp add: q2 u64_def tiny64_def powr_minus powr_realpow [symmetric] flip: powr_add)
    also have "\<dots> \<le> u64 * (\<bar>x\<bar> + tiny64)" by (simp add: u64_def)
    finally show ?thesis .
  qed
  have "\<bar>r\<bar> \<le> \<bar>x\<bar> + q / 2" using err by linarith
  also have "\<dots> \<le> 2 ^ 1023 + 2 ^ 970" using assms qle by linarith
  also have "\<dots> < (2 :: real) powr 1024" by simp
  finally have nov: "\<not> 2 powr 1024 \<le> \<bar>r\<bar>" by simp
  have "fl x = Fin r"
    using False nov unfolding fl_def Let_def r_def q_def e_def e0_def by simp
  with err bound show ?thesis by (intro exI [of _ r]) simp
qed

text \<open>The error of one rounding, and of the chains of operations of the two contact blocks.\<close>

lemma rnd_Fin [simp]: "rnd (Fin x) = fl x"
  by (simp add: rnd_def)

lemma u64_num: "u64 = 1 / 9007199254740992" by (simp add: u64_def)

lemma fl_errorE:
  assumes "\<bar>x\<bar> \<le> 2 ^ 1023"
  obtains z where "fl x = Fin z" and "\<bar>z - x\<bar> \<le> u64 * (\<bar>x\<bar> + tiny64)"
  using fl_error [OF assms] by blast

lemma square_bound:
  fixes g :: real
  assumes "1 / 2 ^ 500 \<le> g"
  shows "1 / 2 ^ 1000 \<le> g * g"
proof -
  have "(1 / 2 ^ 500) * (1 / 2 ^ 500) \<le> g * g"
    using assms by (intro mult_mono) simp_all
  then show ?thesis by simp
qed

lemma square_bound_upper:
  fixes g :: real
  assumes "0 \<le> g" "g \<le> 2 ^ 500"
  shows "g * g \<le> 2 ^ 1000"
proof -
  have "g * g \<le> 2 ^ 500 * 2 ^ 500"
    using assms by (intro mult_mono) simp_all
  then show ?thesis by simp
qed

lemma component_le_norm:
  fixes a b :: real
  shows "\<bar>a\<bar> \<le> sqrt (a * a + b * b)" "\<bar>b\<bar> \<le> sqrt (a * a + b * b)"
proof -
  have "sqrt (a * a) \<le> sqrt (a * a + b * b)" by (rule real_sqrt_le_mono) simp
  then show "\<bar>a\<bar> \<le> sqrt (a * a + b * b)" by simp
  have "sqrt (b * b) \<le> sqrt (a * a + b * b)" by (rule real_sqrt_le_mono) simp
  then show "\<bar>b\<bar> \<le> sqrt (a * a + b * b)" by simp
qed

lemma sqrt_sum_squares64:
  assumes g: "g = sqrt (a * a + b * b)" and lo: "1 / 2 ^ 500 \<le> g" and hi: "g \<le> 2 ^ 500"
  shows "\<exists>g'. rsqrt (radd (rmul (Fin a) (Fin a)) (rmul (Fin b) (Fin b))) = Fin g' \<and>
           \<bar>g' - g\<bar> \<le> 8 * u64 * g"
proof -
  define D where "D = a * a + b * b"
  have gpos: "0 < g" using lo by (rule less_le_trans [rotated]) simp
  have D0: "0 \<le> D" by (simp add: D_def)
  have gg: "g * g = D" using D0 by (simp add: g D_def)
  have Dlo: "1 / 2 ^ 1000 \<le> D" using square_bound [OF lo] gg by simp
  have Dhi: "D \<le> 2 ^ 1000" using square_bound_upper [OF less_imp_le [OF gpos] hi] gg by simp
  have tD: "4194304 * tiny64 \<le> D" using Dlo by (simp add: tiny64_def)
  have tg: "4194304 * tiny64 \<le> g" using lo by (simp add: tiny64_def)
  have aa: "0 \<le> a * a" "a * a \<le> D" and bb: "0 \<le> b * b" "b * b \<le> D"
    by (simp_all add: D_def)
  have ra: "\<bar>a * a\<bar> \<le> 2 ^ 1023" using aa Dhi by simp
  have rb: "\<bar>b * b\<bar> \<le> 2 ^ 1023" using bb Dhi by simp
  obtain a2 where a2: "fl (a * a) = Fin a2" "\<bar>a2 - a * a\<bar> \<le> u64 * (\<bar>a * a\<bar> + tiny64)"
    by (rule fl_errorE [OF ra])
  obtain b2 where b2: "fl (b * b) = Fin b2" "\<bar>b2 - b * b\<bar> \<le> u64 * (\<bar>b * b\<bar> + tiny64)"
    by (rule fl_errorE [OF rb])
  have s0: "\<bar>a2 + b2 - D\<bar> \<le> 2 * u64 * D"
    using a2(2) b2(2) aa bb tD unfolding D_def u64_num by argo
  have s0hi: "\<bar>a2 + b2\<bar> \<le> 2 * D" using s0 D0 unfolding u64_num by argo
  have rc: "\<bar>a2 + b2\<bar> \<le> 2 ^ 1023" using s0hi Dhi by simp
  obtain c where c: "fl (a2 + b2) = Fin c" "\<bar>c - (a2 + b2)\<bar> \<le> u64 * (\<bar>a2 + b2\<bar> + tiny64)"
    by (rule fl_errorE [OF rc])
  have cD: "\<bar>c - D\<bar> \<le> 5 * u64 * D"
    using c(2) s0 s0hi tD D0 unfolding u64_num by argo
  have c0: "0 \<le> c" using cD D0 unfolding u64_num by argo
  define sc where "sc = sqrt c"
  have sc0: "0 \<le> sc" using c0 by (simp add: sc_def)
  have scsc: "sc * sc = c" using c0 by (simp add: sc_def)
  have "\<bar>sc - g\<bar> * g \<le> \<bar>sc - g\<bar> * (sc + g)"
    using sc0 gpos by (intro mult_left_mono) simp_all
  also have "\<dots> = \<bar>(sc - g) * (sc + g)\<bar>" using sc0 gpos by (simp add: abs_mult)
  also have "(sc - g) * (sc + g) = c - D" using scsc gg by (simp add: algebra_simps)
  also have "\<bar>c - D\<bar> \<le> 5 * u64 * D" by (rule cD)
  also have "\<dots> = (5 * u64 * g) * g" using gg by simp
  finally have scg: "\<bar>sc - g\<bar> \<le> 5 * u64 * g" using gpos by simp
  have schi: "\<bar>sc\<bar> \<le> 2 * g" using scg gpos unfolding u64_num by argo
  have rs: "\<bar>sc\<bar> \<le> 2 ^ 1023" using schi hi by simp
  obtain g' where g': "fl sc = Fin g'" "\<bar>g' - sc\<bar> \<le> u64 * (\<bar>sc\<bar> + tiny64)"
    by (rule fl_errorE [OF rs])
  have res: "\<bar>g' - g\<bar> \<le> 8 * u64 * g"
    using g'(2) scg schi tg gpos unfolding u64_num by argo
  have "rsqrt (radd (rmul (Fin a) (Fin a)) (rmul (Fin b) (Fin b))) = Fin g'"
    using c0 by (simp add: rsqrt_def radd_def rmul_def a2(1) b2(1) c(1) g'(1) [unfolded sc_def])
  with res show ?thesis by blast
qed

lemma tiny64_small: "tiny64 \<le> 1 / 4194304"
  by (simp add: tiny64_def)

lemma prod_err:
  fixes a b a' b' :: real
  shows "\<bar>a' * b' - a * b\<bar> \<le> \<bar>a'\<bar> * \<bar>b' - b\<bar> + \<bar>b\<bar> * \<bar>a' - a\<bar>"
proof -
  have "a' * b' - a * b = a' * (b' - b) + b * (a' - a)" by (simp add: algebra_simps)
  then have "\<bar>a' * b' - a * b\<bar> \<le> \<bar>a' * (b' - b)\<bar> + \<bar>b * (a' - a)\<bar>"
    by (simp only: abs_triangle_ineq)
  then show ?thesis by (simp only: abs_mult)
qed

lemma unit_component64:
  assumes gpos: "0 < g" and g': "\<bar>g' - g\<bar> \<le> 8 * u64 * g" and c: "\<bar>c\<bar> \<le> g"
  shows "\<exists>n'. rdiv (Fin c) (Fin g') = Fin n' \<and> \<bar>n' - c / g\<bar> \<le> 11 * u64"
proof -
  have g'pos: "0 < g'" using g' gpos unfolding u64_num by argo
  have cg': "\<bar>c\<bar> \<le> (1 + 9 * u64) * g'" using g' gpos c unfolding u64_num by argo
  define q where "q = c / g'"
  have q: "\<bar>q\<bar> \<le> 1 + 9 * u64"
    using cg' g'pos by (simp add: q_def pos_divide_le_eq)
  have rq: "\<bar>q\<bar> \<le> 2 ^ 1023"
  proof -
    have "\<bar>q\<bar> \<le> 2" using q unfolding u64_num by argo
    also have "(2 :: real) \<le> 2 ^ 1023" by simp
    finally show ?thesis .
  qed
  obtain n' where n': "fl q = Fin n'" "\<bar>n' - q\<bar> \<le> u64 * (\<bar>q\<bar> + tiny64)"
    by (rule fl_errorE [OF rq])
  define r1 where "r1 = \<bar>g - g'\<bar> / g"
  have r1: "0 \<le> r1" "r1 \<le> 8 * u64"
    using g' gpos by (simp_all add: r1_def pos_divide_le_eq abs_minus_commute)
  have "q - c / g = q * ((g - g') / g)"
    using gpos g'pos by (simp add: q_def field_simps)
  then have "\<bar>q - c / g\<bar> = \<bar>q\<bar> * r1"
    using gpos by (simp add: abs_mult r1_def)
  also have "\<dots> \<le> (1 + 9 * u64) * (8 * u64)"
    using q r1 by (intro mult_mono) (simp_all add: u64_def)
  finally have qe: "\<bar>q - c / g\<bar> \<le> (1 + 9 * u64) * (8 * u64)" .
  have res: "\<bar>n' - c / g\<bar> \<le> 11 * u64"
    using n'(2) qe q tiny64_small unfolding u64_num by argo
  have "rdiv (Fin c) (Fin g') = Fin n'"
    using g'pos by (simp add: rdiv_def n'(1) [unfolded q_def])
  with res show ?thesis by blast
qed


lemma wall_penetration64:
  assumes lo: "1 / 2 ^ 500 \<le> d" and hi: "d \<le> 2 ^ 500"
    and d': "\<bar>d' - d\<bar> \<le> 8 * u64 * d"
    and r: "0 \<le> r" "r \<le> 2 ^ 500" and R: "0 \<le> R" "R \<le> 2 ^ 500"
  shows "\<exists>s'. radd (Fin d') (Fin r) = Fin s' \<and> \<bar>s' - (d + r)\<bar> \<le> u64 * (11 * d + r) \<and>
           (R < s' \<longrightarrow>
              (\<exists>p'. rsub (Fin s') (Fin R) = Fin p' \<and>
                    \<bar>p' - (d + r - R)\<bar> \<le> u64 * (13 * d + 3 * r)))"
proof -
  have dpos: "0 < d" using lo by (rule less_le_trans [rotated]) simp
  have td: "4194304 * tiny64 \<le> d" using lo by (simp add: tiny64_def)
  have "\<bar>d' + r\<bar> \<le> 2 * d + r" using d' dpos r(1) unfolding u64_num by argo
  also have "\<dots> \<le> 2 ^ 1023" using hi r(2) by simp
  finally have rs: "\<bar>d' + r\<bar> \<le> 2 ^ 1023" .
  obtain s' where s': "fl (d' + r) = Fin s'" "\<bar>s' - (d' + r)\<bar> \<le> u64 * (\<bar>d' + r\<bar> + tiny64)"
    by (rule fl_errorE [OF rs])
  have se: "\<bar>s' - (d + r)\<bar> \<le> u64 * (11 * d + r)"
    using s'(2) d' dpos r(1) td unfolding u64_num by argo
  have fired: "\<exists>p'. rsub (Fin s') (Fin R) = Fin p' \<and>
      \<bar>p' - (d + r - R)\<bar> \<le> u64 * (13 * d + 3 * r)" if f: "R < s'"
  proof -
    have "\<bar>s' - R\<bar> \<le> 2 * d + 2 * r" using se f R(1) dpos r(1) unfolding u64_num by argo
    also have "\<dots> \<le> 2 ^ 1023" using hi r(2) by simp
    finally have rp: "\<bar>s' - R\<bar> \<le> 2 ^ 1023" .
    obtain p' where p': "fl (s' - R) = Fin p'" "\<bar>p' - (s' - R)\<bar> \<le> u64 * (\<bar>s' - R\<bar> + tiny64)"
      by (rule fl_errorE [OF rp])
    have pe: "\<bar>p' - (d + r - R)\<bar> \<le> u64 * (13 * d + 3 * r)"
      using p'(2) se f R(1) dpos r(1) td unfolding u64_num by argo
    have "rsub (Fin s') (Fin R) = Fin p'" by (simp add: rsub_def p'(1))
    with pe show ?thesis by blast
  qed
  have "radd (Fin d') (Fin r) = Fin s'" by (simp add: radd_def s'(1))
  with se fired show ?thesis by blast
qed

lemma wall_correction64:
  assumes lo: "1 / 2 ^ 500 \<le> d" and hi: "d \<le> 2 ^ 500"
    and c: "\<bar>c\<bar> \<le> d"
    and n': "\<bar>n' - (- c) / d\<bar> \<le> 11 * u64"
    and p': "\<bar>p' - (d + r - R)\<bar> \<le> u64 * (13 * d + 3 * r)"
    and pb: "\<bar>d + r - R\<bar> \<le> d + r"
    and r: "0 \<le> r" "r \<le> R" and R: "R \<le> 2 ^ 500"
  shows "\<exists>x'. radd (Fin c) (rmul (Fin n') (Fin p')) = Fin x' \<and>
           \<bar>x' - c * ((R - r) / d)\<bar> \<le> u64 * (32 * d + 18 * R)"
proof -
  have dpos: "0 < d" using lo by (rule less_le_trans [rotated]) simp
  have td: "4194304 * tiny64 \<le> d" using lo by (simp add: tiny64_def)
  define n where "n = (- c) / d"
  define p where "p = d + r - R"
  have nb: "\<bar>n\<bar> \<le> 1" using c dpos by (simp add: n_def pos_divide_le_eq)
  have n'b: "\<bar>n'\<bar> \<le> 1 + 11 * u64" using n' nb unfolding n_def [symmetric] by argo
  have p'b: "\<bar>p'\<bar> \<le> (1 + 13 * u64) * (d + r)"
    using p' pb dpos r(1) unfolding p_def [symmetric] u64_num by argo
  have "\<bar>n' * p'\<bar> = \<bar>n'\<bar> * \<bar>p'\<bar>" by (rule abs_mult)
  also have "\<dots> \<le> (1 + 11 * u64) * ((1 + 13 * u64) * (d + r))"
    using n'b p'b by (intro mult_mono) (simp_all add: u64_def)
  finally have np'b: "\<bar>n' * p'\<bar> \<le> (1 + 11 * u64) * ((1 + 13 * u64) * (d + r))" .
  have "\<bar>n' * p'\<bar> \<le> 2 * d + 2 * r" using np'b dpos r(1) unfolding u64_num by argo
  also have "\<dots> \<le> 2 ^ 1023" using hi r(2) R by simp
  finally have rm: "\<bar>n' * p'\<bar> \<le> 2 ^ 1023" .
  obtain m where m: "fl (n' * p') = Fin m" "\<bar>m - n' * p'\<bar> \<le> u64 * (\<bar>n' * p'\<bar> + tiny64)"
    by (rule fl_errorE [OF rm])
  have e1: "\<bar>n'\<bar> * \<bar>p' - p\<bar> \<le> (1 + 11 * u64) * (u64 * (13 * d + 3 * r))"
    using n'b p' dpos r(1) unfolding p_def [symmetric]
    by (intro mult_mono) (simp_all add: u64_def)
  have e2: "\<bar>p\<bar> * \<bar>n' - n\<bar> \<le> (d + r) * (11 * u64)"
    using n' pb dpos r(1) unfolding p_def [symmetric] n_def [symmetric]
    by (intro mult_mono) (simp_all add: u64_def)
  have e3: "\<bar>n' * p' - n * p\<bar> \<le> u64 * (25 * d + 15 * r)"
    using prod_err [of n' p' n p] e1 e2 dpos r(1) unfolding u64_num by argo
  have me: "\<bar>m - n * p\<bar> \<le> u64 * (28 * d + 17 * r)"
    using m(2) np'b e3 td dpos r(1) unfolding u64_num by argo
  have q: "c + n * p = c * ((R - r) / d)"
    using dpos by (simp add: n_def p_def field_simps)
  have "\<bar>c * ((R - r) / d)\<bar> = \<bar>n\<bar> * (R - r)"
    using dpos r(2) by (simp add: n_def abs_mult)
  also have "\<dots> \<le> 1 * (R - r)" using nb r(2) by (intro mult_right_mono) simp_all
  finally have qb: "\<bar>c * ((R - r) / d)\<bar> \<le> R - r" by simp
  have cm: "\<bar>c + m\<bar> \<le> R + d"
    using me qb q r dpos unfolding u64_num by argo
  have "R + d \<le> 2 ^ 1023" using hi R by simp
  with cm have rx: "\<bar>c + m\<bar> \<le> 2 ^ 1023" by (rule order_trans)
  obtain x' where x': "fl (c + m) = Fin x'" "\<bar>x' - (c + m)\<bar> \<le> u64 * (\<bar>c + m\<bar> + tiny64)"
    by (rule fl_errorE [OF rx])
  have res: "\<bar>x' - c * ((R - r) / d)\<bar> \<le> u64 * (32 * d + 18 * R)"
    using x'(2) cm me q r td dpos unfolding u64_num by argo
  have "radd (Fin c) (rmul (Fin n') (Fin p')) = Fin x'"
    by (simp add: radd_def rmul_def m(1) x'(1))
  with res show ?thesis by blast
qed



subsection \<open>The contact blocks in binary64\<close>

lemma moveBall64_frame [simp]:
  "ball_vx (moveBall64 n p s) = ball_vx s"
  "ball_vy (moveBall64 n p s) = ball_vy s"
  "ball_restitution (moveBall64 n p s) = ball_restitution s"
  "emitted (moveBall64 n p s) = emitted s"
  "lastCollisionSurface (moveBall64 n p s) = lastCollisionSurface s"
  "surfaces (moveBall64 n p s) = surfaces s"
  by (simp_all add: moveBall64_def)

lemma reflect64_frame [simp]:
  "ball_x (reflect64 n vn s) = ball_x s"
  "ball_y (reflect64 n vn s) = ball_y s"
  "surfaces (reflect64 n vn s) = surfaces s"
  by (simp_all add: reflect64_def)

lemma normalVelocity64_moveBall64 [simp]:
  "normalVelocity64 n (moveBall64 m p s) = normalVelocity64 n s"
  by (simp add: normalVelocity64_def)

text \<open>The position and the velocity that the wall block leaves.\<close>

lemma handleWall64_position:
  "wallTest64 s \<Longrightarrow>
   ball_x (handleWall64 M s) =
     radd (ball_x s) (rmul (fst (wallNormal64 s))
       (rsub (radd (ballDist64 s) (ball_radius s)) (drumRadius s))) \<and>
   ball_y (handleWall64 M s) =
     radd (ball_y s) (rmul (snd (wallNormal64 s))
       (rsub (radd (ballDist64 s) (ball_radius s)) (drumRadius s)))"
  by (simp add: handleWall64_def Let_def moveBall64_def split: option.split)

lemma handleWall64_idle: "\<not> wallTest64 s \<Longrightarrow> handleWall64 M s = s"
  by (simp add: handleWall64_def)




lemma norm_diff_bound:
  fixes x y a b :: real
  shows "\<bar>sqrt (x * x + y * y) - sqrt (a * a + b * b)\<bar> \<le> \<bar>x - a\<bar> + \<bar>y - b\<bar>"
proof -
  have n: "sqrt (p * p + q * q) = cmod (Complex p q)" for p q
    by (simp add: cmod_def power2_eq_square)
  have "\<bar>cmod (Complex x y) - cmod (Complex a b)\<bar> \<le> cmod (Complex x y - Complex a b)"
    by (rule norm_triangle_ineq3)
  also have "\<dots> \<le> \<bar>Re (Complex x y - Complex a b)\<bar> + \<bar>Im (Complex x y - Complex a b)\<bar>"
    by (rule cmod_le)
  finally show ?thesis by (simp add: n)
qed

lemma wall_normal64:
  assumes "ball_x s = Fin px" and "ball_y s = Fin py" and "d = sqrt (px * px + py * py)"
    and "1 / 2 ^ 500 \<le> d" and "d \<le> 2 ^ 500"
  shows "\<exists>d' n1 n2. ballDist64 s = Fin d' \<and> \<bar>d' - d\<bar> \<le> 8 * u64 * d \<and>
           wallNormal64 s = (Fin n1, Fin n2) \<and>
           \<bar>n1 - (- px) / d\<bar> \<le> 11 * u64 \<and> \<bar>n2 - (- py) / d\<bar> \<le> 11 * u64"
proof -
  have dpos: "0 < d" using assms(4) by (rule less_le_trans [rotated]) simp
  obtain d' where d': "ballDist64 s = Fin d'" "\<bar>d' - d\<bar> \<le> 8 * u64 * d"
    using sqrt_sum_squares64 [OF assms(3,4,5)] by (auto simp add: ballDist64_def assms(1,2))
  have cx: "\<bar>- px\<bar> \<le> d" and cy: "\<bar>- py\<bar> \<le> d"
    using component_le_norm [where a = px and b = py] by (simp_all add: assms(3))
  obtain n1 where n1: "rdiv (Fin (- px)) (Fin d') = Fin n1" "\<bar>n1 - (- px) / d\<bar> \<le> 11 * u64"
    using unit_component64 [OF dpos d'(2) cx] by blast
  obtain n2 where n2: "rdiv (Fin (- py)) (Fin d') = Fin n2" "\<bar>n2 - (- py) / d\<bar> \<le> 11 * u64"
    using unit_component64 [OF dpos d'(2) cy] by blast
  have "wallNormal64 s = (Fin n1, Fin n2)"
    by (simp add: wallNormal64_def assms(1,2) d'(1) n1(1) n2(1))
  with d' n1(2) n2(2) show ?thesis by blast
qed



lemma wall_block64:
  assumes s: "ball_x s = Fin px" "ball_y s = Fin py" "ball_radius s = Fin r" "drumRadius s = Fin R"
    and d: "d = sqrt (px * px + py * py)" "1 / 2 ^ 500 \<le> d" "d \<le> 2 ^ 500"
    and r: "0 \<le> r" "r \<le> R" and R: "R \<le> 2 ^ 500"
  shows "\<exists>x' y'. ball_x (handleWall64 M s) = Fin x' \<and> ball_y (handleWall64 M s) = Fin y' \<and>
           (if wallTest64 s
            then \<bar>x' - px * ((R - r) / d)\<bar> \<le> u64 * (32 * d + 18 * R) \<and>
                 \<bar>y' - py * ((R - r) / d)\<bar> \<le> u64 * (32 * d + 18 * R)
            else x' = px \<and> y' = py \<and> d + r \<le> R + u64 * (11 * d + r))"
proof -
  have dpos: "0 < d" using d(2) by (rule less_le_trans [rotated]) simp
  have R0: "0 \<le> R" and rhi: "r \<le> 2 ^ 500" using r R by simp_all
  obtain d' n1 n2 where g: "ballDist64 s = Fin d'" "\<bar>d' - d\<bar> \<le> 8 * u64 * d"
      "wallNormal64 s = (Fin n1, Fin n2)"
      "\<bar>n1 - (- px) / d\<bar> \<le> 11 * u64" "\<bar>n2 - (- py) / d\<bar> \<le> 11 * u64"
    using wall_normal64 [OF s(1,2) d] by blast
  obtain s' where s': "radd (Fin d') (Fin r) = Fin s'" "\<bar>s' - (d + r)\<bar> \<le> u64 * (11 * d + r)"
      "R < s' \<longrightarrow> (\<exists>p'. rsub (Fin s') (Fin R) = Fin p' \<and>
          \<bar>p' - (d + r - R)\<bar> \<le> u64 * (13 * d + 3 * r))"
    using wall_penetration64 [OF d(2,3) g(2) r(1) rhi R0 R] by blast
  have t: "wallTest64 s = (R < s')"
    by (simp add: wallTest64_def g(1) s(3,4) s'(1) jgt_def)
  show ?thesis
  proof (cases "wallTest64 s")
    case False
    then have "s' \<le> R" by (simp add: t)
    then have "d + r \<le> R + u64 * (11 * d + r)" using s'(2) by argo
    with False show ?thesis by (simp add: handleWall64_idle s(1,2))
  next
    case True
    then have f: "R < s'" by (simp add: t)
    with s'(3) obtain p' where p': "rsub (Fin s') (Fin R) = Fin p'"
        "\<bar>p' - (d + r - R)\<bar> \<le> u64 * (13 * d + 3 * r)"
      by blast
    have pb: "\<bar>d + r - R\<bar> \<le> d + r"
      using f s'(2) R0 dpos r(1) unfolding u64_num by argo
    have cx: "\<bar>px\<bar> \<le> d" and cy: "\<bar>py\<bar> \<le> d"
      using component_le_norm [where a = px and b = py] by (simp_all add: d(1))
    obtain x' where x': "radd (Fin px) (rmul (Fin n1) (Fin p')) = Fin x'"
        "\<bar>x' - px * ((R - r) / d)\<bar> \<le> u64 * (32 * d + 18 * R)"
      using wall_correction64 [OF d(2,3) cx g(4) p'(2) pb r R] by blast
    obtain y' where y': "radd (Fin py) (rmul (Fin n2) (Fin p')) = Fin y'"
        "\<bar>y' - py * ((R - r) / d)\<bar> \<le> u64 * (32 * d + 18 * R)"
      using wall_correction64 [OF d(2,3) cy g(5) p'(2) pb r R] by blast
    have "ball_x (handleWall64 M s) = Fin x'" "ball_y (handleWall64 M s) = Fin y'"
      using handleWall64_position [OF True, of M]
      by (simp_all add: g(1,3) s s'(1) p'(1) x'(1) y'(1))
    with x'(2) y'(2) True show ?thesis by simp
  qed
qed



subsection \<open>Evaluating binary64 operations\<close>

text \<open>
  The value of \<open>fl\<close> at a given real: the significand \<open>m\<close> and the exponent \<open>-n\<close> of a
  binary64 value within half a unit in the last place of it.
\<close>

lemma rhe_eqI:
  assumes "\<bar>y - of_int k\<bar> < 1 / 2"
  shows "rhe y = k"
proof (cases "of_int k \<le> y")
  case True
  then have "\<lfloor>y\<rfloor> = k" using assms by (intro floor_unique) linarith+
  then show ?thesis using assms True by (simp add: rhe_def Let_def)
next
  case False
  then have "of_int (k - 1) \<le> y" "y < of_int (k - 1) + 1" using assms by simp_all
  then have f: "\<lfloor>y\<rfloor> = k - 1" by (rule floor_unique)
  have "1 / 2 < y - of_int (k - 1)" using assms False by simp
  then show ?thesis using f by (simp add: rhe_def Let_def)
qed

lemma floor_log2_eqI:
  fixes x :: real
  assumes "2 powr of_int e \<le> x" and "x < 2 powr (of_int e + 1)"
  shows "\<lfloor>log 2 x\<rfloor> = e"
proof -
  have xpos: "0 < x" using assms(1) by (rule less_le_trans [rotated]) simp
  have a: "of_int e \<le> log 2 x" using assms(1) xpos by (simp add: le_log_iff)
  have b: "log 2 x < of_int e + 1" using assms(2) xpos by (simp add: log_less_iff)
  from a b show ?thesis by (intro floor_unique) simp_all
qed

lemma rhe_tieI:
  assumes "\<bar>y - of_int k\<bar> = 1 / 2" and "even k"
  shows "rhe y = k"
proof (cases "of_int k \<le> y")
  case True
  then have y: "y = of_int k + 1 / 2" using assms(1) by simp
  then have "of_int k \<le> y" "y < of_int k + 1" by simp_all
  then have "\<lfloor>y\<rfloor> = k" by (rule floor_unique)
  then show ?thesis using y assms(2) by (simp add: rhe_def Let_def)
next
  case False
  then have y: "y = of_int k - 1 / 2" using assms(1) by simp
  then have "of_int (k - 1) \<le> y" "y < of_int (k - 1) + 1" by simp_all
  then have f: "\<lfloor>y\<rfloor> = k - 1" by (rule floor_unique)
  then show ?thesis using y assms(2) by (simp add: rhe_def Let_def)
qed

lemma fl_eq_rhe:
  fixes x :: real and n :: nat
  assumes k: "rhe (x * 2 ^ n) = k" "2 ^ 52 \<le> \<bar>k\<bar>" "\<bar>k\<bar> < 2 ^ 53" and n: "n \<le> 1074"
    and x: "2 ^ 52 \<le> \<bar>x\<bar> * 2 ^ n" "\<bar>x * 2 ^ n - of_int k\<bar> \<le> 1 / 2"
  shows "fl x = Fin (of_int k / 2 ^ n)"
proof -
  have x0: "x \<noteq> 0" using x(1) by auto
  have "\<bar>k\<bar> \<le> 2 ^ 53 - 1" using k(3) by simp
  then have "real_of_int \<bar>k\<bar> \<le> real_of_int (2 ^ 53 - 1)" by (simp only: of_int_le_iff)
  then have mb: "\<bar>real_of_int k\<bar> \<le> 2 ^ 53 - 1" by simp
  have "\<bar>x * 2 ^ n\<bar> \<le> \<bar>x * 2 ^ n - of_int k\<bar> + \<bar>real_of_int k\<bar>" by simp
  then have up: "\<bar>x\<bar> * 2 ^ n < 2 ^ 53" using x(2) mb by (simp add: abs_mult)
  define e :: int where "e = 52 - int n"
  have p: "(2 :: real) powr of_int e = 2 ^ 52 / 2 ^ n"
    by (simp add: e_def powr_diff powr_realpow)
  have p1: "(2 :: real) powr (of_int e + 1) = 2 ^ 53 / 2 ^ n"
    by (simp add: e_def powr_diff powr_add powr_realpow)
  have "2 powr of_int e \<le> \<bar>x\<bar>" using x(1) by (simp add: p field_simps)
  moreover have "\<bar>x\<bar> < 2 powr (of_int e + 1)" unfolding p1 using up by (simp add: field_simps)
  ultimately have fe: "\<lfloor>log 2 \<bar>x\<bar>\<rfloor> = e" by (rule floor_log2_eqI)
  have emax: "max e (- 1022) = e" using n by (simp add: e_def)
  have q: "(2 :: real) powr (of_int e - 52) = 1 / 2 ^ n"
    by (simp add: e_def powr_minus powr_realpow field_simps)
  have r: "rhe (x / (1 / 2 ^ n)) = k" using k(1) by simp
  have "\<bar>real_of_int k / 2 ^ n\<bar> \<le> \<bar>real_of_int k\<bar>"
    by (simp add: abs_divide field_simps mult_le_cancel_left1)
  also have "\<dots> < 2 powr 1024" using mb by simp
  finally have nov: "\<not> 2 powr 1024 \<le> \<bar>real_of_int k / 2 ^ n\<bar>" by simp
  show ?thesis
    using x0 nov unfolding fl_def Let_def fe emax q r by simp
qed

lemma fl_eq_dyadic:
  fixes x m :: real and n :: nat
  assumes m: "m \<in> \<int>" "2 ^ 52 \<le> \<bar>m\<bar>" "\<bar>m\<bar> < 2 ^ 53" and n: "n \<le> 1074"
    and x: "2 ^ 52 \<le> \<bar>x\<bar> * 2 ^ n" "\<bar>x * 2 ^ n - m\<bar> < 1 / 2"
  shows "fl x = Fin (m / 2 ^ n)"
proof -
  obtain k where k: "m = of_int k" using m(1) by (auto elim: Ints_cases)
  have "real_of_int (2 ^ 52) \<le> real_of_int \<bar>k\<bar>" "real_of_int \<bar>k\<bar> < real_of_int (2 ^ 53)"
    using m(2,3) by (simp_all add: k)
  then have kb: "2 ^ 52 \<le> \<bar>k\<bar>" "\<bar>k\<bar> < 2 ^ 53" by (simp_all only: of_int_le_iff of_int_less_iff)
  have r: "rhe (x * 2 ^ n) = k" using x(2) by (intro rhe_eqI) (simp add: k)
  have "\<bar>x * 2 ^ n - of_int k\<bar> \<le> 1 / 2" using x(2) by (simp add: k)
  from fl_eq_rhe [OF r kb n x(1) this] show ?thesis by (simp add: k)
qed

text \<open>A tie goes to the even significand.\<close>

lemma fl_eq_dyadic_tie:
  fixes x m :: real and n :: nat
  assumes m: "m / 2 \<in> \<int>" "2 ^ 52 \<le> \<bar>m\<bar>" "\<bar>m\<bar> < 2 ^ 53" and n: "n \<le> 1074"
    and x: "2 ^ 52 \<le> \<bar>x\<bar> * 2 ^ n" "\<bar>x * 2 ^ n - m\<bar> = 1 / 2"
  shows "fl x = Fin (m / 2 ^ n)"
proof -
  obtain j where j: "m / 2 = of_int j" using m(1) by (auto elim: Ints_cases)
  define k where "k = 2 * j"
  have k: "m = of_int k" using j by (simp add: k_def)
  have ev: "even k" by (simp add: k_def)
  have "real_of_int (2 ^ 52) \<le> real_of_int \<bar>k\<bar>" "real_of_int \<bar>k\<bar> < real_of_int (2 ^ 53)"
    using m(2,3) by (simp_all add: k)
  then have kb: "2 ^ 52 \<le> \<bar>k\<bar>" "\<bar>k\<bar> < 2 ^ 53" by (simp_all only: of_int_le_iff of_int_less_iff)
  have r: "rhe (x * 2 ^ n) = k" using x(2) ev by (intro rhe_tieI) (simp_all add: k)
  have "\<bar>x * 2 ^ n - of_int k\<bar> \<le> 1 / 2" using x(2) by (simp add: k)
  from fl_eq_rhe [OF r kb n x(1) this] show ?thesis by (simp add: k)
qed

lemma fl_sqrt_eq_dyadic:
  fixes c m lo hi :: real and n :: nat
  assumes m: "m \<in> \<int>" "2 ^ 52 \<le> m" "m < 2 ^ 53" and n: "n \<le> 1074"
    and lo: "0 \<le> lo" "lo * lo \<le> c" "2 ^ 52 \<le> lo * 2 ^ n" "m - 1 / 2 < lo * 2 ^ n"
    and hi: "0 < hi" "c < hi * hi" "hi * 2 ^ n \<le> m + 1 / 2"
  shows "fl (sqrt c) = Fin (m / 2 ^ n)"
proof -
  have "sqrt (lo * lo) \<le> sqrt c" using lo(2) by (rule real_sqrt_le_mono)
  then have a: "lo \<le> sqrt c" using lo(1) by simp
  have "sqrt c < sqrt (hi * hi)" using hi(2) by (rule real_sqrt_less_mono)
  then have b: "sqrt c < hi" using hi(1) by simp
  have a': "lo * 2 ^ n \<le> sqrt c * 2 ^ n" using a by (intro mult_right_mono) simp_all
  have b': "sqrt c * 2 ^ n < hi * 2 ^ n" using b by (intro mult_strict_right_mono) simp_all
  have s0: "0 \<le> sqrt c" using lo(1) a by (rule order_trans)
  show ?thesis
  proof (rule fl_eq_dyadic [OF m(1) _ _ n])
    show "2 ^ 52 \<le> \<bar>m\<bar>" using m(2) by simp
    show "\<bar>m\<bar> < 2 ^ 53" using m(2,3) by simp
    have "\<bar>sqrt c\<bar> = sqrt c" using s0 by (rule abs_of_nonneg)
    then show "2 ^ 52 \<le> \<bar>sqrt c\<bar> * 2 ^ n" using a' lo(3) by (simp only:)
    show "\<bar>sqrt c * 2 ^ n - m\<bar> < 1 / 2" using a' b' lo(4) hi(3) by argo
  qed
qed

lemma handleWall64_eval:
  assumes "ball_x s = x" and "ball_y s = y" and "ball_vx s = vx" and "ball_vy s = vy"
    and "ball_radius s = r" and "drumRadius s = R" and "ball_restitution s = e"
    and "rmul x x = a" and "rmul y y = b" and "radd a b = c" and "rsqrt c = d"
    and "radd d r = sm" and "jgt sm R" and "rsub sm R = p"
    and "rdiv (jneg x) d = nx" and "rdiv (jneg y) d = ny"
    and "rmul nx p = mx" and "radd x mx = x1" and "rmul ny p = my" and "radd y my = y1"
    and "rmul vx nx = t1" and "rmul vy ny = t2" and "radd t1 t2 = vn" and "jlt vn (Fin 0)"
    and "radd (Fin 1) e = f" and "rmul f vn = g1"
    and "rmul g1 nx = hx" and "rsub vx hx = ux" and "rmul g1 ny = hy" and "rsub vy hy = uy"
  shows "wallTest64 s" and "wallNormal64 s = (nx, ny)"
    and "normalVelocity64 (wallNormal64 s) s = vn"
    and "ball_x (handleWall64 M s) = x1" and "ball_y (handleWall64 M s) = y1"
    and "ball_vx (handleWall64 M s) = ux" and "ball_vy (handleWall64 M s) = uy"
  using assms
  by (simp_all add: handleWall64_def wallTest64_def ballDist64_def wallNormal64_def
      moveBall64_def normalVelocity64_def reflect64_def Let_def split: option.split)

lemma handleWall64_frame [simp]:
  "drumRadius (handleWall64 M s) = drumRadius s"
  "vaneCount (handleWall64 M s) = vaneCount s"
  "vaneHeight (handleWall64 M s) = vaneHeight s"
  "ball_radius (handleWall64 M s) = ball_radius s"
  by (simp_all add: handleWall64_def Let_def moveBall64_def reflect64_def split: option.split)

lemma math_pi_finite: "\<exists>z. math_pi = Fin z"
proof -
  have "\<bar>pi\<bar> \<le> 4" using pi_less_4 pi_gt_zero by simp
  also have "(4 :: real) \<le> 2 ^ 1023" by simp
  finally obtain z where "fl pi = Fin z" by (rule fl_errorE)
  then show ?thesis by (simp add: math_pi_def)
qed

text \<open>The first vane lies along the positive \<open>x\<close> axis: its angle is \<open>0\<close>.\<close>

lemma first_vane_angle:
  assumes "vaneCount s = Fin c" and "c \<noteq> 0"
  shows "rmul (rmul (rdiv (Fin (real 0)) (vaneCount s)) (Fin 2)) math_pi = Fin 0"
    and "m_cos roundedMath (Fin 0) = Fin 1" and "m_sin roundedMath (Fin 0) = Fin 0"
proof -
  obtain z where z: "math_pi = Fin z" using math_pi_finite by blast
  have f0: "fl 0 = Fin 0" by (simp add: fl_def)
  show "rmul (rmul (rdiv (Fin (real 0)) (vaneCount s)) (Fin 2)) math_pi = Fin 0"
    using assms by (simp add: rmul_def rdiv_def z f0)
  have "fl 1 = Fin (4503599627370496 / 2 ^ 52)" by (rule fl_eq_dyadic) simp_all
  then show "m_cos roundedMath (Fin 0) = Fin 1" by (simp add: roundedMath_def)
  show "m_sin roundedMath (Fin 0) = Fin 0" by (simp add: roundedMath_def f0)
qed

lemma first_vane64_eval:
  assumes "vaneCount s = Fin c" and "c \<noteq> 0"
    and "ball_x s = x" and "ball_y s = y" and "drumRadius s = R"
    and "rmul vir (Fin 1) = vx1" and "rmul vir (Fin 0) = vy1"
    and "rmul R (Fin 1) = vx2" and "rmul R (Fin 0) = vy2"
    and "rsub x vx1 = dx" and "rsub y vy1 = dy" and "rsub vx2 vx1 = vdx" and "rsub vy2 vy1 = vdy"
    and "rmul vdx vdx = l1" and "rmul vdy vdy = l2" and "radd l1 l2 = l3" and "rsqrt l3 = len"
    and "rmul dx vdx = p1" and "rmul dy vdy = p2" and "radd p1 p2 = p3" and "rmul len len = p4"
    and "rdiv p3 p4 = t"
  shows "vaneFrame64 roundedMath vir 0 s = (vx1, vy1, dx, dy, vdx, vdy, len)"
    and "vaneProjection64 roundedMath vir 0 s = t"
proof -
  show f: "vaneFrame64 roundedMath vir 0 s = (vx1, vy1, dx, dy, vdx, vdy, len)"
    unfolding vaneFrame64_def Let_def first_vane_angle [OF assms(1,2)]
    by (simp add: assms)
  show "vaneProjection64 roundedMath vir 0 s = t"
    by (simp add: vaneProjection64_def f assms)
qed


lemma checkVane64_miss:
  "\<not> vaneHit64 M vir i s \<Longrightarrow> checkVane64 M vir i s = s"
  by (simp add: checkVane64_def split: prod.split)


subsection \<open>The examples evaluated in binary64\<close>

text \<open>Each operation of the examples, rounded.\<close>

lemma binary64_step_1:
  "fl (3 / 5) = Fin (5404319552844595 / 2 ^ 53)"
  by (rule fl_eq_dyadic) simp_all

lemma binary64_step_2:
  "fl (4 / 5) = Fin (7205759403792794 / 2 ^ 53)"
  by (rule fl_eq_dyadic) simp_all

lemma binary64_step_3:
  "fl (7 / 200) = Fin (5044031582654956 / 2 ^ 57)"
  by (rule fl_eq_dyadic) simp_all

lemma binary64_step_4:
  "fl (3 / 10) = Fin (5404319552844595 / 2 ^ 54)"
  by (rule fl_eq_dyadic) simp_all

lemma binary64_step_5:
  "fl (7 / 10) = Fin (6305039478318694 / 2 ^ 53)"
  by (rule fl_eq_dyadic) simp_all

lemma binary64_step_6:
  "fl (1 / 100) = Fin (5764607523034235 / 2 ^ 59)"
  by (rule fl_eq_dyadic) simp_all

lemma binary64_step_7:
  "rsub (Fin 1) (Fin (5404319552844595 / 2 ^ 54)) = Fin (6305039478318694 / 2 ^ 53)"
proof -
  have "fl (1 - (5404319552844595 / 2 ^ 54)) = Fin (6305039478318694 / 2 ^ 53)"
    by (rule fl_eq_dyadic_tie) simp_all
  then show ?thesis by (simp add: rsub_def)
qed

lemma binary64_step_8:
  "rmul (Fin (7205759403792794 / 2 ^ 53)) (Fin (6305039478318694 / 2 ^ 53)) = Fin (5044031582654955 / 2 ^ 53)"
proof -
  have "fl ((7205759403792794 / 2 ^ 53) * (6305039478318694 / 2 ^ 53)) = Fin (5044031582654955 / 2 ^ 53)"
    by (rule fl_eq_dyadic) simp_all
  then show ?thesis by (simp add: rmul_def)
qed

lemma binary64_step_9:
  "rmul (Fin (5404319552844595 / 2 ^ 53)) (Fin (5404319552844595 / 2 ^ 53)) = Fin (6485183463413514 / 2 ^ 54)"
proof -
  have "fl ((5404319552844595 / 2 ^ 53) * (5404319552844595 / 2 ^ 53)) = Fin (6485183463413514 / 2 ^ 54)"
    by (rule fl_eq_dyadic) simp_all
  then show ?thesis by (simp add: rmul_def)
qed

lemma binary64_step_10:
  "rmul (Fin (7205759403792794 / 2 ^ 53)) (Fin (7205759403792794 / 2 ^ 53)) = Fin (5764607523034236 / 2 ^ 53)"
proof -
  have "fl ((7205759403792794 / 2 ^ 53) * (7205759403792794 / 2 ^ 53)) = Fin (5764607523034236 / 2 ^ 53)"
    by (rule fl_eq_dyadic) simp_all
  then show ?thesis by (simp add: rmul_def)
qed

lemma binary64_step_11:
  "radd (Fin (6485183463413514 / 2 ^ 54)) (Fin (5764607523034236 / 2 ^ 53)) = Fin 1"
proof -
  have "fl ((6485183463413514 / 2 ^ 54) + (5764607523034236 / 2 ^ 53)) = Fin (4503599627370496 / 2 ^ 52)"
    by (rule fl_eq_dyadic_tie) simp_all
  then show ?thesis by (simp add: radd_def)
qed

lemma binary64_step_12:
  "rsqrt (Fin 1) = Fin 1"
proof -
  have "sqrt 1 = 1"
    by (rule sqrt_eqI) simp_all
  moreover have "fl (1) = Fin (4503599627370496 / 2 ^ 52)"
    by (rule fl_eq_dyadic) simp_all
  ultimately show ?thesis by (simp add: rsqrt_def)
qed

lemma binary64_step_13:
  "radd (Fin 1) (Fin (5044031582654956 / 2 ^ 57)) = Fin (4661225614328463 / 2 ^ 52)"
proof -
  have "fl (1 + (5044031582654956 / 2 ^ 57)) = Fin (4661225614328463 / 2 ^ 52)"
    by (rule fl_eq_dyadic) simp_all
  then show ?thesis by (simp add: radd_def)
qed

lemma binary64_step_14:
  "jgt (Fin (4661225614328463 / 2 ^ 52)) (Fin (7205759403792794 / 2 ^ 53))"
  by (simp add: jgt_def jge_def)

lemma binary64_step_15:
  "rsub (Fin (4661225614328463 / 2 ^ 52)) (Fin (7205759403792794 / 2 ^ 53)) = Fin (8466767299456528 / 2 ^ 55)"
proof -
  have "fl ((4661225614328463 / 2 ^ 52) - (7205759403792794 / 2 ^ 53)) = Fin (8466767299456528 / 2 ^ 55)"
    by (rule fl_eq_dyadic) simp_all
  then show ?thesis by (simp add: rsub_def)
qed

lemma binary64_step_16:
  "rdiv (jneg (Fin (5404319552844595 / 2 ^ 53))) (Fin 1) = Fin (- 5404319552844595 / 2 ^ 53)"
proof -
  have "fl ((- 5404319552844595 / 2 ^ 53) / 1) = Fin (- 5404319552844595 / 2 ^ 53)"
    by (rule fl_eq_dyadic) simp_all
  then show ?thesis by (simp add: rdiv_def)
qed

lemma binary64_step_17:
  "rdiv (jneg (Fin (7205759403792794 / 2 ^ 53))) (Fin 1) = Fin (- 7205759403792794 / 2 ^ 53)"
proof -
  have "fl ((- 7205759403792794 / 2 ^ 53) / 1) = Fin (- 7205759403792794 / 2 ^ 53)"
    by (rule fl_eq_dyadic) simp_all
  then show ?thesis by (simp add: rdiv_def)
qed

lemma binary64_step_18:
  "rmul (Fin (- 5404319552844595 / 2 ^ 53)) (Fin (8466767299456528 / 2 ^ 55)) = Fin (- 5080060379673917 / 2 ^ 55)"
proof -
  have "fl ((- 5404319552844595 / 2 ^ 53) * (8466767299456528 / 2 ^ 55)) = Fin (- 5080060379673917 / 2 ^ 55)"
    by (rule fl_eq_dyadic) simp_all
  then show ?thesis by (simp add: rmul_def)
qed

lemma binary64_step_19:
  "radd (Fin (5404319552844595 / 2 ^ 53)) (Fin (- 5080060379673917 / 2 ^ 55)) = Fin (8268608915852232 / 2 ^ 54)"
proof -
  have "fl ((5404319552844595 / 2 ^ 53) + (- 5080060379673917 / 2 ^ 55)) = Fin (8268608915852232 / 2 ^ 54)"
    by (rule fl_eq_dyadic_tie) simp_all
  then show ?thesis by (simp add: radd_def)
qed

lemma binary64_step_20:
  "rmul (Fin (- 7205759403792794 / 2 ^ 53)) (Fin (8466767299456528 / 2 ^ 55)) = Fin (- 6773413839565223 / 2 ^ 55)"
proof -
  have "fl ((- 7205759403792794 / 2 ^ 53) * (8466767299456528 / 2 ^ 55)) = Fin (- 6773413839565223 / 2 ^ 55)"
    by (rule fl_eq_dyadic) simp_all
  then show ?thesis by (simp add: rmul_def)
qed

lemma binary64_step_21:
  "radd (Fin (7205759403792794 / 2 ^ 53)) (Fin (- 6773413839565223 / 2 ^ 55)) = Fin (5512405943901488 / 2 ^ 53)"
proof -
  have "fl ((7205759403792794 / 2 ^ 53) + (- 6773413839565223 / 2 ^ 55)) = Fin (5512405943901488 / 2 ^ 53)"
    by (rule fl_eq_dyadic) simp_all
  then show ?thesis by (simp add: radd_def)
qed

lemma binary64_step_22:
  "rmul (Fin 1) (Fin (- 5404319552844595 / 2 ^ 53)) = Fin (- 5404319552844595 / 2 ^ 53)"
proof -
  have "fl (1 * (- 5404319552844595 / 2 ^ 53)) = Fin (- 5404319552844595 / 2 ^ 53)"
    by (rule fl_eq_dyadic) simp_all
  then show ?thesis by (simp add: rmul_def)
qed

lemma binary64_step_23:
  "rmul (Fin 1) (Fin (- 7205759403792794 / 2 ^ 53)) = Fin (- 7205759403792794 / 2 ^ 53)"
proof -
  have "fl (1 * (- 7205759403792794 / 2 ^ 53)) = Fin (- 7205759403792794 / 2 ^ 53)"
    by (rule fl_eq_dyadic) simp_all
  then show ?thesis by (simp add: rmul_def)
qed

lemma binary64_step_24:
  "radd (Fin (- 5404319552844595 / 2 ^ 53)) (Fin (- 7205759403792794 / 2 ^ 53)) = Fin (- 6305039478318694 / 2 ^ 52)"
proof -
  have "fl ((- 5404319552844595 / 2 ^ 53) + (- 7205759403792794 / 2 ^ 53)) = Fin (- 6305039478318694 / 2 ^ 52)"
    by (rule fl_eq_dyadic_tie) simp_all
  then show ?thesis by (simp add: radd_def)
qed

lemma binary64_step_25:
  "jlt (Fin (- 6305039478318694 / 2 ^ 52)) (Fin 0)"
  by (simp add: jgt_def jge_def)

lemma binary64_step_26:
  "radd (Fin 1) (Fin 0) = Fin 1"
proof -
  have "fl (1 + 0) = Fin (4503599627370496 / 2 ^ 52)"
    by (rule fl_eq_dyadic) simp_all
  then show ?thesis by (simp add: radd_def)
qed

lemma binary64_step_27:
  "rmul (Fin 1) (Fin (- 6305039478318694 / 2 ^ 52)) = Fin (- 6305039478318694 / 2 ^ 52)"
proof -
  have "fl (1 * (- 6305039478318694 / 2 ^ 52)) = Fin (- 6305039478318694 / 2 ^ 52)"
    by (rule fl_eq_dyadic) simp_all
  then show ?thesis by (simp add: rmul_def)
qed

lemma binary64_step_28:
  "rmul (Fin (- 6305039478318694 / 2 ^ 52)) (Fin (- 5404319552844595 / 2 ^ 53)) = Fin (7566047373982433 / 2 ^ 53)"
proof -
  have "fl ((- 6305039478318694 / 2 ^ 52) * (- 5404319552844595 / 2 ^ 53)) = Fin (7566047373982433 / 2 ^ 53)"
    by (rule fl_eq_dyadic) simp_all
  then show ?thesis by (simp add: rmul_def)
qed

lemma binary64_step_29:
  "rsub (Fin 1) (Fin (7566047373982433 / 2 ^ 53)) = Fin (5764607523034236 / 2 ^ 55)"
proof -
  have "fl (1 - (7566047373982433 / 2 ^ 53)) = Fin (5764607523034236 / 2 ^ 55)"
    by (rule fl_eq_dyadic) simp_all
  then show ?thesis by (simp add: rsub_def)
qed

lemma binary64_step_30:
  "rmul (Fin (- 6305039478318694 / 2 ^ 52)) (Fin (- 7205759403792794 / 2 ^ 53)) = Fin (5044031582654955 / 2 ^ 52)"
proof -
  have "fl ((- 6305039478318694 / 2 ^ 52) * (- 7205759403792794 / 2 ^ 53)) = Fin (5044031582654955 / 2 ^ 52)"
    by (rule fl_eq_dyadic) simp_all
  then show ?thesis by (simp add: rmul_def)
qed

lemma binary64_step_31:
  "rsub (Fin 1) (Fin (5044031582654955 / 2 ^ 52)) = Fin (- 8646911284551344 / 2 ^ 56)"
proof -
  have "fl (1 - (5044031582654955 / 2 ^ 52)) = Fin (- 8646911284551344 / 2 ^ 56)"
    by (rule fl_eq_dyadic) simp_all
  then show ?thesis by (simp add: rsub_def)
qed







lemma binary64_step_38:
  "rmul (Fin (8268608915852232 / 2 ^ 54)) (Fin (8268608915852232 / 2 ^ 54)) = Fin (7590582984752350 / 2 ^ 55)"
proof -
  have "fl ((8268608915852232 / 2 ^ 54) * (8268608915852232 / 2 ^ 54)) = Fin (7590582984752350 / 2 ^ 55)"
    by (rule fl_eq_dyadic) simp_all
  then show ?thesis by (simp add: rmul_def)
qed

lemma binary64_step_39:
  "rmul (Fin (5512405943901488 / 2 ^ 53)) (Fin (5512405943901488 / 2 ^ 53)) = Fin (6747184875335422 / 2 ^ 54)"
proof -
  have "fl ((5512405943901488 / 2 ^ 53) * (5512405943901488 / 2 ^ 53)) = Fin (6747184875335422 / 2 ^ 54)"
    by (rule fl_eq_dyadic) simp_all
  then show ?thesis by (simp add: rmul_def)
qed

lemma binary64_step_40:
  "radd (Fin (7590582984752350 / 2 ^ 55)) (Fin (6747184875335422 / 2 ^ 54)) = Fin (5271238183855798 / 2 ^ 53)"
proof -
  have "fl ((7590582984752350 / 2 ^ 55) + (6747184875335422 / 2 ^ 54)) = Fin (5271238183855798 / 2 ^ 53)"
    by (rule fl_eq_dyadic_tie) simp_all
  then show ?thesis by (simp add: radd_def)
qed

lemma binary64_step_41:
  "rsqrt (Fin (5271238183855798 / 2 ^ 53)) = Fin (6890507429876860 / 2 ^ 53)"
proof -
  have "fl (sqrt (5271238183855798 / 2 ^ 53)) = Fin (6890507429876860 / 2 ^ 53)"
    by (rule fl_sqrt_eq_dyadic [where lo = "1763969902048476033 / 2 ^ 61" and hi = "1763969902048476034 / 2 ^ 61"]) simp_all
  then show ?thesis by (simp add: rsqrt_def)
qed

lemma binary64_step_42:
  "rsub (Fin (7205759403792794 / 2 ^ 53)) (Fin (5044031582654956 / 2 ^ 57)) = Fin (6890507429876859 / 2 ^ 53)"
proof -
  have "fl ((7205759403792794 / 2 ^ 53) - (5044031582654956 / 2 ^ 57)) = Fin (6890507429876859 / 2 ^ 53)"
    by (rule fl_eq_dyadic) simp_all
  then show ?thesis by (simp add: rsub_def)
qed

lemma binary64_step_43:
  "rmul (Fin (5044031582654955 / 2 ^ 53)) (Fin 1) = Fin (5044031582654955 / 2 ^ 53)"
proof -
  have "fl ((5044031582654955 / 2 ^ 53) * 1) = Fin (5044031582654955 / 2 ^ 53)"
    by (rule fl_eq_dyadic) simp_all
  then show ?thesis by (simp add: rmul_def)
qed

lemma binary64_step_44:
  "rmul (Fin (5044031582654955 / 2 ^ 53)) (Fin 0) = Fin 0"
  by (simp add: rmul_def fl_def)

lemma binary64_step_45:
  "rmul (Fin (7205759403792794 / 2 ^ 53)) (Fin 1) = Fin (7205759403792794 / 2 ^ 53)"
proof -
  have "fl ((7205759403792794 / 2 ^ 53) * 1) = Fin (7205759403792794 / 2 ^ 53)"
    by (rule fl_eq_dyadic) simp_all
  then show ?thesis by (simp add: rmul_def)
qed

lemma binary64_step_46:
  "rmul (Fin (7205759403792794 / 2 ^ 53)) (Fin 0) = Fin 0"
  by (simp add: rmul_def fl_def)

lemma binary64_step_47:
  "rsub (Fin (8268608915852232 / 2 ^ 54)) (Fin (5044031582654955 / 2 ^ 53)) = Fin (- 7277816997830712 / 2 ^ 56)"
proof -
  have "fl ((8268608915852232 / 2 ^ 54) - (5044031582654955 / 2 ^ 53)) = Fin (- 7277816997830712 / 2 ^ 56)"
    by (rule fl_eq_dyadic) simp_all
  then show ?thesis by (simp add: rsub_def)
qed

lemma binary64_step_48:
  "rsub (Fin (5512405943901488 / 2 ^ 53)) (Fin 0) = Fin (5512405943901488 / 2 ^ 53)"
proof -
  have "fl ((5512405943901488 / 2 ^ 53) - 0) = Fin (5512405943901488 / 2 ^ 53)"
    by (rule fl_eq_dyadic) simp_all
  then show ?thesis by (simp add: rsub_def)
qed

lemma binary64_step_49:
  "rsub (Fin (7205759403792794 / 2 ^ 53)) (Fin (5044031582654955 / 2 ^ 53)) = Fin (8646911284551356 / 2 ^ 55)"
proof -
  have "fl ((7205759403792794 / 2 ^ 53) - (5044031582654955 / 2 ^ 53)) = Fin (8646911284551356 / 2 ^ 55)"
    by (rule fl_eq_dyadic) simp_all
  then show ?thesis by (simp add: rsub_def)
qed

lemma binary64_step_50:
  "rsub (Fin 0) (Fin 0) = Fin 0"
  by (simp add: rsub_def fl_def)

lemma binary64_step_51:
  "rmul (Fin (8646911284551356 / 2 ^ 55)) (Fin (8646911284551356 / 2 ^ 55)) = Fin (8301034833169305 / 2 ^ 57)"
proof -
  have "fl ((8646911284551356 / 2 ^ 55) * (8646911284551356 / 2 ^ 55)) = Fin (8301034833169305 / 2 ^ 57)"
    by (rule fl_eq_dyadic) simp_all
  then show ?thesis by (simp add: rmul_def)
qed

lemma binary64_step_52:
  "rmul (Fin 0) (Fin 0) = Fin 0"
  by (simp add: rmul_def fl_def)

lemma binary64_step_53:
  "radd (Fin (8301034833169305 / 2 ^ 57)) (Fin 0) = Fin (8301034833169305 / 2 ^ 57)"
proof -
  have "fl ((8301034833169305 / 2 ^ 57) + 0) = Fin (8301034833169305 / 2 ^ 57)"
    by (rule fl_eq_dyadic) simp_all
  then show ?thesis by (simp add: radd_def)
qed

lemma binary64_step_54:
  "rsqrt (Fin (8301034833169305 / 2 ^ 57)) = Fin (8646911284551356 / 2 ^ 55)"
proof -
  have "fl (sqrt (8301034833169305 / 2 ^ 57)) = Fin (8646911284551356 / 2 ^ 55)"
    by (rule fl_sqrt_eq_dyadic [where lo = "2213609288845147096 / 2 ^ 63" and hi = "2213609288845147097 / 2 ^ 63"]) simp_all
  then show ?thesis by (simp add: rsqrt_def)
qed

lemma binary64_step_55:
  "rmul (Fin (- 7277816997830712 / 2 ^ 56)) (Fin (8646911284551356 / 2 ^ 55)) = Fin (- 6986704317917486 / 2 ^ 58)"
proof -
  have "fl ((- 7277816997830712 / 2 ^ 56) * (8646911284551356 / 2 ^ 55)) = Fin (- 6986704317917486 / 2 ^ 58)"
    by (rule fl_eq_dyadic) simp_all
  then show ?thesis by (simp add: rmul_def)
qed

lemma binary64_step_56:
  "rmul (Fin (5512405943901488 / 2 ^ 53)) (Fin 0) = Fin 0"
  by (simp add: rmul_def fl_def)

lemma binary64_step_57:
  "radd (Fin (- 6986704317917486 / 2 ^ 58)) (Fin 0) = Fin (- 6986704317917486 / 2 ^ 58)"
proof -
  have "fl ((- 6986704317917486 / 2 ^ 58) + 0) = Fin (- 6986704317917486 / 2 ^ 58)"
    by (rule fl_eq_dyadic) simp_all
  then show ?thesis by (simp add: radd_def)
qed

lemma binary64_step_58:
  "rdiv (Fin (- 6986704317917486 / 2 ^ 58)) (Fin (8301034833169305 / 2 ^ 57)) = Fin (- 7581059372740322 / 2 ^ 54)"
proof -
  have "fl ((- 6986704317917486 / 2 ^ 58) / (8301034833169305 / 2 ^ 57)) = Fin (- 7581059372740322 / 2 ^ 54)"
    by (rule fl_eq_dyadic) simp_all
  then show ?thesis by (simp add: rdiv_def)
qed

lemma binary64_step_59:
  "\<not> jge (Fin (- 7581059372740322 / 2 ^ 54)) (Fin 0)"
  by (simp add: jgt_def jge_def)

lemma binary64_step_60:
  "rsub (Fin 0) (Fin (5044031582654955 / 2 ^ 53)) = Fin (- 5044031582654955 / 2 ^ 53)"
proof -
  have "fl (0 - (5044031582654955 / 2 ^ 53)) = Fin (- 5044031582654955 / 2 ^ 53)"
    by (rule fl_eq_dyadic) simp_all
  then show ?thesis by (simp add: rsub_def)
qed

lemma binary64_step_61:
  "rmul (Fin (- 5044031582654955 / 2 ^ 53)) (Fin (8646911284551356 / 2 ^ 55)) = Fin (- 4842270319348759 / 2 ^ 55)"
proof -
  have "fl ((- 5044031582654955 / 2 ^ 53) * (8646911284551356 / 2 ^ 55)) = Fin (- 4842270319348759 / 2 ^ 55)"
    by (rule fl_eq_dyadic) simp_all
  then show ?thesis by (simp add: rmul_def)
qed

lemma binary64_step_62:
  "radd (Fin (- 4842270319348759 / 2 ^ 55)) (Fin 0) = Fin (- 4842270319348759 / 2 ^ 55)"
proof -
  have "fl ((- 4842270319348759 / 2 ^ 55) + 0) = Fin (- 4842270319348759 / 2 ^ 55)"
    by (rule fl_eq_dyadic) simp_all
  then show ?thesis by (simp add: radd_def)
qed

lemma binary64_step_63:
  "rdiv (Fin (- 4842270319348759 / 2 ^ 55)) (Fin (8301034833169305 / 2 ^ 57)) = Fin (- 5254199565265576 / 2 ^ 51)"
proof -
  have "fl ((- 4842270319348759 / 2 ^ 55) / (8301034833169305 / 2 ^ 57)) = Fin (- 5254199565265576 / 2 ^ 51)"
    by (rule fl_eq_dyadic) simp_all
  then show ?thesis by (simp add: rdiv_def)
qed







lemma binary64_step_70:
  "jge (Fin (5254199565265577 / 2 ^ 53)) (Fin 0)"
  by (simp add: jgt_def jge_def)

lemma binary64_step_71:
  "jle (Fin (5254199565265577 / 2 ^ 53)) (Fin 1)"
  by (simp add: jgt_def jge_def)











lemma binary64_step_82:
  "jlt (Fin (5764607523034235 / 2 ^ 59)) (Fin (5044031582654956 / 2 ^ 57))"
  by (simp add: jgt_def jge_def)









lemma binary64_step_91:
  "jlt (Fin (- 1)) (Fin 0)"
  by (simp add: jgt_def jge_def)


lemma roundingExample_fields:
  "ball_x roundingExample = Fin (5404319552844595 / 2 ^ 53)" "ball_y roundingExample = Fin (7205759403792794 / 2 ^ 53)"
  "ball_vx roundingExample = Fin 1" "ball_vy roundingExample = Fin 1"
  "ball_radius roundingExample = Fin (5044031582654956 / 2 ^ 57)" "drumRadius roundingExample = Fin (7205759403792794 / 2 ^ 53)"
  "ball_restitution roundingExample = Fin 0"
  "vaneCount roundingExample = Fin 1" "vaneHeight roundingExample = Fin (5404319552844595 / 2 ^ 54)"
  by (simp_all add: roundingExample_def onAxisExample_def roundingExample_def initialFields_def
      binary64_step_1 binary64_step_2 binary64_step_3 binary64_step_4 binary64_step_5 binary64_step_6)




lemma onAxisExample_fields:
  "ball_x onAxisExample = Fin 0" "ball_y onAxisExample = Fin 0"
  "ball_vx onAxisExample = Fin 1" "ball_vy onAxisExample = Fin 1"
  "ball_radius onAxisExample = Fin (5044031582654956 / 2 ^ 57)" "drumRadius onAxisExample = Fin (7205759403792794 / 2 ^ 53)"
  "ball_restitution onAxisExample = Fin 0"
  "vaneCount onAxisExample = Fin 1" "vaneHeight onAxisExample = Fin (5404319552844595 / 2 ^ 54)"
  by (simp_all add: onAxisExample_def onAxisExample_def roundingExample_def initialFields_def
      binary64_step_1 binary64_step_2 binary64_step_3 binary64_step_4 binary64_step_5 binary64_step_6)




lemma roundingExample_wall:
  "wallTest64 roundingExample"
  "wallNormal64 roundingExample = (Fin (- 5404319552844595 / 2 ^ 53), Fin (- 7205759403792794 / 2 ^ 53))"
  "normalVelocity64 (wallNormal64 roundingExample) roundingExample = Fin (- 6305039478318694 / 2 ^ 52)"
  "ball_x (handleWall64 M roundingExample) = Fin (8268608915852232 / 2 ^ 54)"
  "ball_y (handleWall64 M roundingExample) = Fin (5512405943901488 / 2 ^ 53)"
  "ball_vx (handleWall64 M roundingExample) = Fin (5764607523034236 / 2 ^ 55)"
  "ball_vy (handleWall64 M roundingExample) = Fin (- 8646911284551344 / 2 ^ 56)"
  by (rule handleWall64_eval [OF roundingExample_fields(1-7)
        binary64_step_9 binary64_step_10 binary64_step_11 binary64_step_12 binary64_step_13 binary64_step_14 binary64_step_15 binary64_step_16 binary64_step_17 binary64_step_18 binary64_step_19 binary64_step_20 binary64_step_21 binary64_step_22 binary64_step_23 binary64_step_24 binary64_step_25 binary64_step_26 binary64_step_27 binary64_step_28 binary64_step_29 binary64_step_30 binary64_step_31])+




lemma example_norm_range:
  fixes a b :: real
  assumes "1 / 2 ^ 500 \<le> \<bar>b\<bar>" and "\<bar>a\<bar> + \<bar>b\<bar> \<le> 2 ^ 500"
  shows "1 / 2 ^ 500 \<le> sqrt (a * a + b * b)" and "sqrt (a * a + b * b) \<le> 2 ^ 500"
proof -
  show "1 / 2 ^ 500 \<le> sqrt (a * a + b * b)"
    using assms(1) component_le_norm(2) [of b a] by (rule order_trans)
  have "sqrt (a * a + b * b) \<le> \<bar>a\<bar> + \<bar>b\<bar>"
    using sqrt_sum_squares_le_sum_abs [of a b] by (simp add: power2_eq_square)
  then show "sqrt (a * a + b * b) \<le> 2 ^ 500" using assms(2) by (rule order_trans)
qed

lemma vane_inner_radius_example:
  "rmul (Fin (7205759403792794 / 2 ^ 53)) (rsub (Fin 1) (Fin (5404319552844595 / 2 ^ 54))) = (Fin (5044031582654955 / 2 ^ 53))"
  by (simp only: binary64_step_7 binary64_step_8)

text \<open>After the wall block the ball of the first example lies before the inner end of
  the vane: the projection parameter is negative.\<close>

lemma roundingExample_vane:
  "checkVane64 roundedMath (Fin (5044031582654955 / 2 ^ 53)) 0 (handleWall64 roundedMath roundingExample) =
     handleWall64 roundedMath roundingExample"
proof -
  have c: "vaneCount (handleWall64 roundedMath roundingExample) = Fin 1" "(1 :: real) \<noteq> 0"
    by (simp_all add: roundingExample_fields)
  have d: "drumRadius (handleWall64 roundedMath roundingExample) = Fin (7205759403792794 / 2 ^ 53)"
    by (simp add: roundingExample_fields)
  have "vaneProjection64 roundedMath (Fin (5044031582654955 / 2 ^ 53)) 0 (handleWall64 roundedMath roundingExample) =
      Fin (- 7581059372740322 / 2 ^ 54)"
    by (rule first_vane64_eval(2) [OF c roundingExample_wall(4,5) d
          binary64_step_43 binary64_step_44 binary64_step_45 binary64_step_46 binary64_step_47 binary64_step_48 binary64_step_49 binary64_step_50 binary64_step_51 binary64_step_52 binary64_step_53 binary64_step_54 binary64_step_55 binary64_step_56 binary64_step_57 binary64_step_51 binary64_step_58])
  then have "\<not> vaneHit64 roundedMath (Fin (5044031582654955 / 2 ^ 53)) 0 (handleWall64 roundedMath roundingExample)"
    by (simp add: vaneHit64_def jge_def)
  then show ?thesis by (rule checkVane64_miss)
qed

lemma onAxisExample_vane:
  "checkVane64 roundedMath (Fin (5044031582654955 / 2 ^ 53)) 0 onAxisExample = onAxisExample"
proof -
  have c: "(1 :: real) \<noteq> 0" by simp
  have "vaneProjection64 roundedMath (Fin (5044031582654955 / 2 ^ 53)) 0 onAxisExample = Fin (- 5254199565265576 / 2 ^ 51)"
    by (rule first_vane64_eval(2) [OF onAxisExample_fields(8) c onAxisExample_fields(1,2,6)
          binary64_step_43 binary64_step_44 binary64_step_45 binary64_step_46 binary64_step_60 binary64_step_50 binary64_step_49 binary64_step_50 binary64_step_51 binary64_step_52 binary64_step_53 binary64_step_54 binary64_step_61 binary64_step_52 binary64_step_62 binary64_step_51 binary64_step_63])
  then have "\<not> vaneHit64 roundedMath (Fin (5044031582654955 / 2 ^ 53)) 0 onAxisExample"
    by (simp add: vaneHit64_def jge_def)
  then show ?thesis by (rule checkVane64_miss)
qed


subsection \<open>The wall correction\<close>

lemma corrected_position_values:
  assumes "\<exists>x' y'. p = Fin x' \<and> q = Fin y' \<and> A x' \<and> B y' \<and> C x' y'"
    and "p = Fin x0" and "q = Fin y0"
  shows "A x0 \<and> B y0 \<and> C x0 y0"
  using assms by auto

lemma sqrt_neqI:
  fixes a b :: real
  assumes "0 \<le> b" and "a \<noteq> b * b"
  shows "sqrt a \<noteq> b"
proof
  assume "sqrt a = b"
  then have "sqrt a = sqrt (b * b)" using assms(1) by simp
  then have "a = b * b" by (simp only: real_sqrt_eq_iff)
  with assms(2) show False by simp
qed

lemma atan2_neqI:
  fixes x y x' y' :: real
  assumes "0 < x" and "0 < x'" and "y * x' \<noteq> y' * x"
  shows "atan2 y x \<noteq> atan2 y' x'"
proof
  assume "atan2 y x = atan2 y' x'"
  then have "arctan (y / x) = arctan (y' / x')" using assms(1,2) by (simp add: atan2_def)
  then have "y / x = y' / x'" by (simp only: arctan_eq_iff)
  then have "y * x' = y' * x" using assms(1,2) by (simp add: field_simps)
  with assms(3) show False by simp
qed

lemma ballDist64_eval:
  assumes "ball_x s = x" and "ball_y s = y"
    and "rmul x x = a" and "rmul y y = b" and "radd a b = c" and "rsqrt c = d"
  shows "ballDist64 s = d"
  using assms by (simp add: ballDist64_def)

text \<open>
  C10 (as amended). When the wall test fires on a finite state with \<open>0 \<le> ballRadius <
  drumRadius\<close> (the ball between \<open>2\<^sup>-\<^sup>5\<^sup>0\<^sup>0\<close> and \<open>2\<^sup>5\<^sup>0\<^sup>0\<close> from the axis, the drum radius at
  most \<open>2\<^sup>5\<^sup>0\<^sup>0\<close>), the point \<open>k * (x, y)\<close> with \<open>k = (drumRadius - ballRadius) / ballDist >
  0\<close> lies at the distance \<open>drumRadius - ballRadius\<close> from the axis, at the angle of
  \<open>(x, y)\<close>; the program's corrected position is within
  \<open>2\<^sup>-\<^sup>5\<^sup>3 * (32 * ballDist + 18 * drumRadius)\<close> of it in each coordinate, and its distance
  from the axis within twice that of \<open>drumRadius - ballRadius\<close>.
\<close>

theorem wall_correction_scales_position:
  assumes "ball_x s = Fin px" and "ball_y s = Fin py"
    and "ball_radius s = Fin r" and "drumRadius s = Fin R"
    and "d = sqrt (px * px + py * py)" and "1 / 2 ^ 500 \<le> d" and "d \<le> 2 ^ 500"
    and "0 \<le> r" and "r < R" and "R \<le> 2 ^ 500"
    and "wallTest64 s"
    and "k = (R - r) / d"
  shows "0 < k \<and> sqrt ((px * k) * (px * k) + (py * k) * (py * k)) = R - r \<and>
         atan2 (py * k) (px * k) = atan2 py px \<and>
         (\<exists>x' y'. ball_x (handleWall64 M s) = Fin x' \<and> ball_y (handleWall64 M s) = Fin y' \<and>
            \<bar>x' - px * k\<bar> \<le> u64 * (32 * d + 18 * R) \<and>
            \<bar>y' - py * k\<bar> \<le> u64 * (32 * d + 18 * R) \<and>
            \<bar>sqrt (x' * x' + y' * y') - (R - r)\<bar> \<le> u64 * (64 * d + 36 * R))"
proof -
  have dpos: "0 < d" using assms(6) by (rule less_le_trans [rotated]) simp
  have k: "0 < k" using assms(9) dpos by (simp add: assms(12))
  have n: "sqrt ((px * k) * (px * k) + (py * k) * (py * k)) = R - r"
    using scaled_norm [of k px py] k dpos by (simp add: assms(5) [symmetric] assms(12))
  have a: "atan2 (py * k) (px * k) = atan2 py px" using k by (rule atan2_scale)
  obtain x' y' where p: "ball_x (handleWall64 M s) = Fin x'" "ball_y (handleWall64 M s) = Fin y'"
      "\<bar>x' - px * k\<bar> \<le> u64 * (32 * d + 18 * R)" "\<bar>y' - py * k\<bar> \<le> u64 * (32 * d + 18 * R)"
    using wall_block64 [OF assms(1-8) less_imp_le [OF assms(9)] assms(10), of M] assms(11)
    by (auto simp add: assms(12))
  have "\<bar>sqrt (x' * x' + y' * y') - (R - r)\<bar> \<le> \<bar>x' - px * k\<bar> + \<bar>y' - py * k\<bar>"
    using norm_diff_bound [of x' y' "px * k" "py * k"] by (simp only: n)
  then have "\<bar>sqrt (x' * x' + y' * y') - (R - r)\<bar> \<le> u64 * (64 * d + 36 * R)"
    using p(3,4) by argo
  with k n a p show ?thesis by blast
qed

theorem wall_correction_scales_position_witness:
  "ball_x roundingExample = Fin (5404319552844595 / 2 ^ 53) \<and> ball_y roundingExample = Fin (7205759403792794 / 2 ^ 53) \<and>
   ball_radius roundingExample = Fin (5044031582654956 / 2 ^ 57) \<and> drumRadius roundingExample = Fin (7205759403792794 / 2 ^ 53) \<and>
   wallTest64 roundingExample \<and>
   0 < (((7205759403792794 / 2 ^ 53) - (5044031582654956 / 2 ^ 57)) / sqrt ((5404319552844595 / 2 ^ 53) * (5404319552844595 / 2 ^ 53) + (7205759403792794 / 2 ^ 53) * (7205759403792794 / 2 ^ 53))) \<and>
   sqrt (((5404319552844595 / 2 ^ 53) * (((7205759403792794 / 2 ^ 53) - (5044031582654956 / 2 ^ 57)) / sqrt ((5404319552844595 / 2 ^ 53) * (5404319552844595 / 2 ^ 53) + (7205759403792794 / 2 ^ 53) * (7205759403792794 / 2 ^ 53)))) * ((5404319552844595 / 2 ^ 53) * (((7205759403792794 / 2 ^ 53) - (5044031582654956 / 2 ^ 57)) / sqrt ((5404319552844595 / 2 ^ 53) * (5404319552844595 / 2 ^ 53) + (7205759403792794 / 2 ^ 53) * (7205759403792794 / 2 ^ 53)))) + ((7205759403792794 / 2 ^ 53) * (((7205759403792794 / 2 ^ 53) - (5044031582654956 / 2 ^ 57)) / sqrt ((5404319552844595 / 2 ^ 53) * (5404319552844595 / 2 ^ 53) + (7205759403792794 / 2 ^ 53) * (7205759403792794 / 2 ^ 53)))) * ((7205759403792794 / 2 ^ 53) * (((7205759403792794 / 2 ^ 53) - (5044031582654956 / 2 ^ 57)) / sqrt ((5404319552844595 / 2 ^ 53) * (5404319552844595 / 2 ^ 53) + (7205759403792794 / 2 ^ 53) * (7205759403792794 / 2 ^ 53))))) = (7205759403792794 / 2 ^ 53) - (5044031582654956 / 2 ^ 57) \<and>
   atan2 ((7205759403792794 / 2 ^ 53) * (((7205759403792794 / 2 ^ 53) - (5044031582654956 / 2 ^ 57)) / sqrt ((5404319552844595 / 2 ^ 53) * (5404319552844595 / 2 ^ 53) + (7205759403792794 / 2 ^ 53) * (7205759403792794 / 2 ^ 53)))) ((5404319552844595 / 2 ^ 53) * (((7205759403792794 / 2 ^ 53) - (5044031582654956 / 2 ^ 57)) / sqrt ((5404319552844595 / 2 ^ 53) * (5404319552844595 / 2 ^ 53) + (7205759403792794 / 2 ^ 53) * (7205759403792794 / 2 ^ 53)))) = atan2 (7205759403792794 / 2 ^ 53) (5404319552844595 / 2 ^ 53) \<and>
   ball_x (handleWall64 roundedMath roundingExample) = Fin (8268608915852232 / 2 ^ 54) \<and>
   ball_y (handleWall64 roundedMath roundingExample) = Fin (5512405943901488 / 2 ^ 53) \<and>
   \<bar>(8268608915852232 / 2 ^ 54) - (5404319552844595 / 2 ^ 53) * (((7205759403792794 / 2 ^ 53) - (5044031582654956 / 2 ^ 57)) / sqrt ((5404319552844595 / 2 ^ 53) * (5404319552844595 / 2 ^ 53) + (7205759403792794 / 2 ^ 53) * (7205759403792794 / 2 ^ 53)))\<bar> \<le> u64 * (32 * sqrt ((5404319552844595 / 2 ^ 53) * (5404319552844595 / 2 ^ 53) + (7205759403792794 / 2 ^ 53) * (7205759403792794 / 2 ^ 53)) + 18 * (7205759403792794 / 2 ^ 53)) \<and>
   \<bar>(5512405943901488 / 2 ^ 53) - (7205759403792794 / 2 ^ 53) * (((7205759403792794 / 2 ^ 53) - (5044031582654956 / 2 ^ 57)) / sqrt ((5404319552844595 / 2 ^ 53) * (5404319552844595 / 2 ^ 53) + (7205759403792794 / 2 ^ 53) * (7205759403792794 / 2 ^ 53)))\<bar> \<le> u64 * (32 * sqrt ((5404319552844595 / 2 ^ 53) * (5404319552844595 / 2 ^ 53) + (7205759403792794 / 2 ^ 53) * (7205759403792794 / 2 ^ 53)) + 18 * (7205759403792794 / 2 ^ 53)) \<and>
   \<bar>sqrt ((8268608915852232 / 2 ^ 54) * (8268608915852232 / 2 ^ 54) + (5512405943901488 / 2 ^ 53) * (5512405943901488 / 2 ^ 53)) - ((7205759403792794 / 2 ^ 53) - (5044031582654956 / 2 ^ 57))\<bar> \<le> u64 * (64 * sqrt ((5404319552844595 / 2 ^ 53) * (5404319552844595 / 2 ^ 53) + (7205759403792794 / 2 ^ 53) * (7205759403792794 / 2 ^ 53)) + 36 * (7205759403792794 / 2 ^ 53))"
proof -
  have d: "1 / 2 ^ 500 \<le> sqrt ((5404319552844595 / 2 ^ 53) * (5404319552844595 / 2 ^ 53) + (7205759403792794 / 2 ^ 53) * (7205759403792794 / 2 ^ 53))" "sqrt ((5404319552844595 / 2 ^ 53) * (5404319552844595 / 2 ^ 53) + (7205759403792794 / 2 ^ 53) * (7205759403792794 / 2 ^ 53)) \<le> 2 ^ 500"
    by (rule example_norm_range; simp)+
  have v: "(0 :: real) \<le> (5044031582654956 / 2 ^ 57)" "((5044031582654956 / 2 ^ 57) :: real) < (7205759403792794 / 2 ^ 53)" "((7205759403792794 / 2 ^ 53) :: real) \<le> 2 ^ 500"
    by simp_all
  note t = wall_correction_scales_position [OF roundingExample_fields(1,2,5,6) refl d v
      roundingExample_wall(1) refl, of roundedMath]
  note p = corrected_position_values [OF t [THEN conjunct2, THEN conjunct2, THEN conjunct2]
      roundingExample_wall(4,5) [of roundedMath]]
  from t [THEN conjunct1] t [THEN conjunct2, THEN conjunct1]
    t [THEN conjunct2, THEN conjunct2, THEN conjunct1] p
    roundingExample_fields(1,2,5,6) roundingExample_wall(1) roundingExample_wall(4,5) [of roundedMath]
  show ?thesis by (intro conjI) (elim conjE, assumption)+
qed

text \<open>
  As the specification words it, the property fails on the first example, where the
  wall test fires: the corrected position \<open>(0.4590000000000001, 0.6120000000000001)\<close> is
  not at the distance \<open>drumRadius - ballRadius\<close> from the axis and not at the angle of the
  position before, and the distance that the program itself computes for it,
  \<open>0.7650000000000001\<close>, is not its \<open>drumRadius - ballRadius = 0.765\<close>.
\<close>

theorem wall_correction_rounds:
  "wallTest64 roundingExample \<and>
   ball_x roundingExample = Fin (5404319552844595 / 2 ^ 53) \<and> ball_y roundingExample = Fin (7205759403792794 / 2 ^ 53) \<and>
   ball_radius roundingExample = Fin (5044031582654956 / 2 ^ 57) \<and> drumRadius roundingExample = Fin (7205759403792794 / 2 ^ 53) \<and>
   (0 :: real) < (5044031582654956 / 2 ^ 57) \<and> ((5044031582654956 / 2 ^ 57) :: real) < (7205759403792794 / 2 ^ 53) \<and>
   ball_x (handleWall64 roundedMath roundingExample) = Fin (8268608915852232 / 2 ^ 54) \<and>
   ball_y (handleWall64 roundedMath roundingExample) = Fin (5512405943901488 / 2 ^ 53) \<and>
   sqrt ((8268608915852232 / 2 ^ 54) * (8268608915852232 / 2 ^ 54) + (5512405943901488 / 2 ^ 53) * (5512405943901488 / 2 ^ 53)) \<noteq> (7205759403792794 / 2 ^ 53) - (5044031582654956 / 2 ^ 57) \<and>
   atan2 (5512405943901488 / 2 ^ 53) (8268608915852232 / 2 ^ 54) \<noteq> atan2 (7205759403792794 / 2 ^ 53) (5404319552844595 / 2 ^ 53) \<and>
   ballDist64 (handleWall64 roundedMath roundingExample) = Fin (6890507429876860 / 2 ^ 53) \<and>
   rsub (drumRadius roundingExample) (ball_radius roundingExample) = Fin (6890507429876859 / 2 ^ 53) \<and>
   ((6890507429876860 / 2 ^ 53) :: real) \<noteq> (6890507429876859 / 2 ^ 53)"
proof -
  have a: "sqrt ((8268608915852232 / 2 ^ 54) * (8268608915852232 / 2 ^ 54) + (5512405943901488 / 2 ^ 53) * (5512405943901488 / 2 ^ 53)) \<noteq> (7205759403792794 / 2 ^ 53) - (5044031582654956 / 2 ^ 57)"
    by (rule sqrt_neqI) simp_all
  have b: "atan2 (5512405943901488 / 2 ^ 53) (8268608915852232 / 2 ^ 54) \<noteq> atan2 (7205759403792794 / 2 ^ 53) (5404319552844595 / 2 ^ 53)"
    by (rule atan2_neqI) simp_all
  have c: "ballDist64 (handleWall64 roundedMath roundingExample) = Fin (6890507429876860 / 2 ^ 53)"
    by (rule ballDist64_eval [OF roundingExample_wall(4,5) [of roundedMath]
          binary64_step_38 binary64_step_39 binary64_step_40 binary64_step_41])
  have e: "rsub (drumRadius roundingExample) (ball_radius roundingExample) = Fin (6890507429876859 / 2 ^ 53)"
    by (simp only: roundingExample_fields(5,6) binary64_step_42)
  have f: "(0 :: real) < (5044031582654956 / 2 ^ 57)" "((5044031582654956 / 2 ^ 57) :: real) < (7205759403792794 / 2 ^ 53)" "((6890507429876860 / 2 ^ 53) :: real) \<noteq> (6890507429876859 / 2 ^ 53)"
    by simp_all
  from a b c e f roundingExample_fields(1,2,5,6) roundingExample_wall(1)
    roundingExample_wall(4,5) [of roundedMath]
  show ?thesis by (intro conjI)
qed

subsection \<open>Containment\<close>

lemma contained_values:
  assumes "\<exists>x y. p = Fin x \<and> q = Fin y \<and> C x y" and "p = Fin x0" and "q = Fin y0"
  shows "C x0 y0"
  using assms by auto

lemma wall_block64_on_axis:
  assumes s: "ball_x s = Fin 0" "ball_y s = Fin 0" "ball_radius s = Fin r" "drumRadius s = Fin R"
    and r: "fl r = Fin r" "r \<le> R"
  shows "handleWall64 M s = s"
proof -
  have f0: "fl 0 = Fin 0" by (simp add: fl_def)
  have "ballDist64 s = Fin 0"
    by (simp add: ballDist64_def s rsqrt_def radd_def rmul_def f0)
  then have "\<not> wallTest64 s"
    using r by (simp add: wallTest64_def s radd_def jgt_def)
  then show ?thesis by (rule handleWall64_idle)
qed

text \<open>
  C1 (as amended). On a finite state with \<open>0 \<le> ballRadius \<le> drumRadius \<le> 2\<^sup>5\<^sup>0\<^sup>0\<close>, the ball
  between \<open>2\<^sup>-\<^sup>5\<^sup>0\<^sup>0\<close> and \<open>2\<^sup>5\<^sup>0\<^sup>0\<close> from the axis, or on the axis with a radius that is a
  binary64 value, the wall block of \<open>handleCollisions\<close> leaves the ball with its distance
  from the axis plus its radius at most \<open>drumRadius + \<epsilon>\<close>, where
  \<open>\<epsilon> = 2\<^sup>-\<^sup>5\<^sup>3 * (64 * ballDist + 36 * drumRadius)\<close> and \<open>ballDist\<close> is the distance before the
  call; and when no round of the vane loop changes that state, \<open>handleCollisions\<close> returns
  it. Nothing is said of the state after a vane has moved the ball: the wall is not tested
  again.
\<close>

theorem containment_after_wall:
  assumes "ball_x s = Fin px" and "ball_y s = Fin py"
    and "ball_radius s = Fin r" and "drumRadius s = Fin R"
    and "d = sqrt (px * px + py * py)"
    and "1 / 2 ^ 500 \<le> d \<or> d = 0 \<and> fl r = Fin r" and "d \<le> 2 ^ 500"
    and "0 \<le> r" and "r \<le> R" and "R \<le> 2 ^ 500"
    and "loopCount (vaneCount s) = Some n"
  shows "(\<exists>x y. ball_x (handleWall64 M s) = Fin x \<and> ball_y (handleWall64 M s) = Fin y \<and>
            sqrt (x * x + y * y) + r \<le> R + u64 * (64 * d + 36 * R)) \<and>
         ((\<forall>i<n. checkVane64 M (rmul (drumRadius s) (rsub (Fin 1) (vaneHeight s))) i
                  (handleWall64 M s) = handleWall64 M s) \<longrightarrow>
            handleCollisions64 M s = Some (handleWall64 M s))"
proof -
  have R0: "0 \<le> R" using assms(8,9) by simp
  have c: "\<exists>x y. ball_x (handleWall64 M s) = Fin x \<and> ball_y (handleWall64 M s) = Fin y \<and>
      sqrt (x * x + y * y) + r \<le> R + u64 * (64 * d + 36 * R)"
  proof (cases "1 / 2 ^ 500 \<le> d")
    case far: True
    have dpos: "0 < d" using far by (rule less_le_trans [rotated]) simp
    obtain x y where p: "ball_x (handleWall64 M s) = Fin x" "ball_y (handleWall64 M s) = Fin y"
        "if wallTest64 s
         then \<bar>x - px * ((R - r) / d)\<bar> \<le> u64 * (32 * d + 18 * R) \<and>
              \<bar>y - py * ((R - r) / d)\<bar> \<le> u64 * (32 * d + 18 * R)
         else x = px \<and> y = py \<and> d + r \<le> R + u64 * (11 * d + r)"
      using wall_block64 [OF assms(1-5) far assms(7-10), of M] by blast
    have "sqrt (x * x + y * y) + r \<le> R + u64 * (64 * d + 36 * R)"
    proof (cases "wallTest64 s")
      case False
      with p(3) have xy: "x = px" "y = py" and le: "d + r \<le> R + u64 * (11 * d + r)"
        by simp_all
      have "sqrt (x * x + y * y) = d" by (simp only: xy assms(5))
      then show ?thesis using le dpos R0 assms(8,9) unfolding u64_num by argo
    next
      case True
      define k where "k = (R - r) / d"
      have k: "0 \<le> k" using assms(9) dpos by (simp add: k_def)
      have n: "sqrt ((px * k) * (px * k) + (py * k) * (py * k)) = R - r"
        using scaled_norm [of k px py] k dpos by (simp add: assms(5) [symmetric] k_def)
      from True p(3) have e: "\<bar>x - px * k\<bar> \<le> u64 * (32 * d + 18 * R)"
          "\<bar>y - py * k\<bar> \<le> u64 * (32 * d + 18 * R)"
        by (simp_all add: k_def)
      have "\<bar>sqrt (x * x + y * y) - (R - r)\<bar> \<le> \<bar>x - px * k\<bar> + \<bar>y - py * k\<bar>"
        using norm_diff_bound [of x y "px * k" "py * k"] by (simp only: n)
      then show ?thesis using e by argo
    qed
    with p(1,2) show ?thesis by blast
  next
    case False
    with assms(6) have d0: "d = 0" and rr: "fl r = Fin r" by simp_all
    have "px * px + py * py = 0" using d0 by (simp add: assms(5))
    then have z: "px = 0" "py = 0" by (simp_all add: add_nonneg_eq_0_iff)
    have "handleWall64 M s = s"
      using assms(1-4) rr assms(9) unfolding z by (rule wall_block64_on_axis)
    then have "ball_x (handleWall64 M s) = Fin 0" "ball_y (handleWall64 M s) = Fin 0"
      using assms(1,2) by (simp_all add: z)
    moreover have "sqrt (0 * 0 + 0 * 0) + r \<le> R + u64 * (64 * d + 36 * R)"
      using assms(9) R0 unfolding d0 u64_num by simp
    ultimately show ?thesis by blast
  qed
  have v: "vaneCount (handleWall64 M s) = vaneCount s"
      "drumRadius (handleWall64 M s) = drumRadius s"
      "vaneHeight (handleWall64 M s) = vaneHeight s"
    by (simp_all add: handleWall64_def Let_def moveBall64_def reflect64_def split: option.split)
  have "(\<forall>i<n. checkVane64 M (rmul (drumRadius s) (rsub (Fin 1) (vaneHeight s))) i
            (handleWall64 M s) = handleWall64 M s) \<longrightarrow>
        handleCollisions64 M s = Some (handleWall64 M s)"
    by (simp add: handleCollisions64_def checkVaneCollisions64_def v assms(11) fold_idle)
  with c show ?thesis by blast
qed

theorem containment_after_wall_witness:
  "ball_x roundingExample = Fin (5404319552844595 / 2 ^ 53) \<and> ball_y roundingExample = Fin (7205759403792794 / 2 ^ 53) \<and>
   ball_radius roundingExample = Fin (5044031582654956 / 2 ^ 57) \<and> drumRadius roundingExample = Fin (7205759403792794 / 2 ^ 53) \<and>
   loopCount (vaneCount roundingExample) = Some 1 \<and>
   ball_x (handleWall64 roundedMath roundingExample) = Fin (8268608915852232 / 2 ^ 54) \<and>
   ball_y (handleWall64 roundedMath roundingExample) = Fin (5512405943901488 / 2 ^ 53) \<and>
   sqrt ((8268608915852232 / 2 ^ 54) * (8268608915852232 / 2 ^ 54) + (5512405943901488 / 2 ^ 53) * (5512405943901488 / 2 ^ 53)) + (5044031582654956 / 2 ^ 57) \<le> (7205759403792794 / 2 ^ 53) + u64 * (64 * sqrt ((5404319552844595 / 2 ^ 53) * (5404319552844595 / 2 ^ 53) + (7205759403792794 / 2 ^ 53) * (7205759403792794 / 2 ^ 53)) + 36 * (7205759403792794 / 2 ^ 53)) \<and>
   handleCollisions64 roundedMath roundingExample =
     Some (handleWall64 roundedMath roundingExample) \<and>
   ball_x onAxisExample = Fin 0 \<and> ball_y onAxisExample = Fin 0 \<and>
   ball_radius onAxisExample = Fin (5044031582654956 / 2 ^ 57) \<and> fl (5044031582654956 / 2 ^ 57) = Fin (5044031582654956 / 2 ^ 57) \<and>
   handleWall64 roundedMath onAxisExample = onAxisExample \<and>
   handleCollisions64 roundedMath onAxisExample = Some onAxisExample"
proof -
  have d: "1 / 2 ^ 500 \<le> sqrt ((5404319552844595 / 2 ^ 53) * (5404319552844595 / 2 ^ 53) + (7205759403792794 / 2 ^ 53) * (7205759403792794 / 2 ^ 53))" "sqrt ((5404319552844595 / 2 ^ 53) * (5404319552844595 / 2 ^ 53) + (7205759403792794 / 2 ^ 53) * (7205759403792794 / 2 ^ 53)) \<le> 2 ^ 500"
    by (rule example_norm_range; simp)+
  have v: "(0 :: real) \<le> (5044031582654956 / 2 ^ 57)" "((5044031582654956 / 2 ^ 57) :: real) \<le> (7205759403792794 / 2 ^ 53)" "((7205759403792794 / 2 ^ 53) :: real) \<le> 2 ^ 500"
    by simp_all
  have lc: "loopCount (vaneCount roundingExample) = Some 1"
    by (simp add: roundingExample_fields(8))
  note t = containment_after_wall [OF roundingExample_fields(1,2,5,6) refl disjI1 [OF d(1)]
      d(2) v lc, of roundedMath]
  note c = contained_values [OF t [THEN conjunct1] roundingExample_wall(4,5) [of roundedMath]]
  have vr: "rmul (drumRadius roundingExample) (rsub (Fin 1) (vaneHeight roundingExample)) =
      (Fin (5044031582654955 / 2 ^ 53))"
    by (simp only: roundingExample_fields(6,9) vane_inner_radius_example)
  have "\<forall>i<1. checkVane64 roundedMath
      (rmul (drumRadius roundingExample) (rsub (Fin 1) (vaneHeight roundingExample))) i
      (handleWall64 roundedMath roundingExample) = handleWall64 roundedMath roundingExample"
    unfolding vr using roundingExample_vane by simp
  with t [THEN conjunct2]
  have h: "handleCollisions64 roundedMath roundingExample =
      Some (handleWall64 roundedMath roundingExample)"
    by (rule mp)
  have z: "sqrt (0 * 0 + 0 * 0) = (0 :: real)" "sqrt (0 * 0 + 0 * 0) \<le> (2 :: real) ^ 500"
    by simp_all
  have fr: "fl (5044031582654956 / 2 ^ 57) = Fin (5044031582654956 / 2 ^ 57)" by (rule fl_eq_dyadic) simp_all
  have lc': "loopCount (vaneCount onAxisExample) = Some 1"
    by (simp add: onAxisExample_fields(8))
  note t' = containment_after_wall [OF onAxisExample_fields(1,2,5,6) refl
      disjI2 [OF conjI [OF z(1) fr]] z(2) v lc', of roundedMath]
  have w: "handleWall64 roundedMath onAxisExample = onAxisExample"
    using onAxisExample_fields(1,2,5,6) fr v(2) by (rule wall_block64_on_axis)
  have vr': "rmul (drumRadius onAxisExample) (rsub (Fin 1) (vaneHeight onAxisExample)) =
      (Fin (5044031582654955 / 2 ^ 53))"
    by (simp only: onAxisExample_fields(6,9) vane_inner_radius_example)
  have "\<forall>i<1. checkVane64 roundedMath
      (rmul (drumRadius onAxisExample) (rsub (Fin 1) (vaneHeight onAxisExample))) i
      (handleWall64 roundedMath onAxisExample) = handleWall64 roundedMath onAxisExample"
    unfolding vr' w using onAxisExample_vane by simp
  with t' [THEN conjunct2]
  have "handleCollisions64 roundedMath onAxisExample =
      Some (handleWall64 roundedMath onAxisExample)"
    by (rule mp)
  then have h': "handleCollisions64 roundedMath onAxisExample = Some onAxisExample"
    by (simp only: w)
  from c h lc roundingExample_fields(1,2,5,6) roundingExample_wall(4,5) [of roundedMath]
    onAxisExample_fields(1,2,5) fr w h'
  show ?thesis by (intro conjI)
qed

text \<open>
  As the specification words it, the property fails beside the outer end of a vane. The
  ball at \<open>(0.7648, 0.01)\<close> is within the wall, so the wall block does nothing; the vane pushes
  it to \<open>(0.7648, 0.035)\<close>, where the wall test of the returned state holds: the ball
  has been moved through the wall by more than half a millimetre.
\<close>

lemma vaneTipExample_fields:
  "ball_x vaneTipExample = Fin (478 / 625)" "ball_y vaneTipExample = Fin (1 / 100)"
  "ball_vx vaneTipExample = Fin 0" "ball_vy vaneTipExample = Fin 0"
  "ball_radius vaneTipExample = Fin (7 / 200)" "drumRadius vaneTipExample = Fin (4 / 5)"
  "vaneCount vaneTipExample = Fin 1" "vaneHeight vaneTipExample = Fin (3 / 10)"
  by (simp_all add: vaneTipExample_def initialFields_def)

lemma vaneTipExample_wall: "handleWall vaneTipExample = vaneTipExample"
proof -
  have "sqrt (478 / 625 * (478 / 625) + 1 / 100 * (1 / 100)) \<le> (153 / 200 :: real)"
    by (rule real_le_lsqrt) (simp_all add: power2_eq_square)
  then have "\<not> (4 / 5 :: real) < sqrt (478 / 625 * (478 / 625) + 1 / 100 * (1 / 100)) + 7 / 200"
    by linarith
  with vaneTipExample_fields(1,2,5,6) show ?thesis by (rule wall_idle)
qed

lemma vaneTipExample_vane:
  "checkVane (Fin (14 / 25)) 0 vaneTipExample = vaneTipExample\<lparr>ball_y := Fin (7 / 200)\<rparr>"
proof -
  have f: "vaneFrame (Fin (14 / 25)) 0 vaneTipExample =
      (Fin (14 / 25), Fin 0, Fin (128 / 625), Fin (1 / 100), Fin (6 / 25), Fin 0, Fin (6 / 25))"
    by (simp add: vaneFrame_def Let_def jsub_def vaneTipExample_fields sqrt_36_625)
  have p: "vaneProjection (Fin (14 / 25)) 0 vaneTipExample = Fin (64 / 75)"
    by (simp add: vaneProjection_def f)
  have q: "vaneOffset (Fin (14 / 25)) 0 vaneTipExample = (Fin 0, Fin (1 / 100), Fin (1 / 100))"
    by (simp add: vaneOffset_def f p Let_def jsub_def vaneTipExample_fields sqrt_1_10000)
  have x: "vaneTipExample\<lparr>ball_x := Fin (478 / 625)\<rparr> = vaneTipExample"
    by (simp add: vaneTipExample_fields(1) [symmetric])
  show ?thesis
    by (simp add: checkVane_def f p q jge_def jsub_def Let_def vaneTipExample_fields x)
qed

theorem vane_pushes_ball_through_wall:
  "ball_radius vaneTipExample = Fin 0.035 \<and> drumRadius vaneTipExample = Fin 0.8 \<and>
   \<not> wallTest vaneTipExample \<and>
   handleCollisions vaneTipExample = Some (vaneTipExample\<lparr>ball_y := Fin 0.035\<rparr>) \<and>
   wallTest (vaneTipExample\<lparr>ball_y := Fin 0.035\<rparr>) \<and>
   0.8 + 0.0005 < sqrt (0.7648 * 0.7648 + 0.035 * 0.035) + (0.035 :: real)"
proof -
  have up: "sqrt (478 / 625 * (478 / 625) + 1 / 100 * (1 / 100)) \<le> (153 / 200 :: real)"
    by (rule real_le_lsqrt) (simp_all add: power2_eq_square)
  have lo: "(1531 / 2000 :: real) < sqrt (478 / 625 * (478 / 625) + 7 / 200 * (7 / 200))"
    by (rule real_less_rsqrt) (simp add: power2_eq_square)
  have a: "\<not> wallTest vaneTipExample"
    using up by (simp add: wallTest_def ballDist_def jgt_def vaneTipExample_fields)
  have b: "handleCollisions vaneTipExample = Some (vaneTipExample\<lparr>ball_y := Fin (7 / 200)\<rparr>)"
    by (simp add: handleCollisions_def checkVaneCollisions_def vaneTipExample_wall
        vaneTipExample_fields jsub_def vaneTipExample_vane)
  have c: "wallTest (vaneTipExample\<lparr>ball_y := Fin (7 / 200)\<rparr>)"
    using lo by (simp add: wallTest_def ballDist_def jgt_def vaneTipExample_fields)
  have d: "0.8 + 0.0005 < sqrt (0.7648 * 0.7648 + 0.035 * 0.035) + (0.035 :: real)"
    using lo by simp
  from a b c d show ?thesis by (simp add: vaneTipExample_fields)
qed

subsection \<open>Reflection and restitution\<close>





end
